(* ===== verification/Prelude.thy ===== *)
theory Prelude
  imports Main "HOL-Library.Word" "HOL-Library.AList"
begin

text \<open>
  Shared vocabulary of the development: the fixed-width integers of the Rust sources, the
  result type every fallible operation returns, the checked and saturating arithmetic of
  the Rust standard library, association lists for the maps that the code iterates over,
  and a small theory of transition systems used to lift one-step facts to whole runs.

  Rust's plain \<^verbatim>\<open>+\<close>, \<^verbatim>\<open>-\<close> and \<^verbatim>\<open>*\<close> on unsigned integers are the word
  operations: they wrap, as they do in the release profile (the workspace sets no
  \<^verbatim>\<open>overflow-checks\<close>). A failed \<^verbatim>\<open>assert!\<close>, an \<^verbatim>\<open>unwrap\<close> or
  \<^verbatim>\<open>expect\<close> on nothing, an index out of range and a division by zero are the value
  \<^verbatim>\<open>Panic\<close>.
\<close>

section \<open>Fixed-width integers and opaque identifiers\<close>

type_synonym u8 = "8 word"
type_synonym u16 = "16 word"
type_synonym u32 = "32 word"
type_synonym u64 = "64 word"

text \<open>
  Byte arrays that the code only compares or orders are read as big-endian numbers; the
  lexicographic order of \<^verbatim>\<open>[u8; 32]\<close> is then the order of the words.
\<close>

type_synonym Txid = "256 word"
type_synonym BlockHash = "256 word"
type_synonym PaymentHash = "256 word"
type_synonym PublicKey = "264 word"
type_synonym Script = "8 word list"
type_synonym DerivationPath = "32 word list"
type_synonym ChannelId = "8 word list"

record OutPoint =
  op_txid :: Txid
  op_vout :: u32

abbreviation U64_MAX :: u64 where "U64_MAX \<equiv> - 1"

section \<open>Results\<close>

datatype ('a, 'e) result = Ok 'a | Err 'e | Panic

named_theorems result_simps \<open>how results compose\<close>

fun and_then :: "('a, 'e) result \<Rightarrow> ('a \<Rightarrow> ('b, 'e) result) \<Rightarrow> ('b, 'e) result" where
  "and_then (Ok x) f = f x"
| "and_then (Err e) f = Err e"
| "and_then Panic f = Panic"

text \<open>A block of statements \<^verbatim>\<open>s1?; s2?; ...; Ok(())\<close>.\<close>

fun checks :: "(unit, 'e) result list \<Rightarrow> (unit, 'e) result" where
  "checks [] = Ok ()"
| "checks (c # cs) = and_then c (\<lambda>_. checks cs)"

fun ok_or :: "'a option \<Rightarrow> 'e \<Rightarrow> ('a, 'e) result" where
  "ok_or (Some x) e = Ok x"
| "ok_or None e = Err e"

fun expect :: "'a option \<Rightarrow> ('a, 'e) result" where
  "expect (Some x) = Ok x"
| "expect None = Panic"

fun map_err :: "('e \<Rightarrow> 'f) \<Rightarrow> ('a, 'e) result \<Rightarrow> ('a, 'f) result" where
  "map_err f (Ok x) = Ok x"
| "map_err f (Err e) = Err (f e)"
| "map_err f Panic = Panic"

fun unwrap :: "('a, 'f) result \<Rightarrow> ('a, 'e) result" where
  "unwrap (Ok x) = Ok x"
| "unwrap (Err e) = Panic"
| "unwrap Panic = Panic"

text \<open>A loop over a list whose body may fail; a failure ends the loop.\<close>

fun fold_ok :: "('a \<Rightarrow> 's \<Rightarrow> ('s, 'e) result) \<Rightarrow> 'a list \<Rightarrow> 's \<Rightarrow> ('s, 'e) result" where
  "fold_ok f [] s = Ok s"
| "fold_ok f (x # xs) s = and_then (f x s) (fold_ok f xs)"

fun map_ok :: "('a \<Rightarrow> ('b, 'e) result) \<Rightarrow> 'a list \<Rightarrow> ('b list, 'e) result" where
  "map_ok f [] = Ok []"
| "map_ok f (x # xs) = and_then (f x) (\<lambda>y. and_then (map_ok f xs) (\<lambda>ys. Ok (y # ys)))"

definition assert_that :: "bool \<Rightarrow> (unit, 'e) result" where
  "assert_that b = (if b then Ok () else Panic)"

definition err_if :: "bool \<Rightarrow> 'e \<Rightarrow> (unit, 'e) result" where
  "err_if b e = (if b then Err e else Ok ())"

definition is_ok :: "('a, 'e) result \<Rightarrow> bool" where
  "is_ok r = (case r of Ok _ \<Rightarrow> True | _ \<Rightarrow> False)"

lemma and_then_eq_Ok [result_simps]:
  "and_then m f = Ok y \<longleftrightarrow> (\<exists>x. m = Ok x \<and> f x = Ok y)"
  by (cases m) auto

lemma and_then_eq_Err [result_simps]:
  "and_then m f = Err e \<longleftrightarrow> m = Err e \<or> (\<exists>x. m = Ok x \<and> f x = Err e)"
  by (cases m) auto

lemma and_then_eq_Panic [result_simps]:
  "and_then m f = Panic \<longleftrightarrow> m = Panic \<or> (\<exists>x. m = Ok x \<and> f x = Panic)"
  by (cases m) auto

lemma and_then_cong [fundef_cong]:
  "\<lbrakk>m = m'; \<And>x. m' = Ok x \<Longrightarrow> f x = f' x\<rbrakk> \<Longrightarrow> and_then m f = and_then m' f'"
  by (cases m') auto

lemma and_then_assoc:
  "and_then (and_then m f) g = and_then m (\<lambda>x. and_then (f x) g)"
  by (cases m) auto

lemma checks_eq_Ok [result_simps]:
  "checks cs = Ok u \<longleftrightarrow> (\<forall>c \<in> set cs. c = Ok ())"
  by (induction cs) (auto simp: and_then_eq_Ok)

lemma checks_append:
  "checks (xs @ ys) = and_then (checks xs) (\<lambda>_. checks ys)"
  by (induction xs) (auto simp: and_then_assoc)

lemma checks_eq_Err:
  "checks cs = Err e \<Longrightarrow> Err e \<in> set cs"
  by (induction cs) (auto simp: and_then_eq_Err)

lemma checks_neq_Panic:
  "(\<And>c. c \<in> set cs \<Longrightarrow> c \<noteq> Panic) \<Longrightarrow> checks cs \<noteq> Panic"
  by (induction cs) (auto simp: and_then_eq_Panic)

lemma ok_or_eq [result_simps]:
  "ok_or v e = Ok x \<longleftrightarrow> v = Some x"
  "ok_or v e = Err e' \<longleftrightarrow> v = None \<and> e' = e"
  "ok_or v e \<noteq> Panic"
  by (cases v; auto)+

lemma expect_eq [result_simps]:
  "expect v = Ok x \<longleftrightarrow> v = Some x"
  "expect v \<noteq> Err e'"
  "expect v = Panic \<longleftrightarrow> v = None"
  by (cases v; auto)+

lemma map_err_eq [result_simps]:
  "map_err f r = Ok x \<longleftrightarrow> r = Ok x"
  "map_err f r = Err e' \<longleftrightarrow> (\<exists>e. r = Err e \<and> e' = f e)"
  "map_err f r = Panic \<longleftrightarrow> r = Panic"
  by (cases r; auto)+

lemma unwrap_eq [result_simps]:
  "unwrap r = Ok x \<longleftrightarrow> r = Ok x"
  "unwrap r \<noteq> Err e"
  by (cases r; simp)+

lemma map_ok_eq_Ok: "map_ok f xs = Ok ys \<longleftrightarrow> list_all2 (\<lambda>x y. f x = Ok y) xs ys"
  by (induction xs arbitrary: ys) (auto simp: and_then_eq_Ok list_all2_Cons1)

lemma map_ok_total: "(\<And>x. x \<in> set xs \<Longrightarrow> \<exists>y. f x = Ok y \<and> P x y) \<Longrightarrow> \<exists>ys. map_ok f xs = Ok ys \<and> list_all2 P xs ys"
proof (induction xs)
  case (Cons x xs)
  then obtain y ys where "f x = Ok y" "P x y" "map_ok f xs = Ok ys" "list_all2 P xs ys" by fastforce
  then show ?case by auto
qed simp

lemma fold_ok_append: "fold_ok f (xs @ ys) s = and_then (fold_ok f xs s) (fold_ok f ys)"
proof (induction xs arbitrary: s)
  case (Cons x xs)
  then show ?case by (cases "f x s") simp_all
qed simp

text \<open>A loop whose body keeps an invariant and never fails under it ends in a result.\<close>

lemma fold_ok_total:
  assumes "\<And>x s. \<lbrakk>x \<in> set xs; P s\<rbrakk> \<Longrightarrow> \<exists>s'. f x s = Ok s' \<and> P s'" "P s"
  shows "\<exists>s'. fold_ok f xs s = Ok s' \<and> P s'"
  using assms
proof (induction xs arbitrary: s)
  case (Cons x xs)
  then obtain t where "f x s = Ok t" "P t" by fastforce
  with Cons show ?case by simp
qed simp

lemma fold_ok_invariant:
  assumes "fold_ok f xs s = Ok s'" "P s" "\<And>x s t. \<lbrakk>x \<in> set xs; P s; f x s = Ok t\<rbrakk> \<Longrightarrow> P t"
  shows "P s'"
  using assms
proof (induction xs arbitrary: s)
  case (Cons x xs)
  then show ?case by (auto simp: and_then_eq_Ok)
qed simp

lemma assert_that_eq [result_simps]:
  "assert_that b = Ok u \<longleftrightarrow> b"
  "assert_that b \<noteq> Err e"
  "assert_that b = Panic \<longleftrightarrow> \<not> b"
  by (auto simp: assert_that_def)

lemma err_if_eq [result_simps]:
  "err_if b e = Ok u \<longleftrightarrow> \<not> b"
  "err_if b e = Err e' \<longleftrightarrow> b \<and> e' = e"
  "err_if b e \<noteq> Panic"
  by (auto simp: err_if_def)

lemma is_ok_iff [result_simps]: "is_ok r \<longleftrightarrow> (\<exists>x. r = Ok x)"
  by (cases r) (auto simp: is_ok_def)

section \<open>Checked and saturating arithmetic\<close>

definition checked_add :: "'w::len word \<Rightarrow> 'w word \<Rightarrow> 'w word option" where
  "checked_add a b = (if unat a + unat b < 2 ^ LENGTH('w) then Some (a + b) else None)"

definition checked_sub :: "'w::len word \<Rightarrow> 'w word \<Rightarrow> 'w word option" where
  "checked_sub a b = (if b \<le> a then Some (a - b) else None)"

definition checked_mul :: "'w::len word \<Rightarrow> 'w word \<Rightarrow> 'w word option" where
  "checked_mul a b = (if unat a * unat b < 2 ^ LENGTH('w) then Some (a * b) else None)"

definition saturating_add :: "'w::len word \<Rightarrow> 'w word \<Rightarrow> 'w word" where
  "saturating_add a b = (if unat a + unat b < 2 ^ LENGTH('w) then a + b else - 1)"

definition saturating_sub :: "'w::len word \<Rightarrow> 'w word \<Rightarrow> 'w word" where
  "saturating_sub a b = (if b \<le> a then a - b else 0)"

named_theorems arith_simps \<open>checked arithmetic read through unat\<close>

lemma unat_add_no_wrap:
  "unat a + unat b < 2 ^ LENGTH('w) \<Longrightarrow> unat (a + b) = unat a + unat b"
  for a b :: "'w::len word"
  by (simp add: unat_word_ariths)

lemma unat_mult_no_wrap:
  "unat a * unat b < 2 ^ LENGTH('w) \<Longrightarrow> unat (a * b) = unat a * unat b"
  for a b :: "'w::len word"
  by (simp add: unat_word_ariths)

lemma unat_lt2p: "unat a < 2 ^ LENGTH('w)" for a :: "'w::len word"
  by (rule unsigned_less)

lemma unat_ucast_up:
  "LENGTH('v) \<le> LENGTH('w) \<Longrightarrow> unat (ucast a :: 'w::len word) = unat a" for a :: "'v::len word"
  by (simp add: unsigned_ucast_eq, rule take_bit_nat_eq_self)
    (rule less_le_trans [OF unsigned_less], simp add: power_increasing)

lemma unat_max_word: "unat (- 1 :: 'w::len word) = 2 ^ LENGTH('w) - 1"
  by (simp add: unsigned_minus_1_eq_mask mask_eq_exp_minus_1)

lemma unat_less_max:
  "a \<noteq> - 1 \<Longrightarrow> unat a < 2 ^ LENGTH('w) - 1" for a :: "'w::len word"
proof -
  assume "a \<noteq> - 1"
  then have "unat a \<noteq> 2 ^ LENGTH('w) - 1"
    by (metis unat_max_word word_unat_eq_iff)
  with unat_lt2p [of a] show ?thesis by linarith
qed

lemma unat_plus_1: "a \<noteq> - 1 \<Longrightarrow> unat (a + 1) = unat a + 1" for a :: "'w::len word"
  using unat_less_max [of a] by (subst unat_add_no_wrap) simp_all

lemma less_plus_1: "a \<noteq> - 1 \<Longrightarrow> a < a + 1" for a :: "'w::len word"
  by (simp add: word_less_nat_alt unat_plus_1)

lemma checked_add_eq_Some [arith_simps]:
  "checked_add a b = Some c \<longleftrightarrow> unat c = unat a + unat b"
  for a b :: "'w::len word"
proof
  assume "checked_add a b = Some c"
  then show "unat c = unat a + unat b"
    by (auto simp: checked_add_def unat_add_no_wrap split: if_splits)
next
  assume eq: "unat c = unat a + unat b"
  then have "unat a + unat b < 2 ^ LENGTH('w)"
    using unat_lt2p [of c] by simp
  moreover from this eq have "c = a + b"
    by (simp add: word_unat_eq_iff unat_add_no_wrap)
  ultimately show "checked_add a b = Some c"
    by (simp add: checked_add_def)
qed

lemma checked_add_eq_None [arith_simps]:
  "checked_add a b = None \<longleftrightarrow> 2 ^ LENGTH('w) \<le> unat a + unat b"
  for a b :: "'w::len word"
  by (auto simp: checked_add_def)

lemma checked_sub_eq_Some [arith_simps]:
  "checked_sub a b = Some c \<longleftrightarrow> unat a = unat b + unat c"
  for a b :: "'w::len word"
proof
  assume "checked_sub a b = Some c"
  then have "b \<le> a" "c = a - b"
    by (auto simp: checked_sub_def split: if_splits)
  then show "unat a = unat b + unat c"
    by (simp add: unat_sub word_le_nat_alt)
next
  assume eq: "unat a = unat b + unat c"
  then have le: "b \<le> a" by (simp add: word_le_nat_alt)
  from eq le have "unat c = unat (a - b)" by (simp add: unat_sub)
  with le show "checked_sub a b = Some c"
    by (simp add: checked_sub_def word_unat_eq_iff)
qed

lemma checked_sub_eq_None [arith_simps]:
  "checked_sub a b = None \<longleftrightarrow> unat a < unat b"
  by (auto simp: checked_sub_def word_le_nat_alt)

lemma checked_mul_eq_None [arith_simps]:
  "checked_mul a b = None \<longleftrightarrow> 2 ^ LENGTH('w) \<le> unat a * unat b"
  for a b :: "'w::len word"
  by (auto simp: checked_mul_def)

lemma checked_mul_SomeD:
  "checked_mul a b = Some c \<Longrightarrow> unat c = unat a * unat b"
  for a b :: "'w::len word"
  by (auto simp: checked_mul_def unat_mult_no_wrap split: if_splits)

lemma unat_saturating_add [arith_simps]:
  "unat (saturating_add a b) = min (unat a + unat b) (2 ^ LENGTH('w) - 1)"
  for a b :: "'w::len word"
  by (auto simp: saturating_add_def unat_add_no_wrap unat_max_word)

lemma unat_saturating_sub [arith_simps]:
  "unat (saturating_sub a b) = unat a - unat b"
  by (auto simp: saturating_sub_def unat_sub word_le_nat_alt)

lemma saturating_add_exact:
  "saturating_add a b \<le> l \<Longrightarrow> l \<noteq> - 1 \<Longrightarrow> unat (saturating_add a b) = unat a + unat b"
  for a b :: "'w::len word"
proof -
  assume le: "saturating_add a b \<le> l" and l: "l \<noteq> - 1"
  from l have "unat l < 2 ^ LENGTH('w) - 1" by (rule unat_less_max)
  moreover from le have "unat (saturating_add a b) \<le> unat l"
    by (simp add: word_le_nat_alt)
  ultimately show ?thesis by (simp add: unat_saturating_add min_def split: if_splits)
qed

lemma unat_sum_list_no_wrap:
  "sum_list (map unat ws) < 2 ^ LENGTH('w) \<Longrightarrow> unat (sum_list ws) = sum_list (map unat ws)"
  for ws :: "'w::len word list"
  by (induction ws) (simp_all add: unat_add_no_wrap)

lemma ex_unat: "n < 2 ^ LENGTH('w) \<Longrightarrow> \<exists>w :: 'w::len word. unat w = n"
  by (rule exI [of _ "of_nat n"]) (simp add: unat_of_nat)

text \<open>The same operations over \<^typ>\<open>int\<close>, so that evaluation stays binary.\<close>

lemma unat_less_uint_iff:
  "unat a + unat b < 2 ^ n \<longleftrightarrow> uint a + uint b < 2 ^ n"
  "unat a * unat b < 2 ^ n \<longleftrightarrow> uint a * uint b < 2 ^ n"
  for a b :: "'w::len word"
  by (simp_all flip: of_nat_less_iff [where 'a = int])

lemma checked_arith_code [code]:
  "checked_add a b = (if uint a + uint b < 2 ^ LENGTH('w) then Some (a + b) else None)"
  "checked_mul a b = (if uint a * uint b < 2 ^ LENGTH('w) then Some (a * b) else None)"
  "saturating_add a b = (if uint a + uint b < 2 ^ LENGTH('w) then a + b else - 1)"
  for a b :: "'w::len word"
  by (simp_all add: checked_add_def checked_mul_def saturating_add_def unat_less_uint_iff)

section \<open>Maps kept as association lists\<close>

text \<open>
  The hash and tree maps of the sources are association lists with distinct keys. A
  lookup is \<^const>\<open>map_of\<close>, an insertion \<^const>\<open>AList.update\<close>, \<^verbatim>\<open>retain\<close> a
  filter. The code iterates over them in an order it does not rely on; the model iterates
  in list order.
\<close>

abbreviation wf_map :: "('k \<times> 'v) list \<Rightarrow> bool" where
  "wf_map m \<equiv> distinct (map fst m)"

definition get_or :: "'v \<Rightarrow> ('k \<times> 'v) list \<Rightarrow> 'k \<Rightarrow> 'v" where
  "get_or d m k = (case map_of m k of None \<Rightarrow> d | Some v \<Rightarrow> v)"

text \<open>\<^verbatim>\<open>m.entry(k).and_modify(f).or_insert(v)\<close>\<close>

definition entry_modify_or :: "('v \<Rightarrow> 'v) \<Rightarrow> 'v \<Rightarrow> 'k \<Rightarrow> ('k \<times> 'v) list \<Rightarrow> ('k \<times> 'v) list" where
  "entry_modify_or f v k m =
     AList.update k (case map_of m k of None \<Rightarrow> v | Some x \<Rightarrow> f x) m"

text \<open>\<^verbatim>\<open>m.entry(k).or_insert(v)\<close>\<close>

definition entry_or_insert :: "'v \<Rightarrow> 'k \<Rightarrow> ('k \<times> 'v) list \<Rightarrow> ('k \<times> 'v) list" where
  "entry_or_insert v k m = (case map_of m k of None \<Rightarrow> AList.update k v m | Some _ \<Rightarrow> m)"

lemma map_of_update_alist [simp]: "map_of (AList.update k v m) = (map_of m)(k \<mapsto> v)"
  by (rule update_conv')

lemma map_of_entry_modify_or:
  "map_of (entry_modify_or f v k m) =
     (map_of m)(k \<mapsto> (case map_of m k of None \<Rightarrow> v | Some x \<Rightarrow> f x))"
  by (simp add: entry_modify_or_def)

lemma map_of_entry_or_insert:
  "map_of (entry_or_insert v k m) =
     (case map_of m k of None \<Rightarrow> (map_of m)(k \<mapsto> v) | Some _ \<Rightarrow> map_of m)"
  by (auto simp: entry_or_insert_def split: option.splits)

lemma wf_map_update [simp, intro]: "wf_map m \<Longrightarrow> wf_map (AList.update k v m)"
  by (rule distinct_update)

lemma wf_map_entry_modify_or [simp, intro]: "wf_map m \<Longrightarrow> wf_map (entry_modify_or f v k m)"
  by (simp add: entry_modify_or_def)

lemma wf_map_entry_or_insert [simp, intro]: "wf_map m \<Longrightarrow> wf_map (entry_or_insert v k m)"
  by (auto simp: entry_or_insert_def split: option.splits)

lemma wf_map_filter [simp, intro]: "wf_map m \<Longrightarrow> wf_map (filter P m)"
  by (induction m) auto

lemma map_of_filter_key:
  "map_of (filter (\<lambda>(k, v). P k) m) k = (if P k then map_of m k else None)"
  by (induction m) auto

lemma map_of_filter_wf:
  "wf_map m \<Longrightarrow>
   map_of (filter (\<lambda>(k, v). P k v) m) k =
     (case map_of m k of None \<Rightarrow> None | Some v \<Rightarrow> if P k v then Some v else None)"
  by (induction m) (auto split: option.splits simp: map_of_eq_None_iff rev_image_eqI)

section \<open>Vectors\<close>

text \<open>\<^verbatim>\<open>Vec::resize\<close>\<close>

definition vec_resize :: "nat \<Rightarrow> 'a \<Rightarrow> 'a list \<Rightarrow> 'a list" where
  "vec_resize n d xs = take n xs @ replicate (n - length xs) d"

lemma length_vec_resize [simp]: "length (vec_resize n d xs) = n"
  by (simp add: vec_resize_def)

lemma vec_resize_shrink [simp]: "n \<le> length xs \<Longrightarrow> vec_resize n d xs = take n xs"
  by (simp add: vec_resize_def)

lemma vec_resize_Nil [simp]: "vec_resize n d [] = replicate n d"
  by (simp add: vec_resize_def)

section \<open>Transition systems\<close>

text \<open>
  A component's operations, read as a step relation on its state. An invariant of every
  step holds in every reachable state, and a preorder that every step respects holds
  between the ends of a run.
\<close>

locale transition_system =
  fixes init :: "'s \<Rightarrow> bool"
    and step :: "'s \<Rightarrow> 's \<Rightarrow> bool"
begin

inductive reachable :: "'s \<Rightarrow> bool" where
  reachable_init: "init s \<Longrightarrow> reachable s"
| reachable_step: "\<lbrakk>reachable s; step s t\<rbrakk> \<Longrightarrow> reachable t"

lemma reachable_invariant:
  assumes "reachable s"
    and "\<And>s. init s \<Longrightarrow> I s"
    and "\<And>s t. \<lbrakk>reachable s; I s; step s t\<rbrakk> \<Longrightarrow> I t"
  shows "I s"
  using assms(1) by (induction rule: reachable.induct) (auto intro: assms(2,3))

lemma run_monotone:
  assumes "step\<^sup>*\<^sup>* s t"
    and "\<And>s. R s s"
    and "\<And>s t u. \<lbrakk>R s t; R t u\<rbrakk> \<Longrightarrow> R s u"
    and "\<And>s t. step s t \<Longrightarrow> R s t"
  shows "R s t"
  using assms(1) by (induction rule: rtranclp_induct) (auto intro: assms(2-4))

end

text \<open>A step relation with labels, for what an operation was asked and what it answered.\<close>

locale labelled_system =
  fixes start :: "'s \<Rightarrow> bool"
    and act :: "'l \<Rightarrow> 's \<Rightarrow> 's \<Rightarrow> bool"
begin

inductive trace :: "'s \<Rightarrow> 'l list \<Rightarrow> 's \<Rightarrow> bool" for s where
  trace_nil: "trace s [] s"
| trace_snoc: "\<lbrakk>trace s ls t; act l t u\<rbrakk> \<Longrightarrow> trace s (ls @ [l]) u"

lemma trace_invariant:
  assumes "trace s ls t" "I s []"
    and "\<And>ls l t u. \<lbrakk>trace s ls t; I t ls; act l t u\<rbrakk> \<Longrightarrow> I u (ls @ [l])"
  shows "I t ls"
  using assms(1) by (induction rule: trace.induct) (auto intro: assms(2,3))

lemma trace_Cons:
  assumes "act l s t" "trace t ls u"
  shows "trace s (l # ls) u"
  using assms(2)
proof (induction rule: trace.induct)
  case trace_nil
  from trace_snoc [OF trace.trace_nil assms(1)] show ?case by simp
next
  case (trace_snoc ls l' u u')
  from trace.trace_snoc [OF trace_snoc.IH trace_snoc.hyps(2)] show ?case by simp
qed

end

context labelled_system
begin

lemma trace_snocD: "trace s (ls @ [l]) u \<Longrightarrow> \<exists>t. trace s ls t \<and> act l t u"
  by (erule trace.cases) auto

text \<open>The states before and after one step of a run.\<close>

lemma trace_split:
  "trace s (ls @ l # ls') t \<Longrightarrow> \<exists>u u'. trace s ls u \<and> act l u u' \<and> trace u' ls' t"
proof (induction ls' arbitrary: t rule: rev_induct)
  case Nil
  then show ?case by (auto dest!: trace_snocD intro: trace_nil)
next
  case (snoc l' ls')
  then obtain v where v: "trace s (ls @ l # ls') v" "act l' v t"
    using trace_snocD [of s "ls @ l # ls'" l' t] by auto
  with snoc.IH [OF v(1)] show ?case by (blast intro: trace_snoc)
qed

lemma trace_append: "\<lbrakk>trace s ls t; trace t ls' u\<rbrakk> \<Longrightarrow> trace s (ls @ ls') u"
  by (rotate_tac, induction rule: trace.induct) (auto simp flip: append_assoc intro: trace_snoc)

end

sublocale labelled_system \<subseteq> unlabelled: transition_system start "\<lambda>s t. \<exists>l. act l s t" .

context labelled_system
begin

lemma trace_run: "trace s ls t \<Longrightarrow> (\<lambda>s t. \<exists>l. act l s t)\<^sup>*\<^sup>* s t"
  by (induction rule: trace.induct) (auto intro: rtranclp.rtrancl_into_rtrancl)

lemma trace_reachable: "\<lbrakk>start s; trace s ls t\<rbrakk> \<Longrightarrow> unlabelled.reachable t"
  by (rotate_tac, induction rule: trace.induct)
    (auto intro: unlabelled.reachable_init unlabelled.reachable_step)

end

section \<open>Operations that may fail halfway\<close>

text \<open>
  A method on \<^verbatim>\<open>&mut self\<close> that returns a \<^verbatim>\<open>Result\<close> is a function to the result and the state that
  the memory holds when it returns, also when it returns an error. The \<^verbatim>\<open>?\<close> operator on a call
  that only reads is \<open>attempt\<close>, and on a call that may also write it is \<open>attempt_op\<close>.
\<close>

type_synonym ('s, 'a, 'e) outcome = "('a, 'e) result \<times> 's"

definition attempt :: "('a, 'e) result \<Rightarrow> 's \<Rightarrow> ('a \<Rightarrow> ('s, 'b, 'e) outcome) \<Rightarrow> ('s, 'b, 'e) outcome" where
  "attempt r s k = (case r of Ok x \<Rightarrow> k x | Err e \<Rightarrow> (Err e, s) | Panic \<Rightarrow> (Panic, s))"

definition attempt_op ::
  "('s, 'a, 'e) outcome \<Rightarrow> ('a \<Rightarrow> 's \<Rightarrow> ('s, 'b, 'e) outcome) \<Rightarrow> ('s, 'b, 'e) outcome" where
  "attempt_op m k = (case m of (Ok x, s) \<Rightarrow> k x s | (Err e, s) \<Rightarrow> (Err e, s) | (Panic, s) \<Rightarrow> (Panic, s))"

lemma attempt_simps [simp]:
  "attempt (Ok x) s k = k x"
  "attempt (Err e) s k = (Err e, s)"
  "attempt Panic s k = (Panic, s)"
  by (simp_all add: attempt_def)

lemma attempt_op_simps [simp]:
  "attempt_op (Ok x, s) k = k x s"
  "attempt_op (Err e, s) k = (Err e, s)"
  "attempt_op (Panic, s) k = (Panic, s)"
  by (simp_all add: attempt_op_def)

lemma attempt_Ok_iff:
  "attempt r s k = (Ok y, t) \<longleftrightarrow> (\<exists>x. r = Ok x \<and> k x = (Ok y, t))"
  by (cases r) auto

lemma attempt_op_Ok_iff:
  "attempt_op m k = (Ok y, t) \<longleftrightarrow> (\<exists>x s. m = (Ok x, s) \<and> k x s = (Ok y, t))"
  by (cases m; cases "fst m") auto

text \<open>A property of the state holds after an operation when every write on the way keeps it.\<close>

lemma attempt_state:
  "\<lbrakk>P s; \<And>x. r = Ok x \<Longrightarrow> P (snd (k x))\<rbrakk> \<Longrightarrow> P (snd (attempt r s k))"
  by (cases r) auto

lemma attempt_op_state:
  "\<lbrakk>P (snd m); \<And>x s. m = (Ok x, s) \<Longrightarrow> P (snd (k x s))\<rbrakk> \<Longrightarrow> P (snd (attempt_op m k))"
  by (cases m; cases "fst m") auto

lemmas attempt_iffs = attempt_Ok_iff attempt_op_Ok_iff

end
