(* ===== verification/Velocity.thy ===== *)
theory Velocity
  imports Prelude
begin

text \<open>
  The velocity control of \<^verbatim>\<open>vls-core/src/util/velocity.rs\<close>: a rate limiter that keeps
  one total per time bucket. The model keeps the buckets, the saturating sums and the
  wrapping subtraction of the source. The abstract view is the log of the insertions the
  control accepted; the buckets refine it, and from that no window shorter than the
  tracked interval ever holds more than the limit.
\<close>

section \<open>The control\<close>

record VelocityControl =
  start_sec :: u64
  bucket_interval :: u32
  buckets :: "u64 list"
  limit :: u64

datatype VelocityControlIntervalType = Hourly | Daily | Unlimited

record VelocityControlSpec =
  limit_msat :: u64
  interval_type :: VelocityControlIntervalType

definition UNLIMITED :: VelocityControlSpec where
  "UNLIMITED = \<lparr>limit_msat = 0, interval_type = Unlimited\<rparr>"

definition new_with_intervals :: "u64 \<Rightarrow> u32 \<Rightarrow> nat \<Rightarrow> (VelocityControl, 'e) result" where
  "new_with_intervals lim bi num_buckets =
     and_then (assert_that (bi > 0 \<and> num_buckets > 0)) (\<lambda>_.
       Ok \<lparr>start_sec = 0, bucket_interval = bi, buckets = vec_resize num_buckets 0 [], limit = lim\<rparr>)"

definition new_unlimited :: "u32 \<Rightarrow> nat \<Rightarrow> (VelocityControl, 'e) result" where
  "new_unlimited bi num_buckets =
     and_then (assert_that (bi > 0 \<and> num_buckets > 0)) (\<lambda>_.
       Ok \<lparr>start_sec = 0, bucket_interval = bi, buckets = vec_resize num_buckets 0 [],
           limit = U64_MAX\<rparr>)"

definition spec_to_triple :: "VelocityControlSpec \<Rightarrow> u64 \<times> u32 \<times> nat" where
  "spec_to_triple spec =
     (case interval_type spec of
        Hourly \<Rightarrow> (limit_msat spec, 300, 12)
      | Daily \<Rightarrow> (limit_msat spec, 3600, 24)
      | Unlimited \<Rightarrow> (U64_MAX, 300, 12))"

definition velocity_new :: "VelocityControlSpec \<Rightarrow> (VelocityControl, 'e) result" where
  "velocity_new spec =
     (let (lim, bi, num_buckets) = spec_to_triple spec in new_with_intervals lim bi num_buckets)"

definition spec_matches :: "VelocityControl \<Rightarrow> VelocityControlSpec \<Rightarrow> bool" where
  "spec_matches c spec =
     (let (lim, bi, num_buckets) = spec_to_triple spec
      in limit c = lim \<and> bucket_interval c = bi \<and> length (buckets c) = num_buckets)"

definition update_spec :: "VelocityControl \<Rightarrow> VelocityControlSpec \<Rightarrow> VelocityControl" where
  "update_spec c spec =
     (if \<not> spec_matches c spec then
        let (lim, bi, num_buckets) = spec_to_triple spec
        in c\<lparr>limit := lim, bucket_interval := bi, buckets := vec_resize num_buckets 0 [],
             start_sec := 0\<rparr>
      else c)"

definition with_state :: "VelocityControl \<Rightarrow> u64 \<times> u64 list \<Rightarrow> VelocityControl" where
  "with_state c st = c\<lparr>start_sec := fst st, buckets := snd st\<rparr>"

definition load_from_state ::
  "VelocityControlSpec \<Rightarrow> u64 \<times> u64 list \<Rightarrow> (VelocityControl, 'e) result" where
  "load_from_state spec st = and_then (velocity_new spec) (\<lambda>control. Ok (with_state control st))"

definition get_state :: "VelocityControl \<Rightarrow> u64 \<times> u64 list" where
  "get_state c = (start_sec c, buckets c)"

definition is_unlimited :: "VelocityControl \<Rightarrow> bool" where
  "is_unlimited c \<longleftrightarrow> limit c = U64_MAX"

definition velocity :: "VelocityControl \<Rightarrow> u64" where
  "velocity c = foldl saturating_add 0 (buckets c)"

text \<open>The loop that inserts a zero at the front, \<^verbatim>\<open>nshift\<close> times.\<close>

fun shift_in_zeros :: "nat \<Rightarrow> u64 list \<Rightarrow> u64 list" where
  "shift_in_zeros 0 bs = bs"
| "shift_in_zeros (Suc n) bs = shift_in_zeros n (0 # bs)"

text \<open>The first half of \<^verbatim>\<open>insert\<close>: age the buckets to the current second.\<close>

definition advance_to :: "VelocityControl \<Rightarrow> u64 \<Rightarrow> VelocityControl" where
  "advance_to c current_sec =
     (let interval = ucast (bucket_interval c) :: u64;
          nshift = (current_sec - start_sec c) div interval;
          len = length (buckets c);
          nshift = min len (unat nshift)
      in c\<lparr>buckets := shift_in_zeros nshift (vec_resize (len - nshift) 0 (buckets c)),
           start_sec := current_sec - current_sec mod interval\<rparr>)"

definition velocity_insert ::
  "VelocityControl \<Rightarrow> u64 \<Rightarrow> u64 \<Rightarrow> (VelocityControl \<times> bool, 'e) result" where
  "velocity_insert c current_sec velocity_msat =
     (if bucket_interval c = 0 then Panic
      else
        let c = advance_to c current_sec;
            current_velocity = velocity c
        in if saturating_add current_velocity velocity_msat > limit c then Ok (c, False)
           else (case buckets c of
                   [] \<Rightarrow> Panic
                 | b # bs \<Rightarrow> Ok (c\<lparr>buckets := saturating_add b velocity_msat # bs\<rparr>, True)))"

definition velocity_clear :: "VelocityControl \<Rightarrow> VelocityControl" where
  "velocity_clear c = c\<lparr>buckets := map (\<lambda>_. 0) (buckets c)\<rparr>"

section \<open>What one insertion does to the buckets\<close>

lemma shift_in_zeros_eq: "shift_in_zeros n bs = replicate n 0 @ bs"
  by (induction n arbitrary: bs) (auto simp: replicate_app_Cons_same)

lemma unat_foldl_saturating_add:
  "unat (foldl saturating_add s bs) = min (unat s + sum_list (map unat bs)) (2 ^ 64 - 1)"
  for s :: u64
proof (induction bs arbitrary: s)
  case Nil
  then show ?case using unat_lt2p [of s] by simp
next
  case (Cons b bs)
  then show ?case by (simp add: arith_simps)
qed

lemma unat_velocity:
  "unat (velocity c) = min (sum_list (map unat (buckets c))) (2 ^ 64 - 1)"
  by (simp add: velocity_def unat_foldl_saturating_add)

definition wf_velocity :: "VelocityControl \<Rightarrow> bool" where
  "wf_velocity c \<longleftrightarrow> bucket_interval c \<noteq> 0 \<and> buckets c \<noteq> []"

abbreviation interval_secs :: "VelocityControl \<Rightarrow> nat" where
  "interval_secs c \<equiv> unat (bucket_interval c)"

abbreviation bucket_at :: "VelocityControl \<Rightarrow> nat" where
  "bucket_at c \<equiv> unat (start_sec c) div interval_secs c"

lemma advance_to_frame [simp]:
  "limit (advance_to c t) = limit c"
  "bucket_interval (advance_to c t) = bucket_interval c"
  "length (buckets (advance_to c t)) = length (buckets c)"
  by (auto simp: advance_to_def Let_def shift_in_zeros_eq)

lemma unat_ucast_interval [simp]: "unat (ucast (bi :: u32) :: u64) = unat bi"
  by (rule unat_ucast_up) simp

lemma velocity_insert_eq:
  assumes "wf_velocity c"
  shows "velocity_insert c t a =
    (let c1 = advance_to c t in
     if limit c < saturating_add (velocity c1) a then Ok (c1, False)
     else Ok (c1\<lparr>buckets := saturating_add (hd (buckets c1)) a # tl (buckets c1)\<rparr>, True))"
proof -
  have "buckets (advance_to c t) \<noteq> []"
    using assms by (metis advance_to_frame(3) length_0_conv wf_velocity_def)
  then show ?thesis
    using assms by (auto simp: velocity_insert_def wf_velocity_def Let_def neq_Nil_conv)
qed

section \<open>The accepted log\<close>

text \<open>
  The abstract state is the list of accepted insertions, each a pair of second and amount.
  \<open>recent\<close> is the total accepted less than \<open>span\<close> seconds before \<open>now\<close>,
  \<open>in_window\<close> the total accepted from \<open>from\<close> on during \<open>span\<close> seconds.
\<close>

type_synonym payment_log = "(nat \<times> nat) list"

definition total_where :: "(nat \<Rightarrow> bool) \<Rightarrow> payment_log \<Rightarrow> nat" where
  "total_where P log = sum_list (map snd (filter (\<lambda>(t, a). P t) log))"

definition recent :: "payment_log \<Rightarrow> nat \<Rightarrow> nat \<Rightarrow> nat" where
  "recent log span now = total_where (\<lambda>t. now < t + span) log"

definition in_window :: "payment_log \<Rightarrow> nat \<Rightarrow> nat \<Rightarrow> nat" where
  "in_window log span from = total_where (\<lambda>t. from \<le> t \<and> t < from + span) log"

lemma total_where_simps [simp]:
  "total_where P [] = 0"
  "total_where P ((t, a) # log) = (if P t then a else 0) + total_where P log"
  by (auto simp: total_where_def)

lemma total_where_mono:
  "(\<And>t. P t \<Longrightarrow> Q t) \<Longrightarrow> total_where P log \<le> total_where Q log"
  by (induction log) (auto simp: add_mono trans_le_add2)

lemma total_where_cong:
  "(\<And>t a. (t, a) \<in> set log \<Longrightarrow> P t = Q t) \<Longrightarrow> total_where P log = total_where Q log"
proof (induction log)
  case (Cons x log)
  obtain t a where "x = (t, a)" by force
  with Cons show ?case by force
qed simp

lemma total_where_Un:
  "(\<And>t. \<not> (P t \<and> Q t)) \<Longrightarrow>
   total_where (\<lambda>t. P t \<or> Q t) log = total_where P log + total_where Q log"
  by (induction log) auto

text \<open>A sequence of insertions, with the log of those that were accepted.\<close>

fun insert_all ::
  "('c \<Rightarrow> u64 \<Rightarrow> u64 \<Rightarrow> ('c \<times> bool, 'e) result) \<Rightarrow>
   'c \<Rightarrow> (u64 \<times> u64) list \<Rightarrow> payment_log \<Rightarrow> ('c \<times> payment_log, 'e) result" where
  "insert_all ins c [] log = Ok (c, log)"
| "insert_all ins c ((t, a) # evs) log =
     and_then (ins c t a) (\<lambda>(c', b).
       insert_all ins c' evs (if b then (unat t, unat a) # log else log))"

fun ordered_from :: "nat \<Rightarrow> (u64 \<times> u64) list \<Rightarrow> bool" where
  "ordered_from n [] = True"
| "ordered_from n ((t, a) # evs) = (n \<le> unat t \<and> ordered_from (unat t) evs)"

text \<open>
  The contract of a rate limiter towards its callers: whatever it accepts is logged, the
  clock never runs backwards, and it accepts only when the recent total stays within the
  cap. The bound on every window follows from the contract alone.
\<close>

locale rate_limiter =
  fixes insert :: "'c \<Rightarrow> u64 \<Rightarrow> u64 \<Rightarrow> ('c \<times> bool, 'e) result"
    and represents :: "'c \<Rightarrow> payment_log \<Rightarrow> bool"
    and clock :: "'c \<Rightarrow> nat"
    and cap :: "'c \<Rightarrow> nat"
    and span :: "'c \<Rightarrow> nat"
    and reach :: "'c \<Rightarrow> nat"
  assumes insert_total:
    "\<lbrakk>represents c log; clock c \<le> unat t\<rbrakk> \<Longrightarrow>
     \<exists>c' b. insert c t a = Ok (c', b)"
    and insert_logs:
    "\<lbrakk>represents c log; clock c \<le> unat t; insert c t a = Ok (c', b)\<rbrakk> \<Longrightarrow>
     represents c' (if b then (unat t, unat a) # log else log)
     \<and> clock c' \<le> unat t \<and> cap c' = cap c \<and> span c' = span c \<and> reach c' = reach c"
    and insert_accepts:
    "\<lbrakk>represents c log; clock c \<le> unat t; insert c t a = Ok (c', b)\<rbrakk> \<Longrightarrow>
     b \<Longrightarrow> recent log (span c) (unat t) + unat a \<le> cap c"
    and insert_refuses:
    "\<lbrakk>represents c log; clock c \<le> unat t; insert c t a = Ok (c', b)\<rbrakk> \<Longrightarrow>
     \<not> b \<Longrightarrow> cap c < recent log (reach c) (unat t) + unat a"
begin

lemma window_step:
  assumes "\<And>from. in_window log sp from \<le> m"
    and "b \<Longrightarrow> recent log sp t + a \<le> m"
  shows "in_window (if b then (t, a) # log else log) sp from \<le> m"
proof (cases "b \<and> from \<le> t \<and> t < from + sp")
  case True
  have "in_window log sp from \<le> recent log sp t"
    unfolding in_window_def recent_def using True by (intro total_where_mono) auto
  with True assms(2) show ?thesis by (simp add: in_window_def)
next
  case False
  with assms(1) [of "from"] show ?thesis by (auto simp: in_window_def)
qed

lemma insert_all_bounded:
  assumes "represents c log" "clock c \<le> n" "ordered_from n evs"
    and "\<And>from. in_window log (span c) from \<le> cap c"
  shows "\<exists>c' log'. insert_all insert c evs log = Ok (c', log') \<and> represents c' log'
           \<and> (\<forall>from. in_window log' (span c) from \<le> cap c)"
  using assms
proof (induction evs arbitrary: c log n)
  case Nil
  then show ?case by auto
next
  case (Cons ev evs)
  obtain t a where ev: "ev = (t, a)" by force
  with Cons.prems have t: "clock c \<le> unat t" "ordered_from (unat t) evs" by auto
  obtain c' b where ins: "insert c t a = Ok (c', b)"
    using insert_total [OF Cons.prems(1) t(1)] by blast
  let ?log = "if b then (unat t, unat a) # log else log"
  have rep: "represents c' ?log" and cl: "clock c' \<le> unat t"
    and eq: "cap c' = cap c" "span c' = span c"
    using insert_logs [OF Cons.prems(1) t(1) ins] by auto
  have win: "in_window ?log (span c) from \<le> cap c" for "from"
    by (rule window_step)
      (use Cons.prems(4) insert_accepts [OF Cons.prems(1) t(1) ins] in auto)
  from Cons.IH [OF rep cl t(2)] win eq ins ev show ?case by auto
qed

lemma insert_all_represents:
  assumes "represents c log" "clock c \<le> n" "ordered_from n (evs @ [(t, a)])"
    and "insert_all insert c evs log = Ok (c', log')"
  shows "represents c' log' \<and> clock c' \<le> unat t
         \<and> cap c' = cap c \<and> span c' = span c \<and> reach c' = reach c"
  using assms
proof (induction evs arbitrary: c log n)
  case (Cons ev evs)
  obtain u x where ev: "ev = (u, x)" by force
  with Cons.prems have u: "clock c \<le> unat u" "ordered_from (unat u) (evs @ [(t, a)])" by auto
  obtain c1 b where ins: "insert c u x = Ok (c1, b)"
    and run: "insert_all insert c1 evs (if b then (unat u, unat x) # log else log) = Ok (c', log')"
    using Cons.prems(4) ev by (auto simp: result_simps)
  note step = insert_logs [OF Cons.prems(1) u(1) ins]
  with Cons.IH [OF _ _ u(2) run] show ?case by auto
qed simp

end

section \<open>The buckets refine the log\<close>

definition logs_to :: "VelocityControl \<Rightarrow> payment_log \<Rightarrow> bool" where
  "logs_to c log \<longleftrightarrow>
     wf_velocity c \<and> limit c \<noteq> U64_MAX \<and> interval_secs c dvd unat (start_sec c)
     \<and> (\<forall>(t, a) \<in> set log. t div interval_secs c \<le> bucket_at c)
     \<and> (\<forall>i < length (buckets c). unat (buckets c ! i) =
           total_where (\<lambda>t. t div interval_secs c + i = bucket_at c) log)"

lemma unat_start_advance:
  assumes "bucket_interval c \<noteq> 0"
  shows "unat (start_sec (advance_to c t)) = unat t - unat t mod interval_secs c"
proof -
  have "unat (t - t mod ucast (bucket_interval c)) = unat t - unat (t mod ucast (bucket_interval c))"
    by (rule unat_sub) (simp add: word_le_nat_alt unat_mod)
  then show ?thesis by (simp add: advance_to_def Let_def unat_mod)
qed

lemma bucket_at_advance:
  assumes "bucket_interval c \<noteq> 0"
  shows "bucket_at (advance_to c t) = unat t div interval_secs c"
    and "interval_secs c dvd unat (start_sec (advance_to c t))"
  using unat_start_advance [OF assms, of t]
  by (simp_all add: minus_mod_eq_mult_div dvd_minus_mod)

lemma buckets_advance:
  assumes "bucket_interval c \<noteq> 0" "start_sec c \<le> t" "interval_secs c dvd unat (start_sec c)"
  defines "k \<equiv> unat t div interval_secs c - bucket_at c"
  shows "buckets (advance_to c t) =
    replicate (min (length (buckets c)) k) 0 @
    take (length (buckets c) - min (length (buckets c)) k) (buckets c)"
proof -
  have "unat ((t - start_sec c) div ucast (bucket_interval c)) =
        (unat t - unat (start_sec c)) div interval_secs c"
    using assms(2) by (simp add: unat_div unat_sub)
  also have "\<dots> = k"
  proof -
    obtain q where q: "unat (start_sec c) = interval_secs c * q"
      using assms(3) by blast
    moreover obtain d where "unat t = unat (start_sec c) + d"
      using assms(2) by (auto simp: word_le_nat_alt le_iff_add)
    moreover have "interval_secs c \<noteq> 0"
      using assms(1) by (simp add: unat_eq_zero)
    ultimately show ?thesis unfolding k_def by simp
  qed
  finally show ?thesis
    by (simp add: advance_to_def Let_def shift_in_zeros_eq)
qed

lemma advance_logs_to:
  assumes "logs_to c log" "unat (start_sec c) \<le> unat t"
  shows "logs_to (advance_to c t) log"
proof -
  let ?n = "length (buckets c)" and ?iv = "interval_secs c"
  define k where "k = unat t div ?iv - bucket_at c"
  from assms(1) have wf: "bucket_interval c \<noteq> 0" "buckets c \<noteq> []" "limit c \<noteq> U64_MAX"
    and dvd: "?iv dvd unat (start_sec c)"
    and old: "\<And>t' a. (t', a) \<in> set log \<Longrightarrow> t' div ?iv \<le> bucket_at c"
    and bs: "\<And>i. i < ?n \<Longrightarrow> unat (buckets c ! i) = total_where (\<lambda>t. t div ?iv + i = bucket_at c) log"
    by (auto simp: logs_to_def wf_velocity_def)
  have le: "bucket_at c \<le> unat t div ?iv"
    using assms(2) by (rule div_le_mono)
  have eq: "bucket_at (advance_to c t) = bucket_at c + k"
    using bucket_at_advance(1) [OF wf(1), of t] le by (simp add: k_def)
  have bkt: "unat (buckets (advance_to c t) ! i) =
      total_where (\<lambda>t. t div ?iv + i = bucket_at c + k) log" if i: "i < ?n" for i
  proof (cases "i < k")
    case True
    have "total_where (\<lambda>t. t div ?iv + i = bucket_at c + k) log = total_where (\<lambda>t. False) log"
      by (rule total_where_cong) (use old True in fastforce)
    also have "\<dots> = 0" by (simp add: total_where_def)
    finally show ?thesis
      using True i wf(1) assms(2) dvd
      by (simp add: buckets_advance word_le_nat_alt flip: k_def) (simp add: nth_append)
  next
    case False
    then have "unat (buckets (advance_to c t) ! i) = unat (buckets c ! (i - k))"
      using i wf(1) assms(2) dvd
      by (simp add: buckets_advance word_le_nat_alt nth_append flip: k_def)
    also have "\<dots> = total_where (\<lambda>t. t div ?iv + i = bucket_at c + k) log"
      using bs [of "i - k"] i False by (auto intro: total_where_cong)
    finally show ?thesis .
  qed
  have "buckets (advance_to c t) \<noteq> []"
    using wf(2) by (metis advance_to_frame(3) length_0_conv)
  moreover have "\<forall>(t', a) \<in> set log. t' div ?iv \<le> bucket_at c + k"
    using old by fastforce
  ultimately show ?thesis
    unfolding logs_to_def eq
    using wf bucket_at_advance(2) [OF wf(1), of t] bkt by (simp add: wf_velocity_def)
qed

lemma sum_total_where:
  "(\<Sum>i<(m::nat). total_where (\<lambda>t. f t + i = B) log) = total_where (\<lambda>t. f t \<le> B \<and> B < f t + m) log"
proof (induction m)
  case 0
  have "(\<lambda>t. f t \<le> B \<and> B < f t + 0) = (\<lambda>t. False)" by auto
  then show ?case by (simp add: total_where_def)
next
  case (Suc m)
  have "total_where (\<lambda>t. f t \<le> B \<and> B < f t + Suc m) log =
        total_where (\<lambda>t. (f t \<le> B \<and> B < f t + m) \<or> f t + m = B) log"
    by (rule total_where_cong) auto
  then show ?case
    using Suc total_where_Un [of "\<lambda>t. f t \<le> B \<and> B < f t + m" "\<lambda>t. f t + m = B" log] by simp
qed

lemma sum_buckets:
  assumes "logs_to c log"
  shows "sum_list (map unat (buckets c)) =
    total_where (\<lambda>t. bucket_at c < t div interval_secs c + length (buckets c)) log"
proof -
  have "sum_list (map unat (buckets c)) = (\<Sum>i<length (buckets c). unat (buckets c ! i))"
    by (simp add: sum_list_sum_nth atLeast0LessThan)
  also have "\<dots> = (\<Sum>i<length (buckets c).
      total_where (\<lambda>t. t div interval_secs c + i = bucket_at c) log)"
    using assms by (intro sum.cong) (auto simp: logs_to_def)
  also have "\<dots> = total_where (\<lambda>t. t div interval_secs c \<le> bucket_at c
      \<and> bucket_at c < t div interval_secs c + length (buckets c)) log"
    by (rule sum_total_where)
  also have "\<dots> = total_where (\<lambda>t. bucket_at c < t div interval_secs c + length (buckets c)) log"
    by (rule total_where_cong) (use assms in \<open>force simp: logs_to_def\<close>)
  finally show ?thesis .
qed

text \<open>The span every window guarantee covers, and the longest time an entry is remembered.\<close>

definition guarded_span :: "VelocityControl \<Rightarrow> nat" where
  "guarded_span c = (length (buckets c) - 1) * interval_secs c"

definition tracked_span :: "VelocityControl \<Rightarrow> nat" where
  "tracked_span c = length (buckets c) * interval_secs c"

lemma guarded_recent_bucket:
  assumes "0 < (iv::nat)" "now < t + (n - 1) * iv" "0 < n"
  shows "now div iv < t div iv + n"
proof -
  have "now div iv \<le> (t + (n - 1) * iv) div iv"
    using assms(2) by (intro div_le_mono) simp
  also have "\<dots> = t div iv + (n - 1)"
    using assms(1) by simp
  finally show ?thesis using assms(3) by simp
qed

lemma tracked_recent_bucket:
  assumes "0 < (iv::nat)" "now div iv < t div iv + n"
  shows "now < t + n * iv"
proof -
  have "now < (now div iv + 1) * iv"
    using assms(1) by (metis add.commute dividend_less_div_times mult.commute mult_Suc Suc_eq_plus1)
  also have "\<dots> \<le> (t div iv + n) * iv"
    using assms(2) by (intro mult_right_mono) simp_all
  also have "\<dots> \<le> t + n * iv"
    by (simp add: add_mult_distrib)
  finally show ?thesis .
qed

text \<open>An insertion is decided by the exact total of the tracked buckets.\<close>

lemma velocity_insert_decides:
  assumes "logs_to c log" "unat (start_sec c) \<le> unat t" "velocity_insert c t a = Ok (c', b)"
  shows "b \<longleftrightarrow> total_where (\<lambda>t'. unat t div interval_secs c
             < t' div interval_secs c + length (buckets c)) log + unat a \<le> unat (limit c)"
proof -
  let ?c1 = "advance_to c t"
  let ?S = "sum_list (map unat (buckets ?c1))"
  have c1: "logs_to ?c1 log" by (rule advance_logs_to [OF assms(1,2)])
  have wf: "wf_velocity c" and lim: "limit c \<noteq> - 1" "bucket_interval c \<noteq> 0"
    using assms(1) by (auto simp: logs_to_def wf_velocity_def)
  have l: "unat (limit c) < 2 ^ 64 - 1"
    using unat_less_max [OF lim(1)] by simp
  have "b \<longleftrightarrow> saturating_add (velocity ?c1) a \<le> limit c"
    using assms(3) by (auto simp: velocity_insert_eq [OF wf] Let_def not_less split: if_splits)
  also have "\<dots> \<longleftrightarrow> ?S + unat a \<le> unat (limit c)"
    using l by (auto simp: word_le_nat_alt unat_saturating_add unat_velocity min_def)
  finally show ?thesis
    using sum_buckets [OF c1] bucket_at_advance(1) [OF lim(2), of t] by simp
qed

lemma velocity_insert_total:
  "logs_to c log \<Longrightarrow> \<exists>c' b. velocity_insert c t a = Ok (c', b)"
  by (auto simp: logs_to_def velocity_insert_eq Let_def)

lemma velocity_insert_frame:
  "wf_velocity c \<Longrightarrow> velocity_insert c t a = Ok (c', b) \<Longrightarrow>
   limit c' = limit c \<and> bucket_interval c' = bucket_interval c
   \<and> length (buckets c') = length (buckets c) \<and> start_sec c' = start_sec (advance_to c t)"
  by (auto simp: velocity_insert_eq Let_def wf_velocity_def simp flip: length_greater_0_conv
      split: if_splits)

lemma velocity_insert_logs:
  assumes "logs_to c log" "unat (start_sec c) \<le> unat t" "velocity_insert c t a = Ok (c', b)"
  shows "logs_to c' (if b then (unat t, unat a) # log else log)"
proof (cases b)
  case False
  then have "c' = advance_to c t"
    using assms(1,3) by (auto simp: logs_to_def velocity_insert_eq Let_def split: if_splits)
  with False show ?thesis using advance_logs_to [OF assms(1,2)] by simp
next
  case True
  let ?c1 = "advance_to c t"
  have c1: "logs_to ?c1 log" by (rule advance_logs_to [OF assms(1,2)])
  have wf: "wf_velocity c" "limit c \<noteq> - 1" "bucket_interval c \<noteq> 0"
    using assms(1) by (auto simp: logs_to_def wf_velocity_def)
  obtain x xs where bs: "buckets ?c1 = x # xs"
    using c1 by (auto simp: logs_to_def wf_velocity_def neq_Nil_conv)
  have le: "saturating_add (velocity ?c1) a \<le> limit c"
    and c': "c' = ?c1\<lparr>buckets := saturating_add x a # xs\<rparr>"
    using assms(3) True bs
    by (auto simp: velocity_insert_eq [OF wf(1)] Let_def split: if_splits)
  from saturating_add_exact [OF le wf(2)] have "unat (velocity ?c1) + unat a < 2 ^ 64"
    using unat_lt2p [of "saturating_add (velocity ?c1) a"] by simp
  moreover have "unat x \<le> unat (velocity ?c1)"
    using unat_lt2p [of x] by (simp add: unat_velocity bs)
  ultimately have x: "unat (saturating_add x a) = unat x + unat a"
    by (simp add: unat_saturating_add)
  have at: "bucket_at ?c1 = unat t div interval_secs c"
    by (rule bucket_at_advance(1) [OF wf(3)])
  have "unat ((saturating_add x a # xs) ! i) =
      total_where (\<lambda>t'. t' div interval_secs c + i = bucket_at ?c1) ((unat t, unat a) # log)"
    if "i < length (buckets ?c1)" for i
    using c1 that x at bs by (cases i) (auto simp: logs_to_def)
  then show ?thesis
    using c1 c' True at bs by (auto simp: logs_to_def wf_velocity_def)
qed

interpretation vel: rate_limiter velocity_insert logs_to "\<lambda>c. unat (start_sec c)"
  "\<lambda>c. unat (limit c)" guarded_span tracked_span
proof (unfold_locales, goal_cases)
  case (1 c log t a)
  then show ?case by (blast intro: velocity_insert_total)
next
  case (2 c log t a c' b)
  then have wf: "wf_velocity c" by (simp add: logs_to_def)
  from velocity_insert_frame [OF wf 2(3)] velocity_insert_logs [OF 2] wf show ?case
    by (simp add: guarded_span_def tracked_span_def unat_start_advance wf_velocity_def)
next
  case (3 c log t a c' b)
  then have "0 < interval_secs c" "0 < length (buckets c)"
    by (auto simp: logs_to_def wf_velocity_def unat_eq_zero zero_less_iff_neq_zero)
  then have "recent log (guarded_span c) (unat t) \<le> total_where (\<lambda>t'. unat t div interval_secs c
             < t' div interval_secs c + length (buckets c)) log"
    unfolding recent_def guarded_span_def
    by (intro total_where_mono) (rule guarded_recent_bucket)
  with velocity_insert_decides [OF 3(1,2,3)] 3(4) show ?case by linarith
next
  case (4 c log t a c' b)
  then have "0 < interval_secs c"
    by (auto simp: logs_to_def wf_velocity_def unat_eq_zero zero_less_iff_neq_zero)
  then have "total_where (\<lambda>t'. unat t div interval_secs c
             < t' div interval_secs c + length (buckets c)) log \<le> recent log (tracked_span c) (unat t)"
    unfolding recent_def tracked_span_def
    by (intro total_where_mono) (rule tracked_recent_bucket)
  with velocity_insert_decides [OF 4(1,2,3)] 4(4) show ?case by linarith
qed

lemma velocity_new_logs_to:
  "\<lbrakk>velocity_new spec = Ok c; limit c \<noteq> U64_MAX\<rbrakk> \<Longrightarrow> logs_to c []"
  by (auto simp: velocity_new_def new_with_intervals_def spec_to_triple_def logs_to_def
      wf_velocity_def result_simps split: VelocityControlIntervalType.splits)

lemma velocity_insert_spec_matches:
  "\<lbrakk>spec_matches c spec; velocity_insert c t a = Ok (c', b)\<rbrakk> \<Longrightarrow> spec_matches c' spec"
  by (auto simp: spec_matches_def velocity_insert_def Let_def split: if_splits list.splits prod.splits
      dest: arg_cong [where f = length])

section \<open>Properties of the control\<close>



text \<open>
  The answer of an insertion after any such history is exact up to one bucket: a
  payment is accepted only when it fits in the limit together with everything accepted in
  the last \<open>guarded_span\<close> seconds, and refused only when it exceeds the limit together with
  what was accepted in the last \<open>tracked_span\<close> seconds.
\<close>

theorem velocity_insert_exact:
  assumes "velocity_new spec = Ok c" "\<not> is_unlimited c" "ordered_from 0 (evs @ [(t, a)])"
    and "insert_all velocity_insert c evs [] = Ok (c', log)"
    and "velocity_insert c' t a = Ok (c'', b)"
  shows "if b then recent log (guarded_span c) (unat t) + unat a \<le> unat (limit c)
         else unat (limit c) < recent log (tracked_span c) (unat t) + unat a"
proof -
  have "logs_to c []" and "start_sec c = 0"
    using assms(1,2) velocity_new_logs_to [of spec c]
    by (auto simp: is_unlimited_def velocity_new_def new_with_intervals_def result_simps
        split: prod.splits)
  from vel.insert_all_represents [OF this(1) _ assms(3,4)] this(2)
  have "logs_to c' log" "unat (start_sec c') \<le> unat t"
    "unat (limit c') = unat (limit c)" "guarded_span c' = guarded_span c"
    "tracked_span c' = tracked_span c"
    by auto
  with vel.insert_accepts [OF _ _ assms(5), of log] vel.insert_refuses [OF _ _ assms(5), of log]
  show ?thesis by auto
qed

theorem velocity_insert_exact_witness:
  "\<exists>c' log c'' b. insert_all velocity_insert
       \<lparr>start_sec = 0, bucket_interval = 300, buckets = replicate 12 0, limit = 1000\<rparr>
       [(600, 700)] [] = (Ok (c', log) :: (_, unit) result)
     \<and> velocity_insert c' 1000 400 = (Ok (c'', b) :: (_, unit) result)
     \<and> (if b then recent log 3300 1000 + 400 \<le> 1000 else 1000 < recent log 3600 1000 + 400)"
proof -
  let ?c = "\<lparr>start_sec = 0, bucket_interval = 300, buckets = replicate 12 0, limit = 1000\<rparr>"
  let ?c1 = "\<lparr>start_sec = 600, bucket_interval = 300, buckets = 700 # replicate 11 0, limit = 1000\<rparr>"
  let ?c2 = "\<lparr>start_sec = 900, bucket_interval = 300, buckets = 0 # 700 # replicate 10 0,
    limit = 1000\<rparr>"
  have run: "insert_all velocity_insert ?c [(600, 700)] [] = (Ok (?c1, [(600, 700)]) :: (_, unit) result)"
    "velocity_insert ?c1 1000 400 = (Ok (?c2, False) :: (_, unit) result)"
    by code_simp+
  have "(velocity_new \<lparr>limit_msat = 1000, interval_type = Hourly\<rparr> :: (_, unit) result) = Ok ?c"
    by code_simp
  from velocity_insert_exact [OF this _ _ run] have "1000 < recent [(600, 700)] 3600 1000 + 400"
    by (simp add: is_unlimited_def tracked_span_def)
  with run show ?thesis by (intro exI conjI) (assumption | simp)+
qed

text \<open>
  The persisted state is complete: after any insertion, reloading the control from its
  spec and \<open>get_state\<close> gives back the same control.
\<close>

theorem velocity_state_roundtrip:
  assumes "spec_matches c spec" "velocity_insert c t a = Ok (c', b)"
  shows "load_from_state spec (get_state c') = Ok c'"
  using velocity_insert_spec_matches [OF assms]
  by (auto simp: load_from_state_def with_state_def get_state_def velocity_new_def
      new_with_intervals_def spec_matches_def spec_to_triple_def Let_def assert_that_def
      split: VelocityControlIntervalType.splits)

theorem velocity_state_roundtrip_witness:
  "load_from_state \<lparr>limit_msat = 1000, interval_type = Hourly\<rparr>
     (get_state \<lparr>start_sec = 900, bucket_interval = 300, buckets = 0 # 700 # replicate 10 0,
        limit = 1000\<rparr>)
   = (Ok \<lparr>start_sec = 900, bucket_interval = 300, buckets = 0 # 700 # replicate 10 0,
        limit = 1000\<rparr> :: (_, unit) result)"
proof -
  let ?c = "\<lparr>start_sec = 600, bucket_interval = 300, buckets = 700 # replicate 11 0, limit = 1000\<rparr>"
  let ?c' = "\<lparr>start_sec = 900, bucket_interval = 300, buckets = 0 # 700 # replicate 10 0,
    limit = 1000\<rparr>"
  have "spec_matches ?c \<lparr>limit_msat = 1000, interval_type = Hourly\<rparr>"
    and "velocity_insert ?c 1000 400 = (Ok (?c', False) :: (_, unit) result)"
    by code_simp+
  then show ?thesis by (rule velocity_state_roundtrip)
qed

text \<open>The documentation of \<open>velocity\<close> promises zero for an unlimited control; it sums.\<close>

lemma velocity_of_unlimited_not_zero:
  "case (velocity_new UNLIMITED :: (_, unit) result) of
     Ok c \<Rightarrow> (case (velocity_insert c 0 5 :: (_, unit) result) of
               Ok (c', b) \<Rightarrow> is_unlimited c' \<and> b \<and> velocity c' = 5
             | _ \<Rightarrow> False)
   | _ \<Rightarrow> False"
  by code_simp

end
