(* ===== verification/Policy.thy ===== *)
theory Policy
  imports Velocity "HOL-Library.Sublist"
begin

text \<open>
  Policy errors, the policy filter and the two policies of \<^verbatim>\<open>vls-core/src/policy\<close>
  (\<^verbatim>\<open>error.rs\<close>, \<^verbatim>\<open>filter.rs\<close>, \<^verbatim>\<open>mod.rs\<close>, and the policy structs of
  \<^verbatim>\<open>simple_validator.rs\<close> and \<^verbatim>\<open>onchain_validator.rs\<close>). An error keeps its tag and its kind; the
  text of the message is dropped, since no decision of the program reads it. Every
  \<^verbatim>\<open>policy_err!\<close> goes through the filter, which may demote it to a warning, so tags are
  real strings.
\<close>

section \<open>Validation errors\<close>

datatype ValidationErrorKind =
    TransactionFormat
  | ScriptFormat
  | Mismatch
  | PolicyViolation
  | TemporaryPolicy
  | UnknownDestinations "nat list"

record ValidationError =
  ve_tag :: string
  ve_kind :: ValidationErrorKind

type_synonym 'a checked = "('a, ValidationError) result"

definition transaction_format_error :: ValidationError where
  "transaction_format_error = \<lparr>ve_tag = ''policy-commitment-scripts'', ve_kind = TransactionFormat\<rparr>"

definition script_format_error :: ValidationError where
  "script_format_error = \<lparr>ve_tag = ''policy-commitment-scripts'', ve_kind = ScriptFormat\<rparr>"

definition mismatch_error :: ValidationError where
  "mismatch_error = \<lparr>ve_tag = ''policy-commitment-scripts'', ve_kind = Mismatch\<rparr>"

definition policy_error :: "string \<Rightarrow> ValidationError" where
  "policy_error tag = \<lparr>ve_tag = tag, ve_kind = PolicyViolation\<rparr>"

definition temporary_policy_error :: "string \<Rightarrow> ValidationError" where
  "temporary_policy_error tag = \<lparr>ve_tag = tag, ve_kind = TemporaryPolicy\<rparr>"

definition unknown_destinations_error :: "nat list \<Rightarrow> ValidationError" where
  "unknown_destinations_error unknowns =
     \<lparr>ve_tag = ''policy-onchain-no-unknown-outputs'', ve_kind = UnknownDestinations unknowns\<rparr>"

section \<open>The filter\<close>

datatype FilterResult = Error | Warn

record FilterRule =
  rule_tag :: string
  is_prefix :: bool
  rule_action :: FilterResult

record PolicyFilter =
  rules :: "FilterRule list"

definition new_warn :: "string \<Rightarrow> FilterRule" where
  "new_warn tag = \<lparr>rule_tag = tag, is_prefix = False, rule_action = Warn\<rparr>"

definition new_error :: "string \<Rightarrow> FilterRule" where
  "new_error tag = \<lparr>rule_tag = tag, is_prefix = False, rule_action = Error\<rparr>"

definition rule_matches :: "FilterRule \<Rightarrow> string \<Rightarrow> bool" where
  "rule_matches rule tag =
     (if is_prefix rule then prefix (rule_tag rule) tag else tag = rule_tag rule)"

fun filter_rules :: "FilterRule list \<Rightarrow> string \<Rightarrow> FilterResult" where
  "filter_rules [] tag = Error"
| "filter_rules (rule # rest) tag =
     (if rule_matches rule tag then rule_action rule else filter_rules rest tag)"

definition filter_action :: "PolicyFilter \<Rightarrow> string \<Rightarrow> FilterResult" where
  "filter_action f tag = filter_rules (rules f) tag"

definition new_permissive :: PolicyFilter where
  "new_permissive = \<lparr>rules = [\<lparr>rule_tag = '''', is_prefix = True, rule_action = Warn\<rparr>]\<rparr>"

definition filter_merge :: "PolicyFilter \<Rightarrow> PolicyFilter \<Rightarrow> PolicyFilter" where
  "filter_merge f other = f\<lparr>rules := rules f @ rules other\<rparr>"

definition filter_default :: PolicyFilter where
  "filter_default = \<lparr>rules = []\<rparr>"

definition policy_error_with_filter :: "string \<Rightarrow> PolicyFilter \<Rightarrow> unit checked" where
  "policy_error_with_filter tag f =
     (if filter_action f tag = Error then Err (policy_error tag) else Ok ())"

definition temporary_policy_error_with_filter :: "string \<Rightarrow> PolicyFilter \<Rightarrow> unit checked" where
  "temporary_policy_error_with_filter tag f =
     (if filter_action f tag = Error then Err (temporary_policy_error tag) else Ok ())"

text \<open>
  The shape every check of the validators has: under a condition, raise through the
  filter. A demoted violation continues with the next statement.
\<close>

definition policy_err_if :: "PolicyFilter \<Rightarrow> bool \<Rightarrow> string \<Rightarrow> unit checked" where
  "policy_err_if f b tag = (if b then policy_error_with_filter tag f else Ok ())"

definition temporary_policy_err_if :: "PolicyFilter \<Rightarrow> bool \<Rightarrow> string \<Rightarrow> unit checked" where
  "temporary_policy_err_if f b tag =
     (if b then temporary_policy_error_with_filter tag f else Ok ())"

section \<open>The policies\<close>

definition DEFAULT_FEE_VELOCITY_CONTROL :: VelocityControlSpec where
  "DEFAULT_FEE_VELOCITY_CONTROL = \<lparr>limit_msat = 1000000000, interval_type = Daily\<rparr>"

definition MAX_CHANNELS :: nat where "MAX_CHANNELS = 1000"
definition MAX_INVOICES :: nat where "MAX_INVOICES = 1000"
definition MAX_ONCHAIN_TX_SIZE :: nat where "MAX_ONCHAIN_TX_SIZE = 32 * 1024"
definition MAX_CLTV_EXPIRY :: u32 where "MAX_CLTV_EXPIRY = 500000000"

datatype Network = Bitcoin | Testnet | Signet | Regtest

record PolicyDevFlags =
  disable_beneficial_balance_checks :: bool

definition DEFAULT_DEV_FLAGS :: PolicyDevFlags where
  "DEFAULT_DEV_FLAGS = \<lparr>disable_beneficial_balance_checks = False\<rparr>"

record SimplePolicy =
  min_delay :: u16
  max_delay :: u16
  max_channel_size_sat :: u64
  epsilon_sat :: u64
  max_htlcs :: nat
  max_htlc_value_sat :: u64
  use_chain_state :: bool
  min_feerate_per_kw :: u32
  max_feerate_per_kw :: u32
  enforce_balance :: bool
  max_routing_fee_msat :: u64
  max_feerate_percentage :: u8
  cltv_delta :: u32
  dev_flags :: "PolicyDevFlags option"
  policy_filter :: PolicyFilter
  global_velocity_control :: VelocityControlSpec
  max_channels :: nat
  max_invoices :: nat
  fee_velocity_control :: VelocityControlSpec

record OnchainPolicy =
  onchain_filter :: PolicyFilter
  min_funding_depth :: u16

definition make_default_simple_policy :: "Network \<Rightarrow> SimplePolicy" where
  "make_default_simple_policy network =
     (if network = Bitcoin then
        \<lparr>min_delay = 144, max_delay = 2016, max_channel_size_sat = 1000000001,
         epsilon_sat = 10000, max_htlcs = 1000, max_htlc_value_sat = 16777216,
         use_chain_state = False, min_feerate_per_kw = 253, max_feerate_per_kw = 25000,
         enforce_balance = False, max_routing_fee_msat = 10000, max_feerate_percentage = 10,
         cltv_delta = 34, dev_flags = None, policy_filter = filter_default,
         global_velocity_control = UNLIMITED, max_channels = MAX_CHANNELS,
         max_invoices = MAX_INVOICES, fee_velocity_control = DEFAULT_FEE_VELOCITY_CONTROL\<rparr>
      else
        \<lparr>min_delay = 4, max_delay = 2016, max_channel_size_sat = 1000000001,
         epsilon_sat = 10000, max_htlcs = 1000, max_htlc_value_sat = 16777216,
         use_chain_state = False, min_feerate_per_kw = 253, max_feerate_per_kw = 333333,
         enforce_balance = False, max_routing_fee_msat = 222000, max_feerate_percentage = 10,
         cltv_delta = 6, dev_flags = None, policy_filter = filter_default,
         global_velocity_control = UNLIMITED, max_channels = MAX_CHANNELS,
         max_invoices = MAX_INVOICES, fee_velocity_control = DEFAULT_FEE_VELOCITY_CONTROL\<rparr>)"

definition make_onchain_policy :: "Network \<Rightarrow> PolicyFilter \<Rightarrow> OnchainPolicy" where
  "make_onchain_policy network f = \<lparr>onchain_filter = f, min_funding_depth = 1\<rparr>"

section \<open>Reading the outcome of a check\<close>

abbreviation enforced :: "PolicyFilter \<Rightarrow> string \<Rightarrow> bool" where
  "enforced f tag \<equiv> filter_action f tag = Error"

named_theorems policy_simps \<open>when a policy check succeeds, fails or panics\<close>

lemma policy_error_with_filter_eq [policy_simps]:
  "policy_error_with_filter tag f = Ok u \<longleftrightarrow> \<not> enforced f tag"
  "policy_error_with_filter tag f = Err e \<longleftrightarrow> enforced f tag \<and> e = policy_error tag"
  "policy_error_with_filter tag f \<noteq> Panic"
  by (auto simp: policy_error_with_filter_def)

lemma temporary_policy_error_with_filter_eq [policy_simps]:
  "temporary_policy_error_with_filter tag f = Ok u \<longleftrightarrow> \<not> enforced f tag"
  "temporary_policy_error_with_filter tag f = Err e \<longleftrightarrow> enforced f tag \<and> e = temporary_policy_error tag"
  "temporary_policy_error_with_filter tag f \<noteq> Panic"
  by (auto simp: temporary_policy_error_with_filter_def)

lemma policy_err_if_eq [policy_simps]:
  "policy_err_if f b tag = Ok u \<longleftrightarrow> (b \<longrightarrow> \<not> enforced f tag)"
  "policy_err_if f b tag = Err e \<longleftrightarrow> b \<and> enforced f tag \<and> e = policy_error tag"
  "policy_err_if f b tag \<noteq> Panic"
  by (auto simp: policy_err_if_def policy_simps)

lemma temporary_policy_err_if_eq [policy_simps]:
  "temporary_policy_err_if f b tag = Ok u \<longleftrightarrow> (b \<longrightarrow> \<not> enforced f tag)"
  "temporary_policy_err_if f b tag = Err e \<longleftrightarrow> b \<and> enforced f tag \<and> e = temporary_policy_error tag"
  "temporary_policy_err_if f b tag \<noteq> Panic"
  by (auto simp: temporary_policy_err_if_def policy_simps)

lemma enforced_default [simp]: "enforced filter_default tag"
  by (simp add: filter_action_def filter_default_def)

lemma not_enforced_permissive [simp]: "\<not> enforced new_permissive tag"
  by (simp add: filter_action_def new_permissive_def rule_matches_def)

lemma filter_rules_append:
  "filter_rules (xs @ ys) tag =
     (if list_ex (\<lambda>r. rule_matches r tag) xs then filter_rules xs tag else filter_rules ys tag)"
  by (induction xs) auto

section \<open>Properties of the filter\<close>

text \<open>
  After merging, a tag that some rule of the first filter matches is decided by the
  first filter, and any other tag by the second: rules already present take precedence.
\<close>

theorem filter_merge_precedence:
  "filter_action (filter_merge f other) tag =
     (if list_ex (\<lambda>r. rule_matches r tag) (rules f) then filter_action f tag
      else filter_action other tag)"
  by (simp add: filter_action_def filter_merge_def filter_rules_append)

end
