(* ===== verification/TxInfo.thy ===== *)
theory TxInfo
  imports Policy "HOL-Library.Multiset" "HOL-Library.Product_Lexorder"
begin

unbundle bit_operations_syntax

text \<open>
  Transactions, channel parameters and commitment descriptions:
  \<^verbatim>\<open>vls-core/src/tx/tx.rs\<close> (\<^verbatim>\<open>HTLCInfo2\<close>, \<^verbatim>\<open>CommitmentInfo2\<close>),
  \<^verbatim>\<open>vls-core/src/util/mod.rs\<close> (\<^verbatim>\<open>AddedItemsIter\<close>),
  \<^verbatim>\<open>vls-core/src/util/transaction_utils.rs\<close> (weights, fee rates, the commitment number hidden in
  a transaction) and the channel parameters of \<^verbatim>\<open>vls-core/src/channel.rs\<close>. The transaction
  types are those of the bitcoin library with the fields the signer reads; the functions
  of that library and of the lightning library are parameters where they are used.
\<close>

section \<open>Transactions\<close>

record TxIn =
  previous_output :: OutPoint
  tx_sequence :: u32

record TxOut =
  txout_value :: u64
  script_pubkey :: Script

record Transaction =
  tx_version :: u32
  lock_time :: u32
  tx_input :: "TxIn list"
  tx_output :: "TxOut list"

section \<open>Channel parameters\<close>

datatype CommitmentType = Legacy | StaticRemoteKey | Anchors | AnchorsZeroFeeHtlc

record ChannelPublicKeys =
  funding_pubkey :: PublicKey
  revocation_basepoint :: PublicKey
  payment_point :: PublicKey
  delayed_payment_basepoint :: PublicKey
  htlc_basepoint :: PublicKey

record ChannelSetup =
  is_outbound :: bool
  channel_value_sat :: u64
  push_value_msat :: u64
  funding_outpoint :: OutPoint
  holder_selected_contest_delay :: u16
  holder_shutdown_script :: "Script option"
  counterparty_points :: ChannelPublicKeys
  counterparty_selected_contest_delay :: u16
  counterparty_shutdown_script :: "Script option"
  commitment_type :: CommitmentType

definition is_static_remotekey :: "ChannelSetup \<Rightarrow> bool" where
  "is_static_remotekey setup \<longleftrightarrow> commitment_type setup \<noteq> Legacy"

definition is_anchors :: "ChannelSetup \<Rightarrow> bool" where
  "is_anchors setup \<longleftrightarrow>
     commitment_type setup = Anchors \<or> commitment_type setup = AnchorsZeroFeeHtlc"

definition is_zero_fee_htlc :: "ChannelSetup \<Rightarrow> bool" where
  "is_zero_fee_htlc setup \<longleftrightarrow> commitment_type setup = AnchorsZeroFeeHtlc"

record ChannelTypeFeatures =
  static_remote_key_required :: bool
  anchors_zero_fee_htlc_tx_optional :: bool
  anchors_nonzero_fee_htlc_tx_optional :: bool

definition features :: "ChannelSetup \<Rightarrow> ChannelTypeFeatures" where
  "features setup =
     (let fs = \<lparr>static_remote_key_required = True, anchors_zero_fee_htlc_tx_optional = False,
                anchors_nonzero_fee_htlc_tx_optional = False\<rparr>
      in if is_anchors setup then
           if is_zero_fee_htlc setup then fs\<lparr>anchors_zero_fee_htlc_tx_optional := True\<rparr>
           else fs\<lparr>anchors_nonzero_fee_htlc_tx_optional := True\<rparr>
         else fs)"

section \<open>HTLCs and their order\<close>

datatype HTLCInfo2 =
  HTLCInfo2 (value_sat: u64) (payment_hash: PaymentHash) (cltv_expiry: u32)

text \<open>The order of the source: amounts first, then hashes, then expiries.\<close>

definition htlc_info2_key :: "HTLCInfo2 \<Rightarrow> u64 \<times> PaymentHash \<times> u32" where
  "htlc_info2_key a = (value_sat a, payment_hash a, cltv_expiry a)"

instantiation HTLCInfo2 :: linorder
begin

definition less_eq_HTLCInfo2 :: "HTLCInfo2 \<Rightarrow> HTLCInfo2 \<Rightarrow> bool" where
  "less_eq_HTLCInfo2 a b \<longleftrightarrow> htlc_info2_key a \<le> htlc_info2_key b"

definition less_HTLCInfo2 :: "HTLCInfo2 \<Rightarrow> HTLCInfo2 \<Rightarrow> bool" where
  "less_HTLCInfo2 a b \<longleftrightarrow> htlc_info2_key a < htlc_info2_key b"

instance
proof
  fix a b c :: HTLCInfo2
  show "(a < b) = (a \<le> b \<and> \<not> b \<le> a)"
    unfolding less_eq_HTLCInfo2_def less_HTLCInfo2_def by (rule less_le_not_le)
  show "a \<le> a" by (simp add: less_eq_HTLCInfo2_def)
  show "a \<le> b \<Longrightarrow> b \<le> c \<Longrightarrow> a \<le> c"
    unfolding less_eq_HTLCInfo2_def by (rule order_trans)
  show "a \<le> b \<Longrightarrow> b \<le> a \<Longrightarrow> a = b"
    unfolding less_eq_HTLCInfo2_def by (drule (1) order_antisym) (auto simp: htlc_info2_key_def intro: HTLCInfo2.expand)
  show "a \<le> b \<or> b \<le> a"
    unfolding less_eq_HTLCInfo2_def by (rule linear)
qed

end

section \<open>The difference of two sorted lists\<close>

text \<open>
  \<^verbatim>\<open>AddedItemsIter::next\<close> on what is left of the two lists, and the loop that drains the
  iterator.
\<close>

fun added_next :: "'a::linorder list \<times> 'a list \<Rightarrow> ('a \<times> 'a list \<times> 'a list) option" where
  "added_next ([], []) = None"
| "added_next ([], t # ts) = Some (t, [], ts)"
| "added_next (f # fs, []) = None"
| "added_next (f # fs, t # ts) =
     (if f < t then added_next (fs, t # ts)
      else if f = t then added_next (fs, ts)
      else Some (t, f # fs, ts))"

lemma added_next_shrinks:
  "added_next st = Some (x, fs, ts) \<Longrightarrow> length ts < length (snd st)"
  by (induction st rule: added_next.induct) (auto split: if_splits)

function added_items :: "'a::linorder list \<Rightarrow> 'a list \<Rightarrow> 'a list" where
  "added_items fs ts =
     (case added_next (fs, ts) of
        None \<Rightarrow> []
      | Some (x, fs', ts') \<Rightarrow> x # added_items fs' ts')"
  by pat_completeness auto

termination
  by (relation "measure (length \<circ> snd)") (auto dest: added_next_shrinks)

declare added_items.simps [simp del]

lemma added_items_simps [simp]:
  "added_items [] ts = ts"
  "added_items (f # fs) [] = []"
  "added_items (f # fs) (t # ts) =
     (if f < t then added_items fs (t # ts)
      else if f = t then added_items fs ts
      else t # added_items (f # fs) ts)"
proof -
  show "added_items [] ts = ts" for ts :: "'a list"
    by (induction ts) (simp_all add: added_items.simps [of "[]"])
  show "added_items (f # fs) [] = []"
    by (simp add: added_items.simps [of "f # fs"])
  show "added_items (f # fs) (t # ts) =
     (if f < t then added_items fs (t # ts)
      else if f = t then added_items fs ts
      else t # added_items (f # fs) ts)"
    by (simp add: added_items.simps [of "f # fs" "t # ts"] added_items.simps [of fs "t # ts"]
        added_items.simps [of fs ts])
qed

lemma mset_added_items:
  "sorted from \<Longrightarrow> sorted to \<Longrightarrow> mset (added_items from to) = mset to - mset from"
proof (induction "length from + length to" arbitrary: "from" to rule: less_induct)
  case less
  show ?case
  proof (cases "from")
    case (Cons f fs)
    show ?thesis
    proof (cases to)
      case Nil
      with Cons show ?thesis by simp
    next
      case (Cons t ts)
      note cons = \<open>from = f # fs\<close> Cons
      consider "f < t" | "f = t" | "t < f" by (rule linorder_cases)
      then show ?thesis
      proof cases
        case 1
        then have "f \<notin> set (t # ts)" using less.prems cons by auto
        then have "f \<notin># mset (t # ts)" by simp
        then have "mset (t # ts) - mset (f # fs) = mset (t # ts) - mset fs"
          by (simp only: mset.simps(2) [of f fs] minus_add_mset_if_not_in_lhs not_False_eq_True)
        with 1 cons less show ?thesis by simp
      next
        case 2
        with cons less show ?thesis by simp
      next
        case 3
        then have "t \<notin> set (f # fs)" using less.prems cons by auto
        then have "t \<notin># mset (f # fs)" by simp
        then have "mset (t # ts) - mset (f # fs) = add_mset t (mset ts - mset (f # fs))"
          by (simp only: mset.simps(2) [of t ts] diff_add_mset_swap not_False_eq_True)
        with 3 cons less show ?thesis by simp
      qed
    qed
  qed simp
qed

section \<open>Commitment descriptions\<close>

record CommitmentInfo2 =
  is_counterparty_broadcaster :: bool
  to_countersigner_value_sat :: u64
  to_broadcaster_value_sat :: u64
  offered_htlcs :: "HTLCInfo2 list"
  received_htlcs :: "HTLCInfo2 list"
  feerate_per_kw :: u32

definition commitment_info2_new ::
  "bool \<Rightarrow> u64 \<Rightarrow> u64 \<Rightarrow> HTLCInfo2 list \<Rightarrow> HTLCInfo2 list \<Rightarrow> u32 \<Rightarrow> CommitmentInfo2" where
  "commitment_info2_new cp to_cs to_b offered received feerate =
     \<lparr>is_counterparty_broadcaster = cp, to_countersigner_value_sat = to_cs,
      to_broadcaster_value_sat = to_b, offered_htlcs = sort offered,
      received_htlcs = sort received, feerate_per_kw = feerate\<rparr>"

definition htlcs_is_empty :: "CommitmentInfo2 \<Rightarrow> bool" where
  "htlcs_is_empty info \<longleftrightarrow> offered_htlcs info = [] \<and> received_htlcs info = []"

definition delta_offered_htlcs ::
  "CommitmentInfo2 \<Rightarrow> CommitmentInfo2 \<Rightarrow> HTLCInfo2 list \<times> HTLCInfo2 list" where
  "delta_offered_htlcs info new =
     (added_items (offered_htlcs info) (offered_htlcs new),
      added_items (offered_htlcs new) (offered_htlcs info))"

definition delta_received_htlcs ::
  "CommitmentInfo2 \<Rightarrow> CommitmentInfo2 \<Rightarrow> HTLCInfo2 list \<times> HTLCInfo2 list" where
  "delta_received_htlcs info new =
     (added_items (received_htlcs info) (received_htlcs new),
      added_items (received_htlcs new) (received_htlcs info))"

definition value_to_parties :: "CommitmentInfo2 \<Rightarrow> u64 \<times> u64" where
  "value_to_parties info =
     (if is_counterparty_broadcaster info
      then (to_countersigner_value_sat info, to_broadcaster_value_sat info)
      else (to_broadcaster_value_sat info, to_countersigner_value_sat info))"

text \<open>The sums of \<open>total_value\<close> are plain additions and wrap.\<close>

definition total_value :: "CommitmentInfo2 \<Rightarrow> u64" where
  "total_value info =
     to_broadcaster_value_sat info + to_countersigner_value_sat info
     + sum_list (map value_sat (offered_htlcs info))
     + sum_list (map value_sat (received_htlcs info))"

text \<open>The HTLCs the holder offers and receives, whoever broadcasts.\<close>

definition holder_htlcs :: "CommitmentInfo2 \<Rightarrow> HTLCInfo2 list \<times> HTLCInfo2 list" where
  "holder_htlcs info =
     (if is_counterparty_broadcaster info then (received_htlcs info, offered_htlcs info)
      else (offered_htlcs info, received_htlcs info))"

fun add_claimable :: "(HTLCInfo2 \<Rightarrow> bool) \<Rightarrow> HTLCInfo2 list \<Rightarrow> u64 \<Rightarrow> u64 option" where
  "add_claimable p [] balance = Some balance"
| "add_claimable p (h # hs) balance =
     (if p h then Option.bind (checked_add balance (value_sat h)) (add_claimable p hs)
      else add_claimable p hs balance)"

definition claimable_balance ::
  "CommitmentInfo2 \<Rightarrow> (PaymentHash \<Rightarrow> bool) \<Rightarrow> bool \<Rightarrow> u64 \<Rightarrow> u64 option" where
  "claimable_balance info has_preimage outbound channel_value =
     (let balance = fst (value_to_parties info);
          (offered, received) = holder_htlcs info
      in Option.bind
           (if outbound then
              Option.bind (checked_sub channel_value (total_value info)) (checked_add balance)
            else Some balance)
           (\<lambda>balance. Option.bind
              (add_claimable (\<lambda>h. \<not> has_preimage (payment_hash h)) offered balance)
              (add_claimable (\<lambda>h. has_preimage (payment_hash h)) received)))"

definition htlc_balance :: "CommitmentInfo2 \<Rightarrow> (u64 \<times> u64 \<times> u32 \<times> u32, 'e) result" where
  "htlc_balance info =
     (let (offered, received) = holder_htlcs info in
      and_then (expect (add_claimable (\<lambda>_. True) offered 0)) (\<lambda>sum_offered.
      and_then (expect (add_claimable (\<lambda>_. True) received 0)) (\<lambda>sum_received.
      Ok (sum_received, sum_offered, of_nat (length received), of_nat (length offered)))))"

section \<open>Weights and fee rates\<close>

definition MAX_VALUE_MSAT :: u64 where "MAX_VALUE_MSAT = 2100000000000000000"
definition MIN_DUST_LIMIT_SATOSHIS :: u64 where "MIN_DUST_LIMIT_SATOSHIS = 330"
definition MIN_CHAN_DUST_LIMIT_SATOSHIS :: u64 where "MIN_CHAN_DUST_LIMIT_SATOSHIS = 354"

definition expected_commitment_tx_weight :: "bool \<Rightarrow> nat \<Rightarrow> nat" where
  "expected_commitment_tx_weight opt_anchors num_untrimmed_htlc =
     (if opt_anchors then 1124 else 724) + num_untrimmed_htlc * 172"

definition mutual_close_tx_weight :: "(Transaction \<Rightarrow> nat) \<Rightarrow> Transaction \<Rightarrow> nat" where
  "mutual_close_tx_weight weight unsigned_tx =
     weight unsigned_tx + (2 + 1 + 4 + 72 + 72 + 1 + 1 + 33 + 1 + 33 + 1 + 1)"

definition estimated_sweep_tx_weight :: "(Transaction \<Rightarrow> nat) \<Rightarrow> Transaction \<Rightarrow> nat" where
  "estimated_sweep_tx_weight weight unsigned_tx = weight unsigned_tx + 220"

text \<open>The product and the sum wrap, and the cast to 32 bits truncates.\<close>

definition estimate_feerate_per_kw :: "u64 \<Rightarrow> u64 \<Rightarrow> (u32, 'e) result" where
  "estimate_feerate_per_kw total_fee weight =
     (if weight = 0 then Panic else Ok (ucast ((total_fee * 1000 + 999) div weight)))"

definition is_tx_non_malleable :: "Transaction \<Rightarrow> bool list \<Rightarrow> (bool, 'e) result" where
  "is_tx_non_malleable tx segwit_flags =
     and_then (assert_that (length (tx_input tx) = length segwit_flags)) (\<lambda>_.
       Ok (list_all (\<lambda>flag. flag) segwit_flags))"

section \<open>Recognising commitment transactions\<close>

record TxCreationKeys =
  tk_per_commitment_point :: PublicKey
  revocation_key :: PublicKey
  broadcaster_htlc_key :: PublicKey
  countersignatory_htlc_key :: PublicKey
  broadcaster_delayed_payment_key :: PublicKey

record CounterpartyParameters =
  cp_pubkeys :: ChannelPublicKeys
  selected_contest_delay :: u16

record ChannelTransactionParameters =
  holder_pubkeys :: ChannelPublicKeys
  params_holder_selected_contest_delay :: u16
  is_outbound_from_holder :: bool
  counterparty_parameters :: "CounterpartyParameters option"
  params_funding_outpoint :: "OutPoint option"
  channel_type_features :: ChannelTypeFeatures
  channel_value_satoshis :: u64

text \<open>The script and key functions of the bitcoin and lightning libraries.\<close>

record Ldk =
  derive_new :: "PublicKey \<Rightarrow> PublicKey \<Rightarrow> PublicKey \<Rightarrow> PublicKey \<Rightarrow> PublicKey \<Rightarrow> TxCreationKeys"
  get_revokeable_redeemscript :: "PublicKey \<Rightarrow> u16 \<Rightarrow> PublicKey \<Rightarrow> Script"
  get_to_countersigner_keyed_anchor_redeemscript :: "PublicKey \<Rightarrow> Script"
  to_p2wsh :: "Script \<Rightarrow> Script"
  p2wpkh_script :: "PublicKey \<Rightarrow> Script"
  is_p2wsh :: "Script \<Rightarrow> bool"
  get_commitment_transaction_number_obscure_factor :: "PublicKey \<Rightarrow> PublicKey \<Rightarrow> bool \<Rightarrow> u64"

definition ANCHOR_OUTPUT_VALUE_SATOSHI :: u64 where "ANCHOR_OUTPUT_VALUE_SATOSHI = 330"

fun classify_outputs ::
  "(Script \<Rightarrow> bool) \<Rightarrow> Script option \<Rightarrow> Script \<Rightarrow> Script \<Rightarrow> (nat \<times> TxOut) list \<Rightarrow>
   u32 option \<times> u32 list \<Rightarrow> u32 option \<times> u32 list" where
  "classify_outputs p2wsh cp_delayed non_delayed delayed [] acc = acc"
| "classify_outputs p2wsh cp_delayed non_delayed delayed ((idx, output) # rest) (main, htlcs) =
     classify_outputs p2wsh cp_delayed non_delayed delayed rest
       (if txout_value output = ANCHOR_OUTPUT_VALUE_SATOSHI then (main, htlcs)
        else if Some (script_pubkey output) = cp_delayed then (main, htlcs)
        else if script_pubkey output = non_delayed \<or> script_pubkey output = delayed
          then (Some (of_nat idx), htlcs)
        else if p2wsh (script_pubkey output) then (main, htlcs @ [of_nat idx])
        else (main, htlcs))"

definition decode_commitment_tx ::
  "Ldk \<Rightarrow> Transaction \<Rightarrow> PublicKey \<Rightarrow> PublicKey option \<Rightarrow> ChannelTransactionParameters \<Rightarrow>
   (u32 option \<times> u32 list, 'e) result" where
  "decode_commitment_tx ldk tx holder_point cp_point params =
     and_then (expect (counterparty_parameters params)) (\<lambda>cp_params.
     let fs = channel_type_features params;
         opt_anchors = anchors_nonzero_fee_htlc_tx_optional fs \<or> anchors_zero_fee_htlc_tx_optional fs;
         holder = holder_pubkeys params;
         cp = cp_pubkeys cp_params;
         non_delayed =
           (if opt_anchors
            then to_p2wsh ldk (get_to_countersigner_keyed_anchor_redeemscript ldk (payment_point holder))
            else p2wpkh_script ldk (payment_point holder));
         holder_keys = derive_new ldk holder_point (delayed_payment_basepoint holder)
           (htlc_basepoint holder) (revocation_basepoint cp) (htlc_basepoint cp);
         delayed = to_p2wsh ldk (get_revokeable_redeemscript ldk (revocation_key holder_keys)
           (selected_contest_delay cp_params) (broadcaster_delayed_payment_key holder_keys));
         cp_delayed = map_option (\<lambda>point.
           let cp_keys = derive_new ldk point (delayed_payment_basepoint cp) (htlc_basepoint cp)
                 (revocation_basepoint holder) (htlc_basepoint holder)
           in to_p2wsh ldk (get_revokeable_redeemscript ldk (revocation_key cp_keys)
                (params_holder_selected_contest_delay params)
                (broadcaster_delayed_payment_key cp_keys))) cp_point
     in Ok (classify_outputs (is_p2wsh ldk) cp_delayed non_delayed delayed
              (List.enumerate 0 (tx_output tx)) (None, [])))"

definition decode_commitment_number ::
  "Ldk \<Rightarrow> Transaction \<Rightarrow> ChannelTransactionParameters \<Rightarrow> (u64 option, 'e) result" where
  "decode_commitment_number ldk tx params =
     and_then (expect (counterparty_parameters params)) (\<lambda>cp_params.
     let obscure_factor = get_commitment_transaction_number_obscure_factor ldk
           (payment_point (holder_pubkeys params)) (payment_point (cp_pubkeys cp_params))
           (is_outbound_from_holder params)
     in case tx_input tx of
          [inp] \<Rightarrow>
            if (ucast (drop_bit (8 * 3) (tx_sequence inp)) :: u8) \<noteq> 0x80
               \<or> (ucast (drop_bit (8 * 3) (lock_time tx)) :: u8) \<noteq> 0x20
            then Ok None
            else Ok (Some ((push_bit (3 * 8) ((ucast (tx_sequence inp) :: u64) AND 0xffffff)
                            OR ((ucast (lock_time tx) :: u64) AND 0xffffff))
                           XOR obscure_factor))
        | _ \<Rightarrow> Ok None)"

section \<open>Reading balances as natural numbers\<close>

primrec htlc_total :: "HTLCInfo2 list \<Rightarrow> nat" where
  "htlc_total [] = 0"
| "htlc_total (h # hs) = unat (value_sat h) + htlc_total hs"

lemma htlc_total_sum: "htlc_total hs = sum_list (map unat (map value_sat hs))"
  by (induction hs) auto

definition exact_total :: "CommitmentInfo2 \<Rightarrow> nat" where
  "exact_total info =
     unat (to_broadcaster_value_sat info) + unat (to_countersigner_value_sat info)
     + htlc_total (offered_htlcs info) + htlc_total (received_htlcs info)"

text \<open>The same commitment described by the other party.\<close>

definition other_side :: "CommitmentInfo2 \<Rightarrow> CommitmentInfo2" where
  "other_side info = info\<lparr>is_counterparty_broadcaster := \<not> is_counterparty_broadcaster info\<rparr>"

lemma add_claimable_eq_Some:
  "add_claimable p hs b = Some c \<longleftrightarrow> unat c = unat b + htlc_total (filter p hs)"
proof (induction hs arbitrary: b)
  case Nil
  then show ?case by (auto simp: word_unat_eq_iff)
next
  case (Cons h hs)
  show ?case
  proof (cases "p h")
    case True
    show ?thesis
    proof (cases "checked_add b (value_sat h)")
      case None
      then have "2 ^ 64 \<le> unat b + unat (value_sat h)" by (simp add: checked_add_eq_None)
      with True None unat_lt2p [of c] show ?thesis by simp
    next
      case (Some d)
      then have "unat d = unat b + unat (value_sat h)" by (simp only: checked_add_eq_Some)
      with True Some Cons.IH show ?thesis by (simp add: add.assoc)
    qed
  next
    case False
    with Cons show ?thesis by simp
  qed
qed

lemma htlc_total_filter_split:
  "htlc_total (filter p hs) + htlc_total (filter (\<lambda>h. \<not> p h) hs) = htlc_total hs"
  by (induction hs) auto

lemma unat_total_value:
  assumes "exact_total info < 2 ^ 64"
  shows "unat (total_value info) = exact_total info"
proof -
  define ws where "ws = to_broadcaster_value_sat info # to_countersigner_value_sat info
    # map value_sat (offered_htlcs info) @ map value_sat (received_htlcs info)"
  have "sum_list (map unat ws) = exact_total info"
    by (simp add: ws_def exact_total_def htlc_total_sum)
  moreover have "sum_list ws = total_value info"
    by (simp add: ws_def total_value_def add.assoc)
  ultimately show ?thesis
    using assms unat_sum_list_no_wrap [of ws] by simp
qed

lemma claimable_balance_eq_Some:
  assumes "exact_total info \<le> unat v"
  shows "claimable_balance info pm outb v = Some c \<longleftrightarrow>
    unat c = unat (fst (value_to_parties info)) + (if outb then unat v - exact_total info else 0)
      + htlc_total (filter (\<lambda>h. \<not> pm (payment_hash h)) (fst (holder_htlcs info)))
      + htlc_total (filter (\<lambda>h. pm (payment_hash h)) (snd (holder_htlcs info)))"
    (is "_ \<longleftrightarrow> unat c = ?to + ?fee + ?off + ?rec")
proof -
  have tv: "unat (total_value info) = exact_total info"
    using assms unat_lt2p [of v] by (intro unat_total_value) simp
  define st where "st = (if outb then
      Option.bind (checked_sub v (total_value info)) (checked_add (fst (value_to_parties info)))
    else Some (fst (value_to_parties info)))"
  have st: "st = Some d \<longleftrightarrow> unat d = ?to + ?fee" for d
    using assms tv by (auto simp: st_def bind_eq_Some_conv arith_simps word_unat_eq_iff
        checked_sub_def word_le_nat_alt unat_sub)
  have "claimable_balance info pm outb v = Some c \<longleftrightarrow>
      (\<exists>d :: u64. unat d = ?to + ?fee \<and> (\<exists>e :: u64. unat e = unat d + ?off \<and> unat c = unat e + ?rec))"
    unfolding claimable_balance_def Let_def split_beta st_def [symmetric] bind_eq_Some_conv
      add_claimable_eq_Some st ..
  also have "\<dots> \<longleftrightarrow> unat c = ?to + ?fee + ?off + ?rec"
  proof
    assume c: "unat c = ?to + ?fee + ?off + ?rec"
    with unat_lt2p [of c] obtain d e :: u64 where "unat d = ?to + ?fee" "unat e = ?to + ?fee + ?off"
      using ex_unat [where 'w = 64, of "?to + ?fee"] ex_unat [where 'w = 64, of "?to + ?fee + ?off"]
      by auto
    with c show "\<exists>d :: u64. unat d = ?to + ?fee \<and>
        (\<exists>e :: u64. unat e = unat d + ?off \<and> unat c = unat e + ?rec)"
      by (intro exI [of _ d] exI [of _ e] conjI) simp_all
  qed auto
  finally show ?thesis .
qed

lemma ex_claimable_balance:
  assumes "exact_total info \<le> unat v"
  shows "\<exists>c. claimable_balance info pm outb v = Some c"
proof -
  let ?n = "unat (fst (value_to_parties info)) + (if outb then unat v - exact_total info else 0)
      + htlc_total (filter (\<lambda>h. \<not> pm (payment_hash h)) (fst (holder_htlcs info)))
      + htlc_total (filter (\<lambda>h. pm (payment_hash h)) (snd (holder_htlcs info)))"
  have "unat (fst (value_to_parties info)) + htlc_total (fst (holder_htlcs info))
      + htlc_total (snd (holder_htlcs info)) \<le> exact_total info"
    by (simp add: value_to_parties_def holder_htlcs_def exact_total_def)
  then have "?n \<le> unat v"
    using assms htlc_total_filter_split [of "\<lambda>h. pm (payment_hash h)" "fst (holder_htlcs info)"]
      htlc_total_filter_split [of "\<lambda>h. pm (payment_hash h)" "snd (holder_htlcs info)"]
    by auto
  then have "?n < 2 ^ LENGTH(64)" using unat_lt2p [of v] by simp
  then obtain c :: u64 where "unat c = ?n" using ex_unat by blast
  with claimable_balance_eq_Some [OF assms] show ?thesis by blast
qed

section \<open>The hidden commitment number\<close>

lemma bit_take_bit_selfD: "take_bit n x = x \<Longrightarrow> bit x i \<Longrightarrow> i < n" for x :: "'a::len word"
  by (metis bit_take_bit_iff)

lemma join_sequence_locktime:
  fixes obs :: u64 and s l :: u32
  assumes "take_bit 48 obs = obs" "take_bit 24 s = 0" "take_bit 24 l = 0"
  shows "push_bit 24 ((ucast (s OR ucast (drop_bit 24 obs)) :: u64) AND mask 24)
    OR ((ucast (l OR ucast (take_bit 24 obs)) :: u64) AND mask 24) = obs"
proof (rule bit_word_eqI)
  fix i assume "i < LENGTH(64)"
  have low: "\<not> bit s j" "\<not> bit l j" if "j < 24" for j
    using that assms(2,3) [THEN arg_cong, of "\<lambda>w. bit w j"] by (auto simp: bit_simps)
  show "bit (push_bit 24 ((ucast (s OR ucast (drop_bit 24 obs)) :: u64) AND mask 24)
    OR ((ucast (l OR ucast (take_bit 24 obs)) :: u64) AND mask 24)) i = bit obs i"
    using low bit_take_bit_selfD [OF assms(1), of i]
    by (cases "i < 24") (auto simp: bit_simps)
qed

lemma top_byte_or:
  fixes x s :: u32 
  assumes "take_bit 24 x = x" 
  shows "(ucast (drop_bit 24 (s OR x)) :: u8) = ucast (drop_bit 24 s)"
proof (rule bit_word_eqI)
  fix i assume "i < LENGTH(8)"
  then show "bit (ucast (drop_bit 24 (s OR x)) :: u8) i = bit (ucast (drop_bit 24 s) :: u8) i"
    using bit_take_bit_selfD [OF assms, of "24 + i"] by (auto simp: bit_simps)
qed

section \<open>Properties of commitment descriptions\<close>

text \<open>
  The deltas between two normalised commitments are exact, with repetitions: the
  added HTLCs are those of the new one less those of the old one, and the removed HTLCs
  the other way round.
\<close>

theorem delta_htlcs_exact:
  "let old = commitment_info2_new cp a b off received f;
       new = commitment_info2_new cp' a' b' off' received' f'
   in map_prod mset mset (delta_offered_htlcs old new) = (mset off' - mset off, mset off - mset off')
      \<and> map_prod mset mset (delta_received_htlcs old new)
          = (mset received' - mset received, mset received - mset received')"
  by (simp add: delta_offered_htlcs_def delta_received_htlcs_def
      commitment_info2_new_def mset_added_items)

text \<open>
  C27: No value is created or lost by the accounting of claimable balances: for a
  commitment whose outputs fit the channel value, what the holder can claim and what the
  counterparty can claim, under the same set of revealed preimages, both exist and add up
  to the channel value, when the fee is counted to the funder.
\<close>

theorem claimable_balance_conservation:
  assumes "exact_total info \<le> unat channel_value"
  shows "\<exists>a b. claimable_balance info has_preimage outbound channel_value = Some a
           \<and> claimable_balance (other_side info) has_preimage (\<not> outbound) channel_value = Some b
           \<and> unat a + unat b = unat channel_value"
proof -
  have other: "exact_total (other_side info) \<le> unat channel_value"
    using assms by (simp add: other_side_def exact_total_def)
  obtain a b where ab: "claimable_balance info has_preimage outbound channel_value = Some a"
    "claimable_balance (other_side info) has_preimage (\<not> outbound) channel_value = Some b"
    using ex_claimable_balance [OF assms] ex_claimable_balance [OF other] by blast
  have "unat a + unat b = unat channel_value"
    using ab(1) [unfolded claimable_balance_eq_Some [OF assms]]
      ab(2) [unfolded claimable_balance_eq_Some [OF other]] assms
      htlc_total_filter_split [of "\<lambda>h. has_preimage (payment_hash h)" "offered_htlcs info"]
      htlc_total_filter_split [of "\<lambda>h. has_preimage (payment_hash h)" "received_htlcs info"]
    by (cases outbound; cases "is_counterparty_broadcaster info")
      (simp_all add: other_side_def value_to_parties_def holder_htlcs_def exact_total_def)
  with ab show ?thesis by blast
qed

theorem claimable_balance_conservation_witness:
  "\<exists>a b. claimable_balance
       \<lparr>is_counterparty_broadcaster = True, to_countersigner_value_sat = 600,
        to_broadcaster_value_sat = 200, offered_htlcs = [HTLCInfo2 100 7 50],
        received_htlcs = [HTLCInfo2 70 8 60], feerate_per_kw = 253\<rparr>
       (\<lambda>h. h = 7) True 1000 = Some a
     \<and> claimable_balance
       \<lparr>is_counterparty_broadcaster = False, to_countersigner_value_sat = 600,
        to_broadcaster_value_sat = 200, offered_htlcs = [HTLCInfo2 100 7 50],
        received_htlcs = [HTLCInfo2 70 8 60], feerate_per_kw = 253\<rparr>
       (\<lambda>h. h = 7) False 1000 = Some b
     \<and> unat a + unat b = 1000"
  using claimable_balance_conservation [of
      "\<lparr>is_counterparty_broadcaster = True, to_countersigner_value_sat = 600,
        to_broadcaster_value_sat = 200, offered_htlcs = [HTLCInfo2 100 7 50],
        received_htlcs = [HTLCInfo2 70 8 60], feerate_per_kw = 253\<rparr>" 1000 "\<lambda>h. h = 7" True]
  by (simp add: exact_total_def other_side_def)

text \<open>
  C29: A transaction whose sequence and lock time carry a 48-bit commitment number, obscured
  and split as BOLT 3 prescribes, decodes to that number.
\<close>

theorem commitment_number_roundtrip:
  assumes "counterparty_parameters params = Some cp"
    and "obscure = get_commitment_transaction_number_obscure_factor ldk
           (payment_point (holder_pubkeys params)) (payment_point (cp_pubkeys cp))
           (is_outbound_from_holder params)"
    and "take_bit 48 n = n" "take_bit 48 obscure = obscure"
    and "tx_input tx = [inp]"
    and "tx_sequence inp = 0x80000000 OR ucast (drop_bit 24 (n XOR obscure))"
    and "lock_time tx = 0x20000000 OR ucast (take_bit 24 (n XOR obscure))"
  shows "decode_commitment_number ldk tx params = Ok (Some n)"
proof -
  let ?o = "n XOR obscure"
  have o: "take_bit 48 ?o = ?o" using assms(3,4) by (simp add: take_bit_xor)
  have tops: "take_bit 24 (0x80000000 :: u32) = 0" "take_bit 24 (0x20000000 :: u32) = 0"
    by simp_all
  have lo: "take_bit 24 (ucast (take_bit 24 ?o) :: u32) = ucast (take_bit 24 ?o)"
    by (rule bit_word_eqI) (auto simp: bit_simps)
  have hi: "take_bit 24 (ucast (drop_bit 24 ?o) :: u32) = ucast (drop_bit 24 ?o)"
    using bit_take_bit_selfD [OF o] by (intro bit_word_eqI) (fastforce simp: bit_simps)
  have "(0xffffff :: u64) = mask 24" by (simp add: mask_eq_exp_minus_1)
  then show ?thesis
    using assms join_sequence_locktime [OF o tops] top_byte_or [OF hi, of "0x80000000"] top_byte_or [OF lo, of "0x20000000"]
    by (simp add: decode_commitment_number_def xor.assoc)
qed

definition example_keys :: "PublicKey \<Rightarrow> ChannelPublicKeys" where
  "example_keys k = \<lparr>funding_pubkey = k, revocation_basepoint = k + 1, payment_point = k + 2,
     delayed_payment_basepoint = k + 3, htlc_basepoint = k + 4\<rparr>"

definition example_params :: ChannelTransactionParameters where
  "example_params = \<lparr>holder_pubkeys = example_keys 10, params_holder_selected_contest_delay = 6,
     is_outbound_from_holder = True,
     counterparty_parameters = Some \<lparr>cp_pubkeys = example_keys 20, selected_contest_delay = 7\<rparr>,
     params_funding_outpoint = Some \<lparr>op_txid = 1, op_vout = 0\<rparr>,
     channel_type_features = \<lparr>static_remote_key_required = True,
       anchors_zero_fee_htlc_tx_optional = False, anchors_nonzero_fee_htlc_tx_optional = False\<rparr>,
     channel_value_satoshis = 3000000\<rparr>"

definition example_ldk :: Ldk where
  "example_ldk = \<lparr>derive_new = (\<lambda>pt dp hb rb cb. \<lparr>tk_per_commitment_point = pt, revocation_key = pt + rb,
       broadcaster_htlc_key = pt + hb, countersignatory_htlc_key = pt + cb,
       broadcaster_delayed_payment_key = pt + dp\<rparr>),
     get_revokeable_redeemscript = (\<lambda>r d k. [ucast r, ucast d, ucast k]),
     get_to_countersigner_keyed_anchor_redeemscript = (\<lambda>k. [ucast k]),
     to_p2wsh = (\<lambda>s. 0 # s), p2wpkh_script = (\<lambda>k. [1, ucast k]), is_p2wsh = (\<lambda>s. hd s = 0),
     get_commitment_transaction_number_obscure_factor = (\<lambda>a b _. ucast (a + b))\<rparr>"

theorem commitment_number_roundtrip_witness:
  "decode_commitment_number example_ldk
     \<lparr>tx_version = 2, lock_time = 0x20000000 OR 39,
      tx_input = [\<lparr>previous_output = \<lparr>op_txid = 1, op_vout = 0\<rparr>, tx_sequence = 0x80000000\<rparr>],
      tx_output = []\<rparr> example_params = (Ok (Some 5) :: (_, unit) result)"
  by (rule commitment_number_roundtrip [where cp = "\<lparr>cp_pubkeys = example_keys 20,
        selected_contest_delay = 7\<rparr>" and obscure = 34 and
        inp = "\<lparr>previous_output = \<lparr>op_txid = 1, op_vout = 0\<rparr>, tx_sequence = 0x80000000\<rparr>"])
    (simp_all add: example_params_def example_ldk_def example_keys_def)

end
