(* ===== verification/Secrets.thy ===== *)
theory Secrets
  imports Prelude
begin

unbundle bit_operations_syntax

text \<open>
  The store of revoked counterparty secrets of \<^verbatim>\<open>vls-core/src/policy/validator.rs\<close>
  (\<^verbatim>\<open>CounterpartyCommitmentSecrets\<close>): the compact tree of BOLT 3, in which one entry per number
  of trailing zero bits suffices to derive every secret seen so far. Commitment indices
  count down from \<open>2 ^ 48 - 1\<close>. The hash function is a parameter; nothing is assumed of it.
\<close>

section \<open>The store\<close>

type_synonym Secret = "u8 list"
type_synonym Sha256 = "u8 list \<Rightarrow> u8 list"

record CounterpartyCommitmentSecrets =
  old_secrets :: "(Secret \<times> u64) list"

definition is_zero_secret :: "Secret \<Rightarrow> bool" where
  "is_zero_secret secret = list_all (\<lambda>b. b = 0) secret"

definition trim_trailing_zeros :: "(Secret \<times> u64) list \<Rightarrow> (Secret \<times> u64) list option" where
  "trim_trailing_zeros secrets =
     (let non_zero_len = length (takeWhile (\<lambda>(secret, _). \<not> is_zero_secret secret) secrets)
      in if list_all (\<lambda>(secret, _). is_zero_secret secret) (drop non_zero_len secrets)
         then Some (take non_zero_len secrets) else None)"

definition secrets_eq ::
  "CounterpartyCommitmentSecrets \<Rightarrow> CounterpartyCommitmentSecrets \<Rightarrow> bool" where
  "secrets_eq a b =
     (case (trim_trailing_zeros (old_secrets a), trim_trailing_zeros (old_secrets b)) of
        (Some a_trimmed, Some b_trimmed) \<Rightarrow> a_trimmed = b_trimmed
      | _ \<Rightarrow> False)"

definition secrets_new :: CounterpartyCommitmentSecrets where
  "secrets_new = \<lparr>old_secrets = []\<rparr>"

definition place_secret :: "u64 \<Rightarrow> nat" where
  "place_secret idx =
     (case find (\<lambda>i. idx AND push_bit i 1 = push_bit i 1) [0..<48] of Some i \<Rightarrow> i | None \<Rightarrow> 48)"

definition get_min_seen_secret :: "CounterpartyCommitmentSecrets \<Rightarrow> u64" where
  "get_min_seen_secret st =
     foldl (\<lambda>min_seen (_, idx). if idx < min_seen then idx else min_seen)
       (push_bit 48 1) (old_secrets st)"

text \<open>The loop of \<open>derive_secret\<close> runs over the bit positions downwards.\<close>

fun derive_secret :: "Sha256 \<Rightarrow> Secret \<Rightarrow> nat \<Rightarrow> u64 \<Rightarrow> Secret" where
  "derive_secret sha res 0 idx = res"
| "derive_secret sha res (Suc bitpos) idx =
     derive_secret sha
       (if idx AND push_bit bitpos 1 = push_bit bitpos 1
        then sha (res[bitpos div 8 := res ! (bitpos div 8) XOR push_bit (bitpos mod 8) 1])
        else res) bitpos idx"

definition provide_secret ::
  "Sha256 \<Rightarrow> CounterpartyCommitmentSecrets \<Rightarrow> u64 \<Rightarrow> Secret \<Rightarrow>
   (CounterpartyCommitmentSecrets, unit) result" where
  "provide_secret sha st idx secret =
     (let pos = place_secret idx in
      if pos > length (old_secrets st) then Err ()
      else if \<not> list_all (\<lambda>(old_secret, old_idx). derive_secret sha secret pos old_idx = old_secret)
                (take pos (old_secrets st)) then Err ()
      else if get_min_seen_secret st \<le> idx then Ok st
      else if pos < length (old_secrets st)
        then Ok (st\<lparr>old_secrets := (old_secrets st)[pos := (secret, idx)]\<rparr>)
        else Ok (st\<lparr>old_secrets := old_secrets st @ [(secret, idx)]\<rparr>))"

definition get_secret ::
  "Sha256 \<Rightarrow> CounterpartyCommitmentSecrets \<Rightarrow> u64 \<Rightarrow> (Secret option, 'e) result" where
  "get_secret sha st idx =
     (case find (\<lambda>i. idx AND NOT (push_bit i 1 - 1) = snd (old_secrets st ! i))
             [0..<length (old_secrets st)] of
        Some i \<Rightarrow> Ok (Some (derive_secret sha (fst (old_secrets st ! i)) i idx))
      | None \<Rightarrow>
          and_then (assert_that (idx < get_min_seen_secret st)) (\<lambda>_. Ok None))"

text \<open>The counterparty reveals its secrets one by one, from a given index downwards.\<close>

fun provide_all ::
  "Sha256 \<Rightarrow> CounterpartyCommitmentSecrets \<Rightarrow> u64 \<Rightarrow> Secret list \<Rightarrow>
   (CounterpartyCommitmentSecrets, unit) result" where
  "provide_all sha st idx [] = Ok st"
| "provide_all sha st idx (s # ss) =
     and_then (provide_secret sha st idx s) (\<lambda>st'. provide_all sha st' (idx - 1) ss)"

section \<open>Indices as natural numbers\<close>

lemma and_exp_iff: "idx AND 2 ^ i = 2 ^ i \<longleftrightarrow> bit (unat idx) i"
  if "i < 64" for idx :: u64
proof
  assume "idx AND 2 ^ i = 2 ^ i"
  from arg_cong [OF this, of "\<lambda>w. bit w i"] that show "bit (unat idx) i"
    by (simp add: bit_simps)
next
  assume "bit (unat idx) i"
  then show "idx AND 2 ^ i = 2 ^ i"
    by (intro bit_word_eqI) (auto simp: bit_simps)
qed

lemma unat_and_not_mask:
  "unat (idx AND NOT (2 ^ i - 1)) = unat idx div 2 ^ i * 2 ^ i" for idx :: u64
proof -
  have "2 ^ i - 1 = (mask i :: u64)"
    by (simp add: mask_eq_exp_minus_1)
  then have "unat (idx AND NOT (2 ^ i - 1)) = push_bit i (drop_bit i (unat idx))"
    by (intro bit_eqI) (auto simp: bit_simps dest: bit_imp_le_length)
  then show ?thesis by (simp add: push_bit_eq_mult drop_bit_eq_div)
qed

lemma bit_block_eq:
  "j div 2 ^ i = e div 2 ^ i \<Longrightarrow> i \<le> b \<Longrightarrow> bit j b = bit e b" for j e :: nat
proof -
  assume eq: "j div 2 ^ i = e div 2 ^ i" and "i \<le> b"
  then have "x div 2 ^ b = x div 2 ^ i div 2 ^ (b - i)" for x :: nat
    by (simp add: div_exp_eq)
  with eq show ?thesis by (simp add: bit_iff_odd)
qed

lemma block_iff:
  fixes j e :: nat
  assumes "2 ^ i dvd e"
  shows "e \<le> j \<and> j < e + 2 ^ i \<longleftrightarrow> j div 2 ^ i = e div 2 ^ i"
proof -
  obtain k where k: "e = 2 ^ i * k" using assms by blast
  have "k \<le> j div 2 ^ i \<longleftrightarrow> k * 2 ^ i \<le> j" "j div 2 ^ i < Suc k \<longleftrightarrow> j < Suc k * 2 ^ i"
    by (simp_all add: less_eq_div_iff_mult_less_eq div_less_iff_less_mult)
  then have "j div 2 ^ i = k \<longleftrightarrow> k * 2 ^ i \<le> j \<and> j < Suc k * 2 ^ i" by linarith
  with k show ?thesis by (simp add: mult.commute add.commute)
qed

lemma low_bits_zero: "2 ^ i dvd e \<Longrightarrow> b < i \<Longrightarrow> \<not> bit e b" for e :: nat
  by (auto simp: bit_iff_odd even_mult_exp_div_exp_iff mult.commute elim!: dvdE)

section \<open>Deriving secrets\<close>

lemma derive_secret_Suc:
  assumes "bitpos < 64"
  shows "derive_secret sha res (Suc bitpos) idx =
    derive_secret sha
      (if bit (unat idx) bitpos
       then sha (res[bitpos div 8 := res ! (bitpos div 8) XOR push_bit (bitpos mod 8) 1])
       else res) bitpos idx"
  using and_exp_iff [OF assms, of idx] by simp

declare derive_secret.simps(2) [simp del]

lemma derive_secret_low_zero:
  "\<lbrakk>i \<le> 64; \<And>b. b < i \<Longrightarrow> \<not> bit (unat idx) b\<rbrakk> \<Longrightarrow> derive_secret sha s i idx = s"
  by (induction i arbitrary: s) (simp_all add: derive_secret_Suc)

lemma derive_secret_split:
  assumes "i \<le> p" "p \<le> 64" "\<And>b. i \<le> b \<Longrightarrow> b < p \<Longrightarrow> bit (unat j) b = bit (unat e) b"
    and "\<And>b. b < i \<Longrightarrow> \<not> bit (unat e) b"
  shows "derive_secret sha s p j = derive_secret sha (derive_secret sha s p e) i j"
  using assms(1,2,3)
proof (induction p arbitrary: s rule: dec_induct)
  case base
  with derive_secret_low_zero [OF _ assms(4)] show ?case by simp
next
  case (step p)
  then show ?case by (simp add: derive_secret_Suc)
qed

section \<open>The shape of the store\<close>

text \<open>
  An index is at level \<open>i\<close> when it has exactly \<open>i\<close> trailing zero bits; index zero is at level
  48. When the smallest index seen is \<open>m\<close>, slot \<open>i\<close> of the store holds the smallest index
  of level \<open>i\<close> from \<open>m\<close> on, with a secret from which every index of its block derives.
\<close>

definition at_level :: "nat \<Rightarrow> nat \<Rightarrow> bool" where
  "at_level i n \<longleftrightarrow> (if i = 48 then n = 0 else n mod 2 ^ Suc i = 2 ^ i)"

definition slot_ok :: "Sha256 \<Rightarrow> (u64 \<Rightarrow> Secret) \<Rightarrow> nat \<Rightarrow> nat \<Rightarrow> Secret \<times> u64 \<Rightarrow> bool" where
  "slot_ok sha f m i slot \<longleftrightarrow>
     at_level i (unat (snd slot)) \<and> m \<le> unat (snd slot) \<and> unat (snd slot) < m + 2 ^ Suc i
     \<and> (\<forall>j. unat j div 2 ^ i = unat (snd slot) div 2 ^ i \<longrightarrow> derive_secret sha (fst slot) i j = f j)"

definition secrets_inv :: "Sha256 \<Rightarrow> (u64 \<Rightarrow> Secret) \<Rightarrow> nat \<Rightarrow> CounterpartyCommitmentSecrets \<Rightarrow> bool" where
  "secrets_inv sha f m st \<longleftrightarrow>
     m \<le> 2 ^ 48 \<and> (\<forall>i. i < length (old_secrets st) \<longleftrightarrow> m + 2 ^ i \<le> 2 ^ 48)
     \<and> (\<forall>i < length (old_secrets st). slot_ok sha f m i (old_secrets st ! i))"

lemma secrets_invD:
  assumes "secrets_inv sha f m st"
  shows "m \<le> 2 ^ 48" and "i < length (old_secrets st) \<longleftrightarrow> m + 2 ^ i \<le> 2 ^ 48"
    and "i < length (old_secrets st) \<Longrightarrow> slot_ok sha f m i (old_secrets st ! i)"
  using assms unfolding secrets_inv_def by blast+

lemma at_level_dvd: "at_level i n \<Longrightarrow> 2 ^ i dvd n"
  using dvd_mod_iff [of "2 ^ i" "2 ^ Suc i" n] by (auto simp: at_level_def split: if_splits)

lemma at_level_unique:
  assumes "at_level i a" "at_level i b" "m \<le> a" "a < m + 2 ^ Suc i" "m \<le> b" "b < m + 2 ^ Suc i"
  shows "a = b"
proof (cases "i = 48")
  case False
  then have eq: "a mod 2 ^ Suc i = b mod 2 ^ Suc i" using assms by (simp add: at_level_def)
  show ?thesis
  proof (cases "a \<le> b")
    case True
    then have "2 ^ Suc i dvd b - a" using eq by (metis mod_eq_dvd_iff_nat)
    then show ?thesis using assms True nat_dvd_not_less [of "b - a" "2 ^ Suc i"] by linarith
  next
    case False
    then have "2 ^ Suc i dvd a - b" using eq by (metis mod_eq_dvd_iff_nat nat_le_linear)
    then show ?thesis using assms False nat_dvd_not_less [of "a - b" "2 ^ Suc i"] by linarith
  qed
qed (use assms in \<open>simp add: at_level_def\<close>)

lemma at_level_top:
  assumes "at_level i n" "n < 2 ^ 48" "i \<le> 48"
  shows "n + 2 ^ i \<le> 2 ^ 48"
proof -
  have "(2::nat) ^ i dvd 2 ^ 48" using assms(3) by (rule le_imp_power_dvd)
  then obtain k l where "n = 2 ^ i * k" "(2::nat) ^ 48 = 2 ^ i * l"
    using at_level_dvd [OF assms(1)] by (auto elim!: dvdE)
  moreover from this assms(2) have "Suc k \<le> l" by (metis Suc_leI mult_less_cancel1)
  then have "2 ^ i * Suc k \<le> 2 ^ i * l" by (rule mult_le_mono2)
  ultimately show ?thesis by simp
qed

lemma at_level_last:
  assumes "n + 2 ^ i = 2 ^ 48" "i \<le> 48"
  shows "at_level i n"
proof (cases "i = 48")
  case False
  then have "(2::nat) ^ Suc i dvd 2 ^ 48" using assms(2) by (intro le_imp_power_dvd) simp
  then obtain k where k: "(2::nat) ^ 48 = 2 ^ Suc i * k" by blast
  then obtain l where "k = Suc l" by (cases k) simp_all
  with k assms(1) have "n = 2 ^ Suc i * l + 2 ^ i" by simp
  with False show ?thesis by (simp add: at_level_def)
qed (use assms in \<open>simp add: at_level_def\<close>)

lemma place_secret_level:
  assumes "unat idx < 2 ^ 48"
  shows "at_level (place_secret idx) (unat idx)" and "place_secret idx \<le> 48"
proof -
  have tz: "at_level p (unat idx)" if "p < 48" "bit (unat idx) p" "\<And>b. b < p \<Longrightarrow> \<not> bit (unat idx) b" for p
  proof -
    have "take_bit (Suc p) (unat idx) = 2 ^ p"
      by (rule bit_eqI) (use that in \<open>auto simp: bit_simps less_Suc_eq\<close>)
    with that(1) show ?thesis by (simp add: at_level_def take_bit_eq_mod)
  qed
  have place: "place_secret idx =
      (case find (bit (unat idx)) [0..<48] of Some i \<Rightarrow> i | None \<Rightarrow> 48)"
    unfolding place_secret_def push_bit_of_1
    by (rule arg_cong [OF find_cong [OF refl]], rule and_exp_iff) simp
  show "at_level (place_secret idx) (unat idx)"
  proof (cases "find (bit (unat idx)) [0..<48]")
    case None
    then have "\<not> bit (unat idx) b" if "b < 48" for b
      using that by (auto simp: find_None_iff)
    then have "take_bit 48 (unat idx) = 0" by (intro bit_eqI) (auto simp: bit_simps)
    with assms None show ?thesis by (simp add: at_level_def place take_bit_eq_mod)
  next
    case (Some p)
    then have "p < 48" "bit (unat idx) p" "\<And>b. b < p \<Longrightarrow> \<not> bit (unat idx) b"
      by (auto simp: find_Some_iff)
    with Some show ?thesis by (simp add: tz place)
  qed
  show "place_secret idx \<le> 48"
    by (auto simp: place find_Some_iff split: option.split)
qed

lemma min_seen_ge:
  assumes "secrets_inv sha f m st"
  shows "m \<le> unat (get_min_seen_secret st)"
proof -
  have *: "m \<le> unat (foldl (\<lambda>min_seen (_, idx). if idx < min_seen then idx else min_seen) b xs)"
    if "m \<le> unat b" "\<forall>x \<in> set xs. m \<le> unat (snd x)" for b :: u64 and xs :: "(Secret \<times> u64) list"
    using that by (induction xs arbitrary: b) auto
  have "m \<le> unat (push_bit 48 1 :: u64)"
    using assms by (simp add: secrets_inv_def push_bit_eq_mult)
  moreover have "m \<le> unat (snd x)" if "x \<in> set (old_secrets st)" for x
  proof -
    from that obtain i where "i < length (old_secrets st)" "x = old_secrets st ! i"
      by (auto simp: in_set_conv_nth)
    with assms show ?thesis unfolding secrets_inv_def slot_ok_def by blast
  qed
  ultimately show ?thesis unfolding get_min_seen_secret_def by (intro *) blast+
qed

section \<open>Providing one secret keeps the shape\<close>

lemma slot_below:
  assumes "slot_ok sha f (Suc n) i slot" "at_level p n" "i < p" "p \<le> 48"
  shows "unat (snd slot) = n + 2 ^ i"
proof -
  have "2 ^ Suc i dvd n"
    using at_level_dvd [OF assms(2)] assms(3) by (meson Suc_leI dvd_trans le_imp_power_dvd)
  then have "at_level i (n + 2 ^ i)" using assms(3,4) by (auto simp: at_level_def elim!: dvdE)
  then show ?thesis
    using assms(1) by (intro at_level_unique [where m = "Suc n"]) (auto simp: slot_ok_def)
qed

lemma block_derives:
  assumes inv: "secrets_inv sha f (Suc (unat idx)) st" and pos: "p = place_secret idx"
    and len: "p \<le> length (old_secrets st)" and f: "f idx = secret"
    and checked: "\<And>i. i < p \<Longrightarrow> derive_secret sha secret p (snd (old_secrets st ! i)) = fst (old_secrets st ! i)"
    and j: "unat j div 2 ^ p = unat idx div 2 ^ p"
  shows "derive_secret sha secret p j = f j"
proof -
  have idx: "unat idx < 2 ^ 48" using inv by (auto simp: secrets_inv_def)
  note level = place_secret_level [OF idx, folded pos]
  have range: "unat idx \<le> unat j" "unat j < unat idx + 2 ^ p"
    using j block_iff [OF at_level_dvd [OF level(1)]] by auto
  show ?thesis
  proof (cases "j = idx")
    case True
    with f level at_level_dvd [OF level(1)] show ?thesis
      by (simp add: derive_secret_low_zero low_bits_zero)
  next
    case False
    then have "1 \<le> unat j - unat idx" using range by (simp add: word_unat_eq_iff)
    then obtain i where i: "2 ^ i \<le> unat j - unat idx" "unat j - unat idx < 2 ^ (i + 1)"
      using ex_power_ivl1 [of 2] by blast
    have "(2::nat) ^ i < 2 ^ p" using i range by linarith
    then have ip: "i < p" by simp
    let ?slot = "old_secrets st ! i"
    have ok: "slot_ok sha f (Suc (unat idx)) i ?slot"
      using ip len by (intro secrets_invD [OF inv]) simp
    have e: "unat (snd ?slot) = unat idx + 2 ^ i" by (rule slot_below [OF ok level(1) ip level(2)])
    have dvd: "2 ^ i dvd unat (snd ?slot)" using ok by (auto simp: slot_ok_def intro: at_level_dvd)
    have blk: "unat j div 2 ^ i = unat (snd ?slot) div 2 ^ i"
      by (rule iffD1 [OF block_iff [OF dvd]]) (use i e range in auto)
    have "derive_secret sha secret p j =
        derive_secret sha (derive_secret sha secret p (snd ?slot)) i j"
      using ip level(2) by (intro derive_secret_split)
        (simp_all add: bit_block_eq [OF blk] low_bits_zero [OF dvd])
    with checked [OF ip] ok blk show ?thesis by (simp add: slot_ok_def)
  qed
qed

lemma slot_ok_older:
  assumes "slot_ok sha f (Suc n) i slot" "\<not> at_level i n" "i \<noteq> 48"
  shows "slot_ok sha f n i slot"
proof -
  have "unat (snd slot) \<noteq> n + 2 ^ Suc i"
    using assms by (auto simp: slot_ok_def at_level_def)
  with assms(1) show ?thesis by (auto simp: slot_ok_def)
qed

lemma at_level_inj:
  assumes "at_level i n" "at_level p n" "i \<le> 48" "p \<le> 48"
  shows "i = p"
proof (rule ccontr)
  have *: False if "at_level i n" "at_level p n" "i < p" "p \<le> 48" for i p
  proof -
    have "2 ^ Suc i dvd n"
      using at_level_dvd [OF that(2)] that(3) by (meson Suc_leI dvd_trans le_imp_power_dvd)
    with that show False by (auto simp: at_level_def)
  qed
  assume "i \<noteq> p"
  with assms * show False by (meson linorder_neqE_nat)
qed

lemma provide_secret_inv:
  assumes inv: "secrets_inv sha f (Suc (unat idx)) st" and f: "f idx = secret"
    and ok: "provide_secret sha st idx secret = Ok st'"
  shows "secrets_inv sha f (unat idx) st'"
proof -
  define p where "p = place_secret idx"
  let ?xs = "old_secrets st" and ?n = "unat idx"
  have n: "?n < 2 ^ 48" using inv by (auto simp: secrets_inv_def)
  have level: "at_level p ?n" "p \<le> 48" using place_secret_level [OF n] by (simp_all add: p_def)
  have len: "i < length ?xs \<longleftrightarrow> Suc ?n + 2 ^ i \<le> 2 ^ 48" for i
    by (rule secrets_invD [OF inv])
  have "idx < get_min_seen_secret st"
    using min_seen_ge [OF inv] by (simp add: word_less_nat_alt)
  then have p: "p \<le> length ?xs"
    and all: "list_all (\<lambda>(old, old_idx). derive_secret sha secret p old_idx = old) (take p ?xs)"
    and st': "old_secrets st' = (if p < length ?xs then ?xs[p := (secret, idx)] else ?xs @ [(secret, idx)])"
    using ok by (auto simp: provide_secret_def Let_def p_def [symmetric] not_less split: if_splits)
  have chk: "derive_secret sha secret p (snd (?xs ! i)) = fst (?xs ! i)" if "i < p" for i
    using all p that by (auto simp: list_all_length split_beta)
  have new: "slot_ok sha f ?n p (secret, idx)"
    using level block_derives [OF inv p_def p f chk] by (auto simp: slot_ok_def)
  have old: "slot_ok sha f ?n i (?xs ! i)" if "i < length ?xs" "i \<noteq> p" for i
  proof -
    have "i < 48" using that(1) len [of i] power_increasing [of 48 i "2::nat"] by (cases "i < 48") auto
    moreover have "\<not> at_level i ?n"
      using at_level_inj [of i ?n p] \<open>i < 48\<close> that level by auto
    ultimately show ?thesis
      by (intro slot_ok_older [OF secrets_invD(3) [OF inv that(1)]]) simp_all
  qed
  have "i < length (old_secrets st') \<longleftrightarrow> ?n + 2 ^ i \<le> 2 ^ 48" for i
  proof -
    have top: "i = p" if "?n + 2 ^ i = 2 ^ 48"
    proof -
      have "i \<le> 48" using that by (metis le_add2 one_less_numeral_iff power_le_imp_le_exp semiring_norm(76))
      moreover have "at_level i ?n"
        using that \<open>i \<le> 48\<close> by (rule at_level_last)
      ultimately show ?thesis using level by (auto dest: at_level_inj)
    qed
    show ?thesis
      using len [of i] len [of p] p top at_level_top [OF level(1) n level(2)]
      by (auto simp: st' less_Suc_eq)
  qed
  moreover have "slot_ok sha f ?n i (old_secrets st' ! i)" if "i < length (old_secrets st')" for i
    using that new old p by (auto simp: st' nth_append nth_list_update split: if_splits)
  ultimately show ?thesis using n by (simp add: secrets_inv_def)
qed

text \<open>The invariant only reads the secrets from the smallest index on.\<close>

lemma secrets_inv_cong:
  assumes "secrets_inv sha f m st" "\<And>j. m \<le> unat j \<Longrightarrow> f j = g j"
  shows "secrets_inv sha g m st"
proof -
  have "slot_ok sha g m i slot" if "slot_ok sha f m i slot" for i slot
  proof -
    have "m \<le> unat j" if "unat j div 2 ^ i = unat (snd slot) div 2 ^ i" for j :: u64
    proof -
      have "2 ^ i dvd unat (snd slot)" using \<open>slot_ok sha f m i slot\<close> by (auto simp: slot_ok_def dest: at_level_dvd)
      then have "unat (snd slot) = unat (snd slot) div 2 ^ i * 2 ^ i" by simp
      also have "\<dots> \<le> unat j" unfolding that [symmetric] by (rule div_times_less_eq_dividend)
      finally show ?thesis using \<open>slot_ok sha f m i slot\<close> by (simp add: slot_ok_def)
    qed
    with that assms(2) show ?thesis by (auto simp: slot_ok_def)
  qed
  with assms(1) show ?thesis by (auto simp: secrets_inv_def)
qed

text \<open>A secret of an index that was seen before does not change the store.\<close>

lemma min_seen_le:
  assumes "secrets_inv sha f m st" "m < 2 ^ 48"
  shows "unat (get_min_seen_secret st) \<le> m"
proof -
  define p where "p = place_secret (of_nat m)"
  have m: "unat (of_nat m :: u64) = m" using assms(2) by (simp add: unat_of_nat)
  note level = place_secret_level [of "of_nat m", unfolded m, OF assms(2), folded p_def]
  have p: "p < length (old_secrets st)"
    using at_level_top [OF level(1) assms(2) level(2)] secrets_invD(2) [OF assms(1)] by simp
  then have "slot_ok sha f m p (old_secrets st ! p)" by (rule secrets_invD(3) [OF assms(1)])
  then have slot: "unat (snd (old_secrets st ! p)) = m"
    using level by (intro at_level_unique [of p _ _ m]) (auto simp: slot_ok_def)
  have low: "foldl (\<lambda>min_seen (_, idx). if idx < min_seen then idx else min_seen) b xs \<le> snd x"
    if "x \<in> set xs" for b :: u64 and xs :: "(Secret \<times> u64) list" and x
  proof -
    have le: "foldl (\<lambda>min_seen (_, idx). if idx < min_seen then idx else min_seen) b xs \<le> b" for b :: u64 and xs :: "(Secret \<times> u64) list"
    proof (induction xs arbitrary: b)
      case (Cons y xs)
      have "(if snd y < b then snd y else b) \<le> b" by (auto intro: order.strict_implies_order)
      from order_trans [OF Cons.IH this] show ?case by (simp add: split_beta)
    qed simp
    show ?thesis using that
    proof (induction xs arbitrary: b)
      case (Cons y xs)
      have "(if snd y < b then snd y else b) \<le> snd y" by (simp add: not_less)
      with le [of "if snd y < b then snd y else b" xs] Cons show ?case
        unfolding split_beta' by (auto intro: order_trans)
    qed simp
  qed
  have "get_min_seen_secret st \<le> snd (old_secrets st ! p)"
    unfolding get_min_seen_secret_def by (rule low) (rule nth_mem [OF p])
  with slot show ?thesis by (simp add: word_le_nat_alt)
qed

lemma provide_secret_seen:
  assumes "secrets_inv sha f m st" "m < 2 ^ 48" "m \<le> unat idx"
    and "provide_secret sha st idx secret = Ok st'"
  shows "st' = st"
proof -
  have "get_min_seen_secret st \<le> idx"
    using min_seen_le [OF assms(1,2)] assms(3) by (simp add: word_le_nat_alt)
  with assms(4) show ?thesis by (auto simp: provide_secret_def Let_def split: if_splits)
qed

section \<open>Runs of the store\<close>

lemma secrets_inv_new: "secrets_inv sha f (2 ^ 48) secrets_new"
  by (simp add: secrets_inv_def secrets_new_def)

lemma unat_pred_of_nat:
  "\<lbrakk>0 < m; m \<le> 2 ^ 48\<rbrakk> \<Longrightarrow> unat (of_nat m - 1 :: u64) = m - 1"
proof -
  assume "0 < m" "m \<le> 2 ^ 48"
  then have "of_nat m - 1 = (of_nat (m - 1) :: u64)" by (simp add: of_nat_diff)
  moreover have "m - 1 < 2 ^ 64" using \<open>m \<le> 2 ^ 48\<close> by simp
  ultimately show ?thesis by (simp add: unat_of_nat)
qed

lemma provide_all_inv:
  assumes "secrets_inv sha f m st" "length ss \<le> m"
    and "provide_all sha st (of_nat m - 1) ss = Ok st'"
    and "\<And>k. k < length ss \<Longrightarrow> f (of_nat m - 1 - of_nat k) = ss ! k"
  shows "secrets_inv sha f (m - length ss) st'"
  using assms
proof (induction ss arbitrary: m st)
  case Nil
  then show ?case by simp
next
  case (Cons s ss)
  then obtain st1 where st1: "provide_secret sha st (of_nat m - 1) s = Ok st1"
    and rest: "provide_all sha st1 (of_nat m - 1 - 1) ss = Ok st'"
    by (auto simp: result_simps)
  have m: "unat (of_nat m - 1 :: u64) = m - 1"
    using Cons.prems secrets_invD(1) by (intro unat_pred_of_nat) auto
  have "secrets_inv sha f (m - 1) st1"
    using provide_secret_inv [OF _ _ st1, of f] Cons.prems m by fastforce
  moreover have idx: "of_nat m - 1 = (of_nat (m - 1) :: u64)"
    using Cons.prems(2) by (simp add: of_nat_diff)
  have "f (of_nat (m - 1) - 1 - of_nat k) = ss ! k" if "k < length ss" for k
    using Cons.prems(4) [of "Suc k"] that unfolding idx by (simp add: algebra_simps)
  ultimately have "secrets_inv sha f (m - 1 - length ss) st'"
    using Cons.prems(2) by (intro Cons.IH [OF _ _ rest [unfolded idx]]) auto
  then show ?case by simp
qed

lemma get_secret_inv:
  assumes inv: "secrets_inv sha f m st" and j: "m \<le> unat j" "unat j < 2 ^ 48"
  shows "get_secret sha st j = Ok (Some (f j))"
proof -
  let ?xs = "old_secrets st" and ?base = "\<lambda>i. unat j div 2 ^ i * 2 ^ i"
  have hit: "unat j div 2 ^ i = unat (snd (?xs ! i)) div 2 ^ i \<longleftrightarrow> j AND NOT (2 ^ i - 1) = snd (?xs ! i)"
    if "i < length ?xs" for i
  proof -
    have "2 ^ i dvd unat (snd (?xs ! i))"
      using secrets_invD(3) [OF inv that] by (auto simp: slot_ok_def intro: at_level_dvd)
    then show ?thesis by (auto simp: word_unat_eq_iff unat_and_not_mask)
  qed
  define i where "i = (GREATEST i. i \<le> 48 \<and> m \<le> ?base i)"
  have i: "i \<le> 48 \<and> m \<le> ?base i" unfolding i_def
    by (rule GreatestI_nat [where b = 48 and k = 0]) (use j in auto)
  have level: "at_level i (?base i) \<and> ?base i < m + 2 ^ Suc i"
  proof (cases "i = 48")
    case False
    then have "\<not> m \<le> ?base (Suc i)"
      using i Greatest_le_nat [of "\<lambda>i. i \<le> 48 \<and> m \<le> ?base i" "Suc i" 48] by (auto simp: i_def)
    moreover have "?base i = ?base (Suc i) + (unat j div 2 ^ i mod 2) * 2 ^ i"
    proof -
      have half: "unat j div 2 ^ Suc i = unat j div 2 ^ i div 2"
        by (simp only: power_Suc2 div_mult2_eq)
      have split: "d * 2 ^ i = d div 2 * 2 ^ Suc i + d mod 2 * 2 ^ i" for d :: nat
        by (metis (no_types) add_mult_distrib div_mult_mod_eq mult.assoc power_Suc)
      show ?thesis unfolding half by (rule split)
    qed
    ultimately show ?thesis
      using i False by (auto simp: at_level_def mod_2_eq_odd split: if_splits)
  qed (use j i in \<open>simp add: at_level_def\<close>)
  have "?base i < 2 ^ 48" using j(2) by (rule order.strict_trans1 [rotated]) simp
  then have "?base i + 2 ^ i \<le> 2 ^ 48" using at_level_top level i by blast
  then have len: "i < length ?xs" using i secrets_invD(2) [OF inv, of i] by linarith
  have "unat (snd (?xs ! i)) = ?base i"
    using secrets_invD(3) [OF inv len] level i
    by (intro at_level_unique [where m = m and i = i]) (auto simp: slot_ok_def)
  then have "j AND NOT (2 ^ i - 1) = snd (?xs ! i)"
    by (simp add: word_unat_eq_iff unat_and_not_mask)
  then obtain l where l: "find (\<lambda>i. j AND NOT (2 ^ i - 1) = snd (?xs ! i)) [0..<length ?xs] = Some l"
    using len by (cases "find (\<lambda>i. j AND NOT (2 ^ i - 1) = snd (?xs ! i)) [0..<length ?xs]")
      (auto simp: find_None_iff)
  then have l': "l < length ?xs" "j AND NOT (2 ^ l - 1) = snd (?xs ! l)"
    by (auto simp: find_Some_iff)
  then have "derive_secret sha (fst (?xs ! l)) l j = f j"
    using secrets_invD(3) [OF inv l'(1)] hit [OF l'(1)] by (auto simp: slot_ok_def)
  with l show ?thesis by (simp add: get_secret_def)
qed

lemma provide_secret_honest:
  assumes inv: "secrets_inv sha (derive_secret sha seed 48) (Suc (unat idx)) st"
  shows "\<exists>st'. provide_secret sha st idx (derive_secret sha seed 48 idx) = Ok st'"
proof -
  let ?f = "derive_secret sha seed 48" and ?p = "place_secret idx" and ?n = "unat idx"
  have n: "?n < 2 ^ 48" using secrets_invD(1) [OF inv] by simp
  note level = place_secret_level [OF n]
  have slot: "i < length (old_secrets st)" if "i < ?p" for i
  proof -
    have "(2::nat) ^ i < 2 ^ ?p" using that by simp
    then show ?thesis using secrets_invD(2) [OF inv, of i] at_level_top [OF level(1) n level(2)] by linarith
  qed
  then have pos: "?p \<le> length (old_secrets st)" by (meson not_le_imp_less nat_less_le)
  have "derive_secret sha (?f idx) ?p (snd (old_secrets st ! i)) = fst (old_secrets st ! i)"
    if i: "i < ?p" for i
  proof -
    let ?e = "snd (old_secrets st ! i)"
    note ok = secrets_invD(3) [OF inv slot [OF i]]
    have e: "unat ?e = ?n + 2 ^ i" by (rule slot_below [OF ok level(1) i level(2)])
    have "(2::nat) ^ i < 2 ^ ?p" using i by simp
    then have blk: "unat ?e div 2 ^ ?p = ?n div 2 ^ ?p"
      by (intro iffD1 [OF block_iff [OF at_level_dvd [OF level(1)]]]) (use e in simp)
    have "?f ?e = derive_secret sha (?f idx) ?p ?e"
      using level by (intro derive_secret_split)
        (simp_all add: bit_block_eq [OF blk] low_bits_zero [OF at_level_dvd [OF level(1)]])
    moreover have "derive_secret sha (fst (old_secrets st ! i)) i ?e = ?f ?e"
      using ok by (simp add: slot_ok_def)
    moreover have "2 ^ i dvd unat ?e" using ok by (simp add: slot_ok_def at_level_dvd)
    then have "derive_secret sha (fst (old_secrets st ! i)) i ?e = fst (old_secrets st ! i)"
      using i level(2) by (intro derive_secret_low_zero) (simp_all add: low_bits_zero)
    ultimately show ?thesis by simp
  qed
  then show ?thesis using pos
    by (auto simp: provide_secret_def Let_def list_all_length split_beta)
qed

lemma provide_all_honest:
  assumes "secrets_inv sha (derive_secret sha seed 48) m st" "n \<le> m"
  shows "\<exists>st'. provide_all sha st (of_nat m - 1)
           (map (\<lambda>k. derive_secret sha seed 48 (of_nat m - 1 - of_nat k)) [0..<n]) = Ok st'"
  using assms
proof (induction n arbitrary: m st)
  case (Suc n)
  let ?f = "derive_secret sha seed 48" and ?idx = "of_nat m - 1 :: u64"
  have m: "unat ?idx = m - 1"
    using Suc.prems secrets_invD(1) by (intro unat_pred_of_nat) auto
  then have inv: "secrets_inv sha ?f (Suc (unat ?idx)) st" using Suc.prems by simp
  then obtain st1 where st1: "provide_secret sha st ?idx (?f ?idx) = Ok st1"
    using provide_secret_honest by blast
  have inv1: "secrets_inv sha ?f (m - 1) st1" using provide_secret_inv [OF inv _ st1] m by simp
  have le: "n \<le> m - 1" using Suc.prems(2) by simp
  obtain st' where st': "provide_all sha st1 (of_nat (m - 1) - 1)
      (map (\<lambda>k. ?f (of_nat (m - 1) - 1 - of_nat k)) [0..<n]) = Ok st'"
    using Suc.IH [OF inv1 le] by blast
  have idx: "of_nat (m - 1) = ?idx" using Suc.prems(2) by (simp add: of_nat_diff)
  have "map (\<lambda>k. ?f (?idx - of_nat k)) [0..<Suc n]
      = ?f ?idx # map (\<lambda>k. ?f (?idx - 1 - of_nat k)) [0..<n]"
    unfolding upt_conv_Cons [OF zero_less_Suc] map_Suc_upt [symmetric]
    by (simp add: comp_def diff_diff_eq)
  with st1 st' [unfolded idx] show ?case by simp
qed simp

section \<open>Equality up to padding\<close>

lemma trim_trailing_zeros_Cons:
  "trim_trailing_zeros ((s, i) # xs) =
     (if is_zero_secret s
      then if list_all (\<lambda>(secret, _). is_zero_secret secret) xs then Some [] else None
      else map_option (Cons (s, i)) (trim_trailing_zeros xs))"
  by (simp add: trim_trailing_zeros_def Let_def)

lemma trim_trailing_zeros_padding:
  "list_all (\<lambda>(secret, _). is_zero_secret secret) zs \<Longrightarrow>
   trim_trailing_zeros (xs @ zs) = trim_trailing_zeros xs"
proof (induction xs)
  case Nil
  then show ?case
    by (cases zs) (auto simp: trim_trailing_zeros_Cons trim_trailing_zeros_def)
next
  case (Cons x xs)
  then show ?case by (cases x) (simp add: trim_trailing_zeros_Cons)
qed

lemma secrets_eq_padding:
  "list_all (\<lambda>(secret, _). is_zero_secret secret) zs \<Longrightarrow>
   secrets_eq \<lparr>old_secrets = xs @ zs\<rparr> \<lparr>old_secrets = xs\<rparr> \<longleftrightarrow> trim_trailing_zeros xs \<noteq> None"
  by (auto simp: secrets_eq_def trim_trailing_zeros_padding split: option.splits)

section \<open>Properties of the store\<close>

text \<open>
  C14: Whatever secrets the counterparty reveals, in sequence from the first index
  downwards, if the store accepts all of them then every single one can still be read
  back: the compact store loses none, so that any revoked commitment can be punished.
\<close>

theorem revealed_secrets_retrievable:
  assumes "provide_all sha secrets_new (2 ^ 48 - 1) ss = Ok st"
    and "length ss \<le> 2 ^ 48" "k < length ss"
  shows "get_secret sha st (2 ^ 48 - 1 - of_nat k) = Ok (Some (ss ! k))"
proof -
  define f where "f j = ss ! (2 ^ 48 - 1 - unat j)" for j :: u64
  have idx: "unat (2 ^ 48 - 1 - of_nat k :: u64) = 2 ^ 48 - 1 - k" if "k < 2 ^ 48" for k
  proof -
    have "2 ^ 48 - 1 - of_nat k = (of_nat (2 ^ 48 - 1 - k) :: u64)"
      using that by (simp add: of_nat_diff)
    moreover have "2 ^ 48 - 1 - k < (2::nat) ^ 64" by simp
    ultimately show ?thesis by (simp add: unat_of_nat)
  qed
  have "secrets_inv sha f (2 ^ 48 - length ss) st"
    using assms by (intro provide_all_inv [OF secrets_inv_new]) (auto simp: f_def idx [simplified])
  then have "get_secret sha st (2 ^ 48 - 1 - of_nat k) = Ok (Some (f (2 ^ 48 - 1 - of_nat k)))"
    by (rule get_secret_inv) (use assms(2,3) idx [of k] in linarith)+
  then show ?thesis using assms(2,3) by (simp add: f_def idx [simplified])
qed

theorem revealed_secrets_retrievable_witness:
  "\<exists>st. provide_all (map (\<lambda>b. 3 * b + 1)) secrets_new (2 ^ 48 - 1)
          (map (\<lambda>k. derive_secret (map (\<lambda>b. 3 * b + 1)) (replicate 32 7) 48 (2 ^ 48 - 1 - of_nat k)) [0..<3])
        = Ok st
      \<and> get_secret (map (\<lambda>b. 3 * b + 1)) st (2 ^ 48 - 1 - of_nat 1)
        = (Ok (Some (derive_secret (map (\<lambda>b. 3 * b + 1)) (replicate 32 7) 48 (2 ^ 48 - 1 - of_nat 1)))
           :: (_, unit) result)"
proof -
  obtain st where st: "provide_all (map (\<lambda>b. 3 * b + 1)) secrets_new (2 ^ 48 - 1)
      (map (\<lambda>k. derive_secret (map (\<lambda>b. 3 * b + 1)) (replicate 32 7) 48 (2 ^ 48 - 1 - of_nat k)) [0..<3])
      = Ok st"
    using provide_all_honest [OF secrets_inv_new, of 3] by auto
  with revealed_secrets_retrievable [OF st, of 1] show ?thesis
    by (intro exI [of _ st] conjI) simp_all
qed

text \<open>
  A counterparty that derives its secrets from one seed as BOLT 3 prescribes is never
  refused, however many of the indices it reveals.
\<close>

theorem honest_secrets_accepted:
  assumes "n \<le> 2 ^ 48"
  shows "\<exists>st. provide_all sha secrets_new (2 ^ 48 - 1)
           (map (\<lambda>k. derive_secret sha seed 48 (2 ^ 48 - 1 - of_nat k)) [0..<n]) = Ok st"
  using provide_all_honest [OF secrets_inv_new assms] by simp

theorem honest_secrets_accepted_witness:
  "\<exists>st. provide_all (map (\<lambda>b. 3 * b + 1)) secrets_new (2 ^ 48 - 1)
          (map (\<lambda>k. derive_secret (map (\<lambda>b. 3 * b + 1)) (replicate 32 7) 48 (2 ^ 48 - 1 - of_nat k)) [0..<3])
        = Ok st"
  by (rule honest_secrets_accepted) simp

end
