(* ===== verification/Enforcement.thy ===== *)
theory Enforcement
  imports TxInfo Secrets
begin

text \<open>
  The enforcement state of a channel, \<^verbatim>\<open>EnforcementState\<close> of
  \<^verbatim>\<open>vls-core/src/policy/validator.rs\<close>, with the counter updates that the \<^verbatim>\<open>Validator\<close> trait
  guards, the summaries of in-flight payments and the balances derived from it. The
  commitment counters count upwards here, as in the code.
\<close>

section \<open>Status codes and balances\<close>

text \<open>Of a \<^verbatim>\<open>Status\<close> only the code is kept.\<close>

datatype Status = InvalidArgument | FailedPrecondition | Internal | Temporary

definition status_of_validation_error :: "ValidationError \<Rightarrow> Status" where
  "status_of_validation_error ve =
     (case ve_kind ve of TemporaryPolicy \<Rightarrow> Temporary | _ \<Rightarrow> FailedPrecondition)"

record ChannelBalance =
  claimable :: u64
  received_htlc :: u64
  offered_htlc :: u64
  sweeping :: u64
  stub_count :: u32
  unconfirmed_count :: u32
  channel_count :: u32
  closing_count :: u32
  received_htlc_count :: u32
  offered_htlc_count :: u32

definition balance_zero :: ChannelBalance where
  "balance_zero = \<lparr>claimable = 0, received_htlc = 0, offered_htlc = 0, sweeping = 0,
     stub_count = 0, unconfirmed_count = 0, channel_count = 0, closing_count = 0,
     received_htlc_count = 0, offered_htlc_count = 0\<rparr>"

definition balance_stub :: ChannelBalance where
  "balance_stub = balance_zero\<lparr>stub_count := 1\<rparr>"

definition balance_accumulate :: "ChannelBalance \<Rightarrow> ChannelBalance \<Rightarrow> ChannelBalance" where
  "balance_accumulate a b = \<lparr>claimable = claimable a + claimable b,
     received_htlc = received_htlc a + received_htlc b,
     offered_htlc = offered_htlc a + offered_htlc b,
     sweeping = sweeping a + sweeping b,
     stub_count = stub_count a + stub_count b,
     unconfirmed_count = unconfirmed_count a + unconfirmed_count b,
     channel_count = channel_count a + channel_count b,
     closing_count = closing_count a + closing_count b,
     received_htlc_count = received_htlc_count a + received_htlc_count b,
     offered_htlc_count = offered_htlc_count a + offered_htlc_count b\<rparr>"

section \<open>The state\<close>

type_synonym Signature = "512 word"
type_synonym CommitmentSignatures = "Signature \<times> Signature list"

record ChainState =
  current_height :: u32
  funding_depth :: u32
  funding_double_spent_depth :: u32
  closing_depth :: u32
  splice_pending :: bool

record PrevFundingCommitment =
  pf_outpoint :: OutPoint
  pf_current_holder_info :: "CommitmentInfo2 option"
  pf_current_holder_signatures :: "CommitmentSignatures option"
  pf_next_holder_info :: "(CommitmentInfo2 \<times> CommitmentSignatures) option"
  pf_current_counterparty_info :: "CommitmentInfo2 option"
  retiring_push_value_msat :: u64

record EnforcementState =
  next_holder_commit_num :: u64
  next_counterparty_commit_num :: u64
  next_counterparty_revoke_num :: u64
  current_counterparty_point :: "PublicKey option"
  previous_counterparty_point :: "PublicKey option"
  current_holder_commit_info :: "CommitmentInfo2 option"
  current_counterparty_signatures :: "CommitmentSignatures option"
  next_holder_commit_info :: "(CommitmentInfo2 \<times> CommitmentSignatures) option"
  current_counterparty_commit_info :: "CommitmentInfo2 option"
  previous_counterparty_commit_info :: "CommitmentInfo2 option"
  channel_closed :: bool
  initial_holder_value :: u64
  counterparty_secrets :: "CounterpartyCommitmentSecrets option"
  holder_commitment_funding :: "OutPoint option"
  prev_funding_commitment :: "PrevFundingCommitment option"
  counterparty_commitment_funding :: "OutPoint option"

definition enforcement_new :: "u64 \<Rightarrow> EnforcementState" where
  "enforcement_new holder_value =
     \<lparr>next_holder_commit_num = 0, next_counterparty_commit_num = 0,
      next_counterparty_revoke_num = 0, current_counterparty_point = None,
      previous_counterparty_point = None, current_holder_commit_info = None,
      current_counterparty_signatures = None, next_holder_commit_info = None,
      current_counterparty_commit_info = None, previous_counterparty_commit_info = None,
      channel_closed = False, initial_holder_value = holder_value,
      counterparty_secrets = Some secrets_new, holder_commitment_funding = None,
      prev_funding_commitment = None, counterparty_commitment_funding = None\<rparr>"

definition is_none_or :: "('a \<Rightarrow> bool) \<Rightarrow> 'a option \<Rightarrow> bool" where
  "is_none_or p o' = (case o' of None \<Rightarrow> True | Some x \<Rightarrow> p x)"

definition holder_commit_info_for :: "EnforcementState \<Rightarrow> OutPoint \<Rightarrow> CommitmentInfo2 option" where
  "holder_commit_info_for est view_outpoint =
     (if is_none_or (\<lambda>f. f = view_outpoint) (holder_commitment_funding est)
      then current_holder_commit_info est
      else case prev_funding_commitment est of
             Some prev \<Rightarrow> if pf_outpoint prev = view_outpoint then pf_current_holder_info prev else None
           | None \<Rightarrow> None)"

definition counterparty_commit_info_for ::
  "EnforcementState \<Rightarrow> OutPoint \<Rightarrow> CommitmentInfo2 option" where
  "counterparty_commit_info_for est view_outpoint =
     (if is_none_or (\<lambda>f. f = view_outpoint) (counterparty_commitment_funding est)
         \<and> current_counterparty_commit_info est \<noteq> None
      then current_counterparty_commit_info est
      else case prev_funding_commitment est of
             Some prev \<Rightarrow>
               if pf_outpoint prev = view_outpoint then pf_current_counterparty_info prev else None
           | None \<Rightarrow> None)"

definition within_epsilon_min :: "u64 \<Rightarrow> u64 \<Rightarrow> u64 \<Rightarrow> u64 option" where
  "within_epsilon_min epsilon hval cval =
     (if hval > cval then if hval - cval \<le> epsilon then Some cval else None
      else if cval - hval \<le> epsilon then Some hval else None)"

definition minimum_to_holder_value :: "EnforcementState \<Rightarrow> u64 \<Rightarrow> u64 option" where
  "minimum_to_holder_value est epsilon =
     (case (current_holder_commit_info est, current_counterparty_commit_info est) of
        (Some hinfo, Some cinfo) \<Rightarrow>
          within_epsilon_min epsilon (to_broadcaster_value_sat hinfo) (to_countersigner_value_sat cinfo)
      | _ \<Rightarrow> None)"

definition minimum_to_counterparty_value :: "EnforcementState \<Rightarrow> u64 \<Rightarrow> u64 option" where
  "minimum_to_counterparty_value est epsilon =
     (case (current_holder_commit_info est, current_counterparty_commit_info est) of
        (Some hinfo, Some cinfo) \<Rightarrow>
          within_epsilon_min epsilon (to_countersigner_value_sat hinfo) (to_broadcaster_value_sat cinfo)
      | _ \<Rightarrow> None)"

section \<open>Counter updates\<close>

definition estate_set_next_holder_commit_num ::
  "EnforcementState \<Rightarrow> u64 \<Rightarrow> CommitmentInfo2 \<Rightarrow> CommitmentSignatures \<Rightarrow>
   (EnforcementState, 'e) result" where
  "estate_set_next_holder_commit_num est num info sigs =
     and_then (assert_that (num = next_holder_commit_num est + 1)) (\<lambda>_.
       Ok (est\<lparr>next_holder_commit_num := num, current_holder_commit_info := Some info,
               current_counterparty_signatures := Some sigs\<rparr>))"

definition estate_set_next_counterparty_commit_num ::
  "EnforcementState \<Rightarrow> u64 \<Rightarrow> PublicKey \<Rightarrow> CommitmentInfo2 \<Rightarrow> (EnforcementState, 'e) result" where
  "estate_set_next_counterparty_commit_num est num point info =
     and_then (assert_that (num > 0)) (\<lambda>_.
       let current = next_counterparty_commit_num est;
           est =
             (if num = current + 1 then
                est\<lparr>previous_counterparty_point := current_counterparty_point est,
                    previous_counterparty_commit_info := current_counterparty_commit_info est,
                    current_counterparty_commit_info := None\<rparr>
              else if num > current + 1 \<or> num < current then
                est\<lparr>previous_counterparty_point := None,
                    previous_counterparty_commit_info := None\<rparr>
              else est);
           est =
             (if num \<ge> current + 1 then
                est\<lparr>current_counterparty_point := Some point,
                    current_counterparty_commit_info := Some info\<rparr>
              else est)
       in Ok (est\<lparr>next_counterparty_commit_num := num\<rparr>))"

definition get_previous_counterparty_point :: "EnforcementState \<Rightarrow> u64 \<Rightarrow> PublicKey option" where
  "get_previous_counterparty_point est num =
     (if num + 1 = next_counterparty_commit_num est then current_counterparty_point est
      else if num + 2 = next_counterparty_commit_num est then previous_counterparty_point est
      else None)"

definition get_previous_counterparty_commit_info ::
  "EnforcementState \<Rightarrow> u64 \<Rightarrow> CommitmentInfo2 option" where
  "get_previous_counterparty_commit_info est num =
     (if num + 1 = next_counterparty_commit_num est then current_counterparty_commit_info est
      else if num + 2 = next_counterparty_commit_num est then previous_counterparty_commit_info est
      else None)"

definition estate_set_next_counterparty_revoke_num ::
  "EnforcementState \<Rightarrow> u64 \<Rightarrow> (EnforcementState, 'e) result" where
  "estate_set_next_counterparty_revoke_num est num =
     and_then (assert_that (num \<noteq> 0)) (\<lambda>_.
       let est = (if num + 1 \<ge> next_counterparty_commit_num est
                  then est\<lparr>previous_counterparty_commit_info := None\<rparr> else est)
       in Ok (est\<lparr>next_counterparty_revoke_num := num\<rparr>))"

definition snapshot_funding_for_splice :: "EnforcementState \<Rightarrow> OutPoint \<Rightarrow> u64 \<Rightarrow> EnforcementState" where
  "snapshot_funding_for_splice est out retiring_push =
     est\<lparr>prev_funding_commitment := Some
           \<lparr>pf_outpoint = out, pf_current_holder_info = current_holder_commit_info est,
            pf_current_holder_signatures = current_counterparty_signatures est,
            pf_next_holder_info = next_holder_commit_info est,
            pf_current_counterparty_info = current_counterparty_commit_info est,
            retiring_push_value_msat = retiring_push\<rparr>,
         current_holder_commit_info := None, current_counterparty_signatures := None,
         next_holder_commit_info := None, current_counterparty_commit_info := None\<rparr>"

definition retire_prev_funding :: "EnforcementState \<Rightarrow> EnforcementState" where
  "retire_prev_funding est = est\<lparr>prev_funding_commitment := None\<rparr>"

text \<open>
  The guarded updates of the \<^verbatim>\<open>Validator\<close> trait, for the policy filter of the validator. The
  checks go through the filter; the assertions of the updates above do not.
\<close>

definition set_next_holder_commit_num ::
  "PolicyFilter \<Rightarrow> EnforcementState \<Rightarrow> u64 \<Rightarrow> CommitmentInfo2 \<Rightarrow> CommitmentSignatures \<Rightarrow>
   EnforcementState checked" where
  "set_next_holder_commit_num f est num info sigs =
     (let current = next_holder_commit_num est in
      and_then (policy_err_if f (num \<noteq> current \<and> num \<noteq> current + 1)
                  ''policy-revoke-new-commitment-signed'') (\<lambda>_.
      estate_set_next_holder_commit_num est num info sigs))"

definition get_current_holder_commitment_info ::
  "PolicyFilter \<Rightarrow> EnforcementState \<Rightarrow> u64 \<Rightarrow> CommitmentInfo2 checked" where
  "get_current_holder_commitment_info f est commitment_number =
     and_then (policy_err_if f (commitment_number + 1 \<noteq> next_holder_commit_num est) ''policy-other'') (\<lambda>_.
     expect (current_holder_commit_info est))"

definition set_next_counterparty_commit_num ::
  "PolicyFilter \<Rightarrow> EnforcementState \<Rightarrow> u64 \<Rightarrow> PublicKey \<Rightarrow> CommitmentInfo2 \<Rightarrow> bool \<Rightarrow>
   EnforcementState checked" where
  "set_next_counterparty_commit_num f est num point info funding_changed =
     and_then (policy_err_if f (num = 0) ''policy-other'') (\<lambda>_.
     let delta = (if num = 1 \<or> funding_changed then 1 else 2) in
     and_then (policy_err_if f (num < next_counterparty_revoke_num est + delta)
                 ''policy-commitment-previous-revoked'') (\<lambda>_.
     let current = next_counterparty_commit_num est in
     and_then (policy_err_if f (num \<noteq> current \<and> num \<noteq> current + 1)
                 ''policy-commitment-previous-revoked'') (\<lambda>_.
     estate_set_next_counterparty_commit_num est num point info)))"

definition set_next_counterparty_revoke_num ::
  "PolicyFilter \<Rightarrow> EnforcementState \<Rightarrow> u64 \<Rightarrow> EnforcementState checked" where
  "set_next_counterparty_revoke_num f est num =
     and_then (policy_err_if f (num = 0) ''policy-other'') (\<lambda>_.
     and_then (policy_err_if f (num + 2 < next_counterparty_commit_num est)
                 ''policy-commitment-previous-revoked'') (\<lambda>_.
     and_then (policy_err_if f (num + 1 > next_counterparty_commit_num est)
                 ''policy-commitment-previous-revoked'') (\<lambda>_.
     let current = next_counterparty_revoke_num est in
     and_then (policy_err_if f (num \<noteq> current \<and> num \<noteq> current + 1)
                 ''policy-commitment-previous-revoked'') (\<lambda>_.
     estate_set_next_counterparty_revoke_num est num))))"

section \<open>Payment summaries\<close>

type_synonym payment_map = "(PaymentHash \<times> u64) list"

definition summarize_payments :: "HTLCInfo2 list \<Rightarrow> payment_map" where
  "summarize_payments htlcs =
     foldl (\<lambda>summary h. entry_modify_or (\<lambda>e. e + value_sat h) (value_sat h) (payment_hash h) summary)
       [] htlcs"

definition htlcs_or_empty :: "(CommitmentInfo2 \<Rightarrow> HTLCInfo2 list) \<Rightarrow> CommitmentInfo2 option \<Rightarrow> HTLCInfo2 list" where
  "htlcs_or_empty side tx = (case tx of None \<Rightarrow> [] | Some info \<Rightarrow> side info)"

definition summarize_or_empty ::
  "(CommitmentInfo2 \<Rightarrow> HTLCInfo2 list) \<Rightarrow> CommitmentInfo2 option \<Rightarrow> payment_map" where
  "summarize_or_empty side tx = (case tx of None \<Rightarrow> [] | Some info \<Rightarrow> summarize_payments (side info))"

definition or_current :: "'a option \<Rightarrow> 'a option \<Rightarrow> 'a option" where
  "or_current new_tx cur = (case new_tx of None \<Rightarrow> cur | Some x \<Rightarrow> Some x)"

definition insert_zeros :: "HTLCInfo2 list \<Rightarrow> payment_map \<Rightarrow> payment_map" where
  "insert_zeros htlcs summary = foldl (\<lambda>s h. entry_or_insert 0 (payment_hash h) s) summary htlcs"

definition payments_summary ::
  "EnforcementState \<Rightarrow> CommitmentInfo2 option \<Rightarrow> CommitmentInfo2 option \<Rightarrow> payment_map" where
  "payments_summary est new_holder_tx new_counterparty_tx =
     (let holder_summary = summarize_or_empty offered_htlcs
            (or_current new_holder_tx (current_holder_commit_info est));
          counterparty_summary = summarize_or_empty received_htlcs
            (or_current new_counterparty_tx (current_counterparty_commit_info est));
          summary = foldl (\<lambda>s (k, v). entry_modify_or (\<lambda>e. max e v) v k s)
            holder_summary counterparty_summary;
          summary = insert_zeros (htlcs_or_empty offered_htlcs (current_holder_commit_info est)) summary
      in insert_zeros (htlcs_or_empty received_htlcs (current_counterparty_commit_info est)) summary)"

definition incoming_payments_summary ::
  "EnforcementState \<Rightarrow> CommitmentInfo2 option \<Rightarrow> CommitmentInfo2 option \<Rightarrow> payment_map" where
  "incoming_payments_summary est new_holder_tx new_counterparty_tx =
     (let holder_summary = summarize_or_empty received_htlcs
            (or_current new_holder_tx (current_holder_commit_info est));
          counterparty_summary = summarize_or_empty offered_htlcs
            (or_current new_counterparty_tx (current_counterparty_commit_info est));
          summary = filter (\<lambda>(k, _). map_of counterparty_summary k \<noteq> None) holder_summary;
          summary = foldl (\<lambda>s (k, v). case map_of s k of None \<Rightarrow> s
                                       | Some e \<Rightarrow> AList.update k (min e v) s)
            summary counterparty_summary;
          summary = insert_zeros (htlcs_or_empty received_htlcs (current_holder_commit_info est)) summary
      in insert_zeros (htlcs_or_empty offered_htlcs (current_counterparty_commit_info est)) summary)"

section \<open>Balances\<close>

definition min_opt :: "u64 option \<Rightarrow> u64 option \<Rightarrow> u64 option" where
  "min_opt a_opt b_opt =
     (case a_opt of
        Some a \<Rightarrow> (case b_opt of Some b \<Rightarrow> Some (min a b) | None \<Rightarrow> a_opt)
      | None \<Rightarrow> b_opt)"

text \<open>A new transaction whose totals do not fit its funding is an error, not an absent value.\<close>

definition flatten_or_err :: "u64 option \<Rightarrow> (u64 option, Status) result" where
  "flatten_or_err bal = (case bal of None \<Rightarrow> Err InvalidArgument | Some b \<Rightarrow> Ok (Some b))"

definition claimable_balances ::
  "EnforcementState \<Rightarrow> (PaymentHash \<Rightarrow> bool) \<Rightarrow> CommitmentInfo2 option \<Rightarrow> CommitmentInfo2 option \<Rightarrow>
   ChannelSetup \<Rightarrow> ChannelSetup option \<Rightarrow> (u64 \<times> u64, Status) result" where
  "claimable_balances est preimages new_holder_tx new_counterparty_tx setup prev_setup =
     and_then (assert_that (new_holder_tx \<noteq> None \<or> new_counterparty_tx \<noteq> None)) (\<lambda>_.
     and_then (assert_that (new_holder_tx = None \<or> new_counterparty_tx = None)) (\<lambda>_.
     let view = funding_outpoint setup;
         value_of = (\<lambda>value tx. claimable_balance tx preimages (is_outbound setup) value);
         straggler = (case prev_setup of Some p \<Rightarrow> funding_outpoint p = view | None \<Rightarrow> False);
         prev_value = map_option channel_value_sat prev_setup;
         snap = prev_funding_commitment est;
         cur_holder = (case (straggler, snap) of
             (True, Some s) \<Rightarrow> pf_current_holder_info s
           | _ \<Rightarrow> current_holder_commit_info est);
         cur_counterparty = (case (straggler, snap) of
             (True, Some s) \<Rightarrow> pf_current_counterparty_info s
           | _ \<Rightarrow> current_counterparty_commit_info est);
         prev_or_view = (case prev_value of Some v \<Rightarrow> v | None \<Rightarrow> channel_value_sat setup);
         cur_value = (if straggler then channel_value_sat setup else prev_or_view);
         cur_holder_value =
           (if holder_commitment_funding est = Some view then channel_value_sat setup else prev_or_view);
         cur_counterparty_value =
           (if counterparty_commitment_funding est = Some view then channel_value_sat setup
            else prev_or_view);
         cur_holder_bal = Option.bind cur_holder
           (value_of (if straggler then cur_value else cur_holder_value));
         cur_cp_bal = Option.bind cur_counterparty
           (value_of (if straggler then cur_value else cur_counterparty_value));
         cur_bal_opt = min_opt cur_holder_bal cur_cp_bal
     in and_then
          (case new_holder_tx of
             Some tx \<Rightarrow> flatten_or_err (value_of (channel_value_sat setup) tx)
           | None \<Rightarrow> Ok (Option.bind (holder_commit_info_for est view)
                          (value_of (channel_value_sat setup)))) (\<lambda>new_holder_bal.
        and_then
          (case new_counterparty_tx of
             Some tx \<Rightarrow> flatten_or_err (value_of (channel_value_sat setup) tx)
           | None \<Rightarrow> Ok (Option.bind (counterparty_commit_info_for est view)
                          (value_of (channel_value_sat setup)))) (\<lambda>new_cp_bal.
        and_then (expect (min_opt new_holder_bal new_cp_bal)) (\<lambda>new_bal.
        let cur_bal = (case cur_bal_opt of Some b \<Rightarrow> b | None \<Rightarrow> initial_holder_value est)
        in Ok (cur_bal, new_bal))))))"

definition channel_balance ::
  "EnforcementState \<Rightarrow> (PaymentHash \<Rightarrow> bool) \<Rightarrow> ChannelSetup \<Rightarrow> bool \<Rightarrow> (ChannelBalance, 'e) result" where
  "channel_balance est preimages setup is_ready =
     (case (current_holder_commit_info est, current_counterparty_commit_info est) of
        (Some holder_info, Some counterparty_info) \<Rightarrow>
          let value_of = (\<lambda>info. case claimable_balance info preimages (is_outbound setup)
                                         (channel_value_sat setup) of Some b \<Rightarrow> b | None \<Rightarrow> 0);
              cur_holder_bal = value_of holder_info;
              cur_cp_bal = value_of counterparty_info;
              (cur_bal, info) = (if cur_holder_bal < cur_cp_bal then (cur_holder_bal, holder_info)
                                 else (cur_cp_bal, counterparty_info))
          in and_then (htlc_balance info) (\<lambda>(received, offered, received_count, offered_count).
             let (claim, sweep) = (if channel_closed est then (0, cur_bal) else (cur_bal, 0));
                 (stubs, unconfirmed, channels, closings) =
                   (if channel_closed est then (0, 0, 0, 1)
                    else if is_ready then (0, 0, 1, 0) else (0, 1, 0, 0))
             in Ok \<lparr>claimable = claim, received_htlc = received, offered_htlc = offered,
                    sweeping = sweep, stub_count = stubs, unconfirmed_count = unconfirmed,
                    channel_count = channels, closing_count = closings,
                    received_htlc_count = received_count, offered_htlc_count = offered_count\<rparr>)
      | _ \<Rightarrow> Ok balance_zero)"

section \<open>What the summaries contain\<close>

abbreviation pays :: "PaymentHash \<Rightarrow> HTLCInfo2 list \<Rightarrow> bool" where
  "pays h hs \<equiv> h \<in> payment_hash ` set hs"

definition payment_total :: "PaymentHash \<Rightarrow> HTLCInfo2 list \<Rightarrow> u64" where
  "payment_total h hs = sum_list (map value_sat (filter (\<lambda>x. payment_hash x = h) hs))"

lemma payment_total_simps [simp]:
  "payment_total h [] = 0"
  "payment_total h (x # hs) = (if payment_hash x = h then value_sat x else 0) + payment_total h hs"
  by (simp_all add: payment_total_def)

lemma payment_total_absent: "\<not> pays h hs \<Longrightarrow> payment_total h hs = 0"
  by (induction hs) auto

lemma map_of_summarize_payments:
  "map_of (summarize_payments hs) h = (if pays h hs then Some (payment_total h hs) else None)"
proof -
  have "map_of (foldl (\<lambda>summary x. entry_modify_or (\<lambda>e. e + value_sat x) (value_sat x)
          (payment_hash x) summary) m hs) h =
      (if pays h hs
       then Some ((case map_of m h of None \<Rightarrow> 0 | Some e \<Rightarrow> e) + payment_total h hs)
       else map_of m h)" for m
  proof (induction hs arbitrary: m)
    case (Cons x hs)
    show ?case
      by (simp only: foldl_Cons Cons.IH)
        (auto simp: map_of_entry_modify_or payment_total_absent add.assoc split: option.split)
  qed simp
  then show ?thesis by (simp add: summarize_payments_def)
qed

lemma wf_map_foldl:
  "(\<And>m x. wf_map m \<Longrightarrow> wf_map (step m x)) \<Longrightarrow> wf_map m \<Longrightarrow> wf_map (foldl step m xs)"
  by (induction xs arbitrary: m) auto

lemma wf_map_summarize_payments: "wf_map (summarize_payments hs)"
  unfolding summarize_payments_def by (rule wf_map_foldl) (auto intro: wf_map_entry_modify_or)

lemma map_of_insert_zeros:
  "map_of (insert_zeros hs m) h =
     (case map_of m h of Some v \<Rightarrow> Some v | None \<Rightarrow> if pays h hs then Some 0 else None)"
  unfolding insert_zeros_def
proof (induction hs arbitrary: m)
  case (Cons x hs)
  show ?case
    by (simp only: foldl_Cons Cons.IH) (auto simp: map_of_entry_or_insert split: option.splits)
qed (simp split: option.split)

text \<open>Merging a map with distinct keys, key by key.\<close>

lemma map_of_foldl_max:
  "wf_map ys \<Longrightarrow>
   map_of (foldl (\<lambda>s (k, v). entry_modify_or (\<lambda>e. max e v) v k s) m ys) k =
     (case map_of ys k of None \<Rightarrow> map_of m k
      | Some v \<Rightarrow> Some (case map_of m k of None \<Rightarrow> v | Some e \<Rightarrow> max e v))"
  for m :: "('k \<times> 'v::linorder) list"
proof (induction ys arbitrary: m)
  case (Cons y ys)
  obtain a b where y: "y = (a, b)" by force
  with Cons.prems have "map_of ys a = None" by (force simp: map_of_eq_None_iff)
  with Cons y show ?case by (auto simp: map_of_entry_modify_or split: option.split)
qed simp

lemma map_of_foldl_min:
  "wf_map ys \<Longrightarrow>
   map_of (foldl (\<lambda>s (k, v). case map_of s k of None \<Rightarrow> s | Some e \<Rightarrow> AList.update k (min e v) s) m ys) k =
     (case (map_of m k, map_of ys k) of (Some e, Some v) \<Rightarrow> Some (min e v) | (e, _) \<Rightarrow> e)"
  for m :: "('k \<times> 'v::linorder) list"
proof (induction ys arbitrary: m)
  case (Cons y ys)
  obtain a b where y: "y = (a, b)" by force
  with Cons.prems have "map_of ys a = None" by (force simp: map_of_eq_None_iff)
  with Cons y show ?case by (auto split: option.split)
qed (simp split: option.split)

lemma map_of_summarize_or_empty:
  "map_of (summarize_or_empty side tx) h =
     (if pays h (htlcs_or_empty side tx) then Some (payment_total h (htlcs_or_empty side tx)) else None)"
  by (cases tx) (simp_all add: summarize_or_empty_def htlcs_or_empty_def map_of_summarize_payments)

lemma wf_map_summarize_or_empty: "wf_map (summarize_or_empty side tx)"
  by (cases tx) (simp_all add: summarize_or_empty_def wf_map_summarize_payments)

section \<open>The counters under the guarded updates\<close>

text \<open>
  The counterparty may be one commitment ahead of its revocations, plus the one being
  signed; before the first commitment both counters are zero. A counter that has reached
  the last number stays there.
\<close>

definition counters_ok :: "EnforcementState \<Rightarrow> bool" where
  "counters_ok est \<longleftrightarrow>
     (let c = unat (next_counterparty_commit_num est); r = unat (next_counterparty_revoke_num est)
      in c = 0 \<and> r = 0 \<or> r + 1 \<le> c \<and> c \<le> r + 2 \<or> c = 2 ^ 64 - 1)"

abbreviation counters_enforced :: "PolicyFilter \<Rightarrow> bool" where
  "counters_enforced f \<equiv> enforced f ''policy-commitment-previous-revoked''"

lemma set_next_counterparty_commit_num_frame:
  assumes "counters_enforced f"
    and "set_next_counterparty_commit_num f est num point info fc = Ok est'"
  shows "num \<noteq> 0 \<and> (num = next_counterparty_commit_num est \<or> num = next_counterparty_commit_num est + 1)
    \<and> next_counterparty_commit_num est' = num
    \<and> next_counterparty_revoke_num est' = next_counterparty_revoke_num est"
  using assms
  by (auto simp: set_next_counterparty_commit_num_def estate_set_next_counterparty_commit_num_def
      result_simps policy_simps Let_def split: if_splits)

lemma set_next_counterparty_commit_num_eq:
  assumes "counters_enforced f" "next_counterparty_commit_num est \<noteq> - 1"
  shows "set_next_counterparty_commit_num f est num point info fc = Ok est' \<Longrightarrow>
    num \<noteq> 0 \<and> (est' = est \<and> num = next_counterparty_commit_num est \<or>
     num = next_counterparty_commit_num est + 1 \<and>
     est' = est\<lparr>previous_counterparty_point := current_counterparty_point est,
                previous_counterparty_commit_info := current_counterparty_commit_info est,
                current_counterparty_point := Some point,
                current_counterparty_commit_info := Some info,
                next_counterparty_commit_num := num\<rparr>)"
  using assms less_plus_1 [OF assms(2)]
  by (auto simp: set_next_counterparty_commit_num_def estate_set_next_counterparty_commit_num_def
      result_simps policy_simps Let_def split: if_splits)

lemma set_next_counterparty_revoke_num_eq:
  assumes "counters_enforced f"
    and "set_next_counterparty_revoke_num f est num = Ok est'"
  shows "num \<noteq> 0 \<and> \<not> num + 2 < next_counterparty_commit_num est
    \<and> \<not> next_counterparty_commit_num est < num + 1
    \<and> (num = next_counterparty_revoke_num est \<or> num = next_counterparty_revoke_num est + 1)
    \<and> next_counterparty_revoke_num est' = num
    \<and> next_counterparty_commit_num est' = next_counterparty_commit_num est
    \<and> current_counterparty_point est' = current_counterparty_point est
    \<and> previous_counterparty_point est' = previous_counterparty_point est"
  using assms
  by (auto simp: set_next_counterparty_revoke_num_def estate_set_next_counterparty_revoke_num_def
      result_simps policy_simps Let_def split: if_splits)

lemma unat_Suc_no_wrap: "unat a < 2 ^ 64 - 1 \<Longrightarrow> unat (a + 1) = unat a + 1" for a :: u64
  by (subst unat_add_no_wrap) simp_all

lemma set_next_counterparty_commit_num_counters:
  assumes "counters_enforced f" "counters_ok est"
    and "set_next_counterparty_commit_num f est num point info fc = Ok est'"
    and "num - 1 \<le> next_counterparty_revoke_num est + 1"
  shows "counters_ok est'"
proof -
  note eq = set_next_counterparty_commit_num_frame [OF assms(1,3)]
  let ?c = "next_counterparty_commit_num est" and ?r = "next_counterparty_revoke_num est"
  show ?thesis
  proof (cases "num = ?c")
    case True
    with eq assms(2) show ?thesis by (simp add: counters_ok_def)
  next
    case False
    with eq have num: "num = ?c + 1" "num \<noteq> 0" by auto
    then have "?c \<noteq> - 1" by auto
    then have c: "unat ?c < 2 ^ 64 - 1" using unat_less_max [of ?c] by simp
    then have "unat num = unat ?c + 1" using num by (simp add: unat_Suc_no_wrap)
    moreover have "unat ?c \<le> unat ?r + 1"
      using assms(2,4) num c unat_Suc_no_wrap [of ?r]
      by (auto simp: counters_ok_def Let_def word_le_nat_alt)
    ultimately show ?thesis
      using assms(2) c eq by (auto simp: counters_ok_def Let_def)
  qed
qed

lemma set_next_counterparty_revoke_num_counters:
  assumes "counters_enforced f" "counters_ok est"
    and "set_next_counterparty_revoke_num f est num = Ok est'"
  shows "counters_ok est'"
proof -
  note eq = set_next_counterparty_revoke_num_eq [OF assms(1,3)]
  let ?c = "next_counterparty_commit_num est" and ?r = "next_counterparty_revoke_num est"
  show ?thesis
  proof (cases "num = ?r \<or> unat ?c = 2 ^ 64 - 1")
    case True
    with eq assms(2) show ?thesis by (auto simp: counters_ok_def Let_def)
  next
    case False
    then have num: "num = ?r + 1" "\<not> ?c < num + 1" "num \<noteq> 0" using eq by auto
    have c: "unat ?c < 2 ^ 64 - 1" using False unat_lt2p [of ?c] by simp
    then have r: "unat ?r < 2 ^ 64 - 1" using assms(2) by (auto simp: counters_ok_def Let_def)
    then have n: "unat num = unat ?r + 1" using num by (simp add: unat_Suc_no_wrap)
    show ?thesis
    proof (cases "unat num < 2 ^ 64 - 1")
      case True
      then have "unat (num + 1) = unat num + 1" by (rule unat_Suc_no_wrap)
      with num(2) n eq c assms(2) show ?thesis
        by (auto simp: counters_ok_def Let_def word_less_nat_alt)
    next
      case False
      with n c assms(2) show ?thesis by (auto simp: counters_ok_def Let_def)
    qed
  qed
qed

section \<open>Properties of summaries and balances\<close>

text \<open>
  The summary of outgoing payments gives, for every payment hash in the commitments
  considered, the larger of the two sums of its HTLCs; hashes that only the current
  commitments carry are reported as zero, and no other hash is reported.
\<close>

theorem payments_summary_lookup:
  "map_of (payments_summary est new_holder new_cp) h =
     (let offered = htlcs_or_empty offered_htlcs (or_current new_holder (current_holder_commit_info est));
          received = htlcs_or_empty received_htlcs (or_current new_cp (current_counterparty_commit_info est))
      in if pays h offered \<or> pays h received
         then Some (max (payment_total h offered) (payment_total h received))
         else if pays h (htlcs_or_empty offered_htlcs (current_holder_commit_info est))
                 \<or> pays h (htlcs_or_empty received_htlcs (current_counterparty_commit_info est))
         then Some 0 else None)"
  unfolding payments_summary_def Let_def
  by (auto simp: map_of_insert_zeros map_of_foldl_max wf_map_summarize_or_empty
      map_of_summarize_or_empty payment_total_absent)

text \<open>
  The summary of incoming payments counts a payment only when both commitments carry
  it, at the smaller of the two sums; hashes of the current commitments that are not in
  both are reported as zero.
\<close>

theorem incoming_payments_summary_lookup:
  "map_of (incoming_payments_summary est new_holder new_cp) h =
     (let received = htlcs_or_empty received_htlcs (or_current new_holder (current_holder_commit_info est));
          offered = htlcs_or_empty offered_htlcs (or_current new_cp (current_counterparty_commit_info est))
      in if pays h received \<and> pays h offered
         then Some (min (payment_total h received) (payment_total h offered))
         else if pays h (htlcs_or_empty received_htlcs (current_holder_commit_info est))
                 \<or> pays h (htlcs_or_empty offered_htlcs (current_counterparty_commit_info est))
         then Some 0 else None)"
proof -
  have "map_of (filter (\<lambda>(k, _). map_of (summarize_or_empty offered_htlcs cp) k \<noteq> None)
            (summarize_or_empty received_htlcs hl)) h =
        (if pays h (htlcs_or_empty received_htlcs hl) \<and> pays h (htlcs_or_empty offered_htlcs cp)
         then Some (payment_total h (htlcs_or_empty received_htlcs hl)) else None)" for hl cp
    using map_of_filter_key [of "\<lambda>k. map_of (summarize_or_empty offered_htlcs cp) k \<noteq> None"
        "summarize_or_empty received_htlcs hl" h]
    by (auto simp: map_of_summarize_or_empty split_beta)
  then show ?thesis
    unfolding incoming_payments_summary_def Let_def
    by (auto simp: map_of_insert_zeros map_of_foldl_min wf_map_summarize_or_empty
        map_of_summarize_or_empty split: option.splits)
qed

text \<open>
  C26: Given exactly one new commitment, the balances before and after it are always
  computed: the only error is a new commitment whose totals do not fit its funding, and
  the new balance is never above what the new commitment itself lets the holder claim.
\<close>

theorem claimable_balances_outcome:
  assumes "(new_holder = None) \<noteq> (new_cp = None)"
    and "new_tx = (case new_holder of Some tx \<Rightarrow> tx | None \<Rightarrow> the new_cp)"
  shows "case claimable_balance new_tx preimages (is_outbound setup) (channel_value_sat setup) of
      None \<Rightarrow> claimable_balances est preimages new_holder new_cp setup prev = Err InvalidArgument
    | Some b \<Rightarrow> \<exists>cur nb. claimable_balances est preimages new_holder new_cp setup prev = Ok (cur, nb)
                 \<and> nb \<le> b"
proof (cases "claimable_balance new_tx preimages (is_outbound setup) (channel_value_sat setup)")
  case None
  with assms show ?thesis
    by (cases new_holder; cases new_cp)
      (simp_all add: claimable_balances_def Let_def assert_that_def flatten_or_err_def)
next
  case (Some b)
  have "\<exists>c. min_opt (Some b) o' = Some c \<and> c \<le> b" "\<exists>c. min_opt o' (Some b) = Some c \<and> c \<le> b" for o'
    by (cases o'; simp add: min_opt_def)+
  with Some assms show ?thesis
    by (cases new_holder; cases new_cp)
      (fastforce simp: claimable_balances_def Let_def assert_that_def flatten_or_err_def result_simps)+
qed

definition example_setup :: ChannelSetup where
  "example_setup = \<lparr>is_outbound = True, channel_value_sat = 3000000, push_value_msat = 0,
     funding_outpoint = \<lparr>op_txid = 2, op_vout = 0\<rparr>, holder_selected_contest_delay = 6,
     holder_shutdown_script = None, counterparty_points = example_keys 20,
     counterparty_selected_contest_delay = 7, counterparty_shutdown_script = None,
     commitment_type = StaticRemoteKey\<rparr>"

definition example_info :: "bool \<Rightarrow> CommitmentInfo2" where
  "example_info cp = \<lparr>is_counterparty_broadcaster = cp, to_countersigner_value_sat = 1000000,
     to_broadcaster_value_sat = 1999000, offered_htlcs = [], received_htlcs = [],
     feerate_per_kw = 253\<rparr>"

theorem claimable_balances_outcome_witness:
  "case claimable_balance (example_info False) (\<lambda>_. False) True 3000000 of
     None \<Rightarrow> False
   | Some b \<Rightarrow> \<exists>cur nb. claimable_balances (enforcement_new 0) (\<lambda>_. False) (Some (example_info False))
                 None example_setup None = Ok (cur, nb) \<and> nb \<le> b"
proof -
  have "claimable_balance (example_info False) (\<lambda>_. False) True 3000000 = Some 2000000"
    by (simp add: claimable_balance_def example_info_def value_to_parties_def holder_htlcs_def
        total_value_def checked_sub_def checked_add_def)
  with claimable_balances_outcome [of "Some (example_info False)" None "example_info False"
      "enforcement_new 0" "\<lambda>_. False" example_setup None]
  show ?thesis by (simp add: example_setup_def)
qed

end
