(* ===== verification/Scripts.thy ===== *)
theory Scripts
  imports TxInfo
begin

text \<open>
  Decoding a commitment transaction from its output scripts:
  \<^verbatim>\<open>vls-core/src/tx/script.rs\<close> (the \<^verbatim>\<open>expect_*\<close> helpers) and the phase 1 part of
  \<^verbatim>\<open>vls-core/src/tx/tx.rs\<close> (the script templates and \<^verbatim>\<open>CommitmentInfo\<close>). An iterator over a
  script is what is left of the instruction list; an instruction the bitcoin library
  cannot parse is \<^const>\<open>None\<close>. Splitting bytes into instructions, reading script numbers and
  parsing public keys belong to that library and are parameters.
\<close>

section \<open>Instructions\<close>

type_synonym Opcode = u8

datatype Instruction = Op Opcode | PushBytes "u8 list"

type_synonym Instructions = "Instruction option list"

abbreviation OP_PUSHNUM_1 :: Opcode where "OP_PUSHNUM_1 \<equiv> 0x51"
abbreviation OP_PUSHNUM_2 :: Opcode where "OP_PUSHNUM_2 \<equiv> 0x52"
abbreviation OP_PUSHNUM_16 :: Opcode where "OP_PUSHNUM_16 \<equiv> 0x60"
abbreviation OP_IF :: Opcode where "OP_IF \<equiv> 0x63"
abbreviation OP_NOTIF :: Opcode where "OP_NOTIF \<equiv> 0x64"
abbreviation OP_ELSE :: Opcode where "OP_ELSE \<equiv> 0x67"
abbreviation OP_ENDIF :: Opcode where "OP_ENDIF \<equiv> 0x68"
abbreviation OP_IFDUP :: Opcode where "OP_IFDUP \<equiv> 0x73"
abbreviation OP_DROP :: Opcode where "OP_DROP \<equiv> 0x75"
abbreviation OP_DUP :: Opcode where "OP_DUP \<equiv> 0x76"
abbreviation OP_SWAP :: Opcode where "OP_SWAP \<equiv> 0x7c"
abbreviation OP_SIZE :: Opcode where "OP_SIZE \<equiv> 0x82"
abbreviation OP_EQUAL :: Opcode where "OP_EQUAL \<equiv> 0x87"
abbreviation OP_EQUALVERIFY :: Opcode where "OP_EQUALVERIFY \<equiv> 0x88"
abbreviation OP_HASH160 :: Opcode where "OP_HASH160 \<equiv> 0xa9"
abbreviation OP_CHECKSIG :: Opcode where "OP_CHECKSIG \<equiv> 0xac"
abbreviation OP_CHECKSIGVERIFY :: Opcode where "OP_CHECKSIGVERIFY \<equiv> 0xad"
abbreviation OP_CHECKMULTISIG :: Opcode where "OP_CHECKMULTISIG \<equiv> 0xae"
abbreviation OP_CLTV :: Opcode where "OP_CLTV \<equiv> 0xb1"
abbreviation OP_CSV :: Opcode where "OP_CSV \<equiv> 0xb2"

record ScriptLib = Ldk +
  instructions :: "Script \<Rightarrow> Instructions"
  push_num :: "Opcode \<Rightarrow> int option"
  read_scriptint :: "u8 list \<Rightarrow> int option"
  pubkey_from_slice :: "u8 list \<Rightarrow> PublicKey option"
  is_p2wpkh :: "Script \<Rightarrow> bool"
  address_from_script :: "Script \<Rightarrow> Script option"

definition expect_next :: "Instructions \<Rightarrow> (Instruction \<times> Instructions) checked" where
  "expect_next iter =
     (case iter of
        [] \<Rightarrow> Err mismatch_error
      | None # _ \<Rightarrow> Err mismatch_error
      | Some ins # rest \<Rightarrow> Ok (ins, rest))"

definition expect_op :: "Opcode \<Rightarrow> Instructions \<Rightarrow> Instructions checked" where
  "expect_op opc iter =
     and_then (expect_next iter) (\<lambda>(ins, rest).
       case ins of
         Op o' \<Rightarrow> if o' = opc then Ok rest else Err mismatch_error
       | _ \<Rightarrow> Err mismatch_error)"

definition expect_number :: "('a ScriptLib_scheme) \<Rightarrow> Instructions \<Rightarrow> (int \<times> Instructions) checked" where
  "expect_number lib iter =
     and_then (expect_next iter) (\<lambda>(ins, rest).
       case ins of
         Op o' \<Rightarrow> and_then (ok_or (push_num lib o') mismatch_error) (\<lambda>i. Ok (i, rest))
       | PushBytes d \<Rightarrow> and_then (ok_or (read_scriptint lib d) mismatch_error) (\<lambda>i. Ok (i, rest)))"

definition expect_script_end :: "Instructions \<Rightarrow> unit checked" where
  "expect_script_end iter = (if iter = [] then Ok () else Err mismatch_error)"

definition expect_data :: "Instructions \<Rightarrow> (u8 list \<times> Instructions) checked" where
  "expect_data iter =
     and_then (expect_next iter) (\<lambda>(ins, rest).
       case ins of PushBytes d \<Rightarrow> Ok (d, rest) | _ \<Rightarrow> Err mismatch_error)"

text \<open>A run of \<^verbatim>\<open>expect_op\<close> statements.\<close>

fun expect_ops :: "Opcode list \<Rightarrow> Instructions \<Rightarrow> Instructions checked" where
  "expect_ops [] iter = Ok iter"
| "expect_ops (opc # ops) iter = and_then (expect_op opc iter) (expect_ops ops)"

section \<open>Script templates\<close>

definition parse_received_htlc_script ::
  "('a ScriptLib_scheme) \<Rightarrow> Script \<Rightarrow> bool \<Rightarrow>
   (u8 list \<times> u8 list \<times> u8 list \<times> u8 list \<times> int) checked" where
  "parse_received_htlc_script lib script anchors =
     and_then (expect_ops [OP_DUP, OP_HASH160] (instructions lib script)) (\<lambda>iter.
     and_then (expect_data iter) (\<lambda>(revocation_hash, iter).
     and_then (expect_ops [OP_EQUAL, OP_IF, OP_CHECKSIG, OP_ELSE] iter) (\<lambda>iter.
     and_then (expect_data iter) (\<lambda>(remote_htlc_pubkey, iter).
     and_then (expect_ops [OP_SWAP, OP_SIZE] iter) (\<lambda>iter.
     and_then (expect_number lib iter) (\<lambda>(thirty_two, iter).
     and_then (err_if (thirty_two \<noteq> 32) mismatch_error) (\<lambda>_.
     and_then (expect_ops [OP_EQUAL, OP_IF, OP_HASH160] iter) (\<lambda>iter.
     and_then (expect_data iter) (\<lambda>(payment_hash_vec, iter).
     and_then (expect_ops [OP_EQUALVERIFY, OP_PUSHNUM_2, OP_SWAP] iter) (\<lambda>iter.
     and_then (expect_data iter) (\<lambda>(local_htlc_pubkey, iter).
     and_then (expect_ops [OP_PUSHNUM_2, OP_CHECKMULTISIG, OP_ELSE, OP_DROP] iter) (\<lambda>iter.
     and_then (expect_number lib iter) (\<lambda>(cltv, iter).
     and_then (expect_ops [OP_CLTV, OP_DROP, OP_CHECKSIG, OP_ENDIF] iter) (\<lambda>iter.
     and_then (if anchors then expect_ops [OP_PUSHNUM_1, OP_CSV, OP_DROP] iter else Ok iter) (\<lambda>iter.
     and_then (expect_ops [OP_ENDIF] iter) (\<lambda>iter.
     and_then (expect_script_end iter) (\<lambda>_.
     Ok (revocation_hash, remote_htlc_pubkey, payment_hash_vec, local_htlc_pubkey, cltv))))))))))))))))))"

definition parse_offered_htlc_script ::
  "('a ScriptLib_scheme) \<Rightarrow> Script \<Rightarrow> bool \<Rightarrow> (u8 list \<times> u8 list \<times> u8 list \<times> u8 list) checked" where
  "parse_offered_htlc_script lib script anchors =
     and_then (expect_ops [OP_DUP, OP_HASH160] (instructions lib script)) (\<lambda>iter.
     and_then (expect_data iter) (\<lambda>(revocation_hash, iter).
     and_then (expect_ops [OP_EQUAL, OP_IF, OP_CHECKSIG, OP_ELSE] iter) (\<lambda>iter.
     and_then (expect_data iter) (\<lambda>(remote_htlc_pubkey, iter).
     and_then (expect_ops [OP_SWAP, OP_SIZE] iter) (\<lambda>iter.
     and_then (expect_number lib iter) (\<lambda>(thirty_two, iter).
     and_then (err_if (thirty_two \<noteq> 32) mismatch_error) (\<lambda>_.
     and_then (expect_ops [OP_EQUAL, OP_NOTIF, OP_DROP, OP_PUSHNUM_2, OP_SWAP] iter) (\<lambda>iter.
     and_then (expect_data iter) (\<lambda>(local_htlc_pubkey, iter).
     and_then (expect_ops [OP_PUSHNUM_2, OP_CHECKMULTISIG, OP_ELSE, OP_HASH160] iter) (\<lambda>iter.
     and_then (expect_data iter) (\<lambda>(payment_hash_vec, iter).
     and_then (expect_ops [OP_EQUALVERIFY, OP_CHECKSIG, OP_ENDIF] iter) (\<lambda>iter.
     and_then (if anchors then expect_ops [OP_PUSHNUM_1, OP_CSV, OP_DROP] iter else Ok iter) (\<lambda>iter.
     and_then (expect_ops [OP_ENDIF] iter) (\<lambda>iter.
     and_then (expect_script_end iter) (\<lambda>_.
     Ok (revocation_hash, remote_htlc_pubkey, local_htlc_pubkey, payment_hash_vec))))))))))))))))"

definition parse_revokeable_redeemscript ::
  "('a ScriptLib_scheme) \<Rightarrow> Script \<Rightarrow> bool \<Rightarrow> (u8 list \<times> int \<times> u8 list) checked" where
  "parse_revokeable_redeemscript lib script anchors =
     and_then (expect_op OP_IF (instructions lib script)) (\<lambda>iter.
     and_then (expect_data iter) (\<lambda>(revocation_key, iter).
     and_then (expect_op OP_ELSE iter) (\<lambda>iter.
     and_then (expect_number lib iter) (\<lambda>(contest_delay, iter).
     and_then (expect_ops [OP_CSV, OP_DROP] iter) (\<lambda>iter.
     and_then (expect_data iter) (\<lambda>(delayed_pubkey, iter).
     and_then (expect_ops [OP_ENDIF, OP_CHECKSIG] iter) (\<lambda>iter.
     and_then (expect_script_end iter) (\<lambda>_.
     Ok (revocation_key, contest_delay, delayed_pubkey)))))))))"

definition parse_to_broadcaster_script ::
  "('a ScriptLib_scheme) \<Rightarrow> Script \<Rightarrow> (u8 list \<times> int \<times> u8 list) checked" where
  "parse_to_broadcaster_script lib script =
     and_then (expect_op OP_IF (instructions lib script)) (\<lambda>iter.
     and_then (expect_data iter) (\<lambda>(revocation_pubkey, iter).
     and_then (expect_op OP_ELSE iter) (\<lambda>iter.
     and_then (expect_number lib iter) (\<lambda>(delay, iter).
     and_then (expect_ops [OP_CSV, OP_DROP] iter) (\<lambda>iter.
     and_then (expect_data iter) (\<lambda>(delayed_pubkey, iter).
     and_then (expect_ops [OP_ENDIF, OP_CHECKSIG] iter) (\<lambda>iter.
     and_then (expect_script_end iter) (\<lambda>_.
     Ok (revocation_pubkey, delay, delayed_pubkey)))))))))"

definition parse_to_countersigner_delayed_script ::
  "('a ScriptLib_scheme) \<Rightarrow> Script \<Rightarrow> u8 list checked" where
  "parse_to_countersigner_delayed_script lib script =
     and_then (expect_data (instructions lib script)) (\<lambda>(pubkey_data, iter).
     and_then (expect_ops [OP_CHECKSIGVERIFY, OP_PUSHNUM_1, OP_CSV] iter) (\<lambda>iter.
     and_then (expect_script_end iter) (\<lambda>_. Ok pubkey_data)))"

definition parse_anchor_script :: "('a ScriptLib_scheme) \<Rightarrow> Script \<Rightarrow> u8 list checked" where
  "parse_anchor_script lib script =
     and_then (expect_data (instructions lib script)) (\<lambda>(to_pubkey_data, iter).
     and_then (expect_ops [OP_CHECKSIG, OP_IFDUP, OP_NOTIF, OP_PUSHNUM_16, OP_CSV, OP_ENDIF] iter) (\<lambda>iter.
     and_then (expect_script_end iter) (\<lambda>_. Ok to_pubkey_data)))"

section \<open>Decoding the outputs\<close>

definition MAX_DELAY :: int where "MAX_DELAY = 2016"
definition ANCHOR_SAT :: u64 where "ANCHOR_SAT = 330"

record HTLCInfo =
  hi_value_sat :: u64
  payment_hash_hash :: "u8 list"
  hi_cltv_expiry :: u32

record CommitmentInfo =
  ci_is_counterparty_broadcaster :: bool
  to_countersigner_address :: "Script option"
  to_countersigner_pubkey :: "PublicKey option"
  ci_to_countersigner_value_sat :: u64
  to_countersigner_anchor_count :: u16
  revocation_pubkey :: "PublicKey option"
  to_broadcaster_delayed_pubkey :: "PublicKey option"
  ci_to_broadcaster_value_sat :: u64
  to_self_delay :: u16
  to_broadcaster_anchor_count :: u16
  ci_offered_htlcs :: "HTLCInfo list"
  ci_received_htlcs :: "HTLCInfo list"

definition commitment_info_new :: "bool \<Rightarrow> CommitmentInfo" where
  "commitment_info_new cp =
     \<lparr>ci_is_counterparty_broadcaster = cp, to_countersigner_address = None,
      to_countersigner_pubkey = None, ci_to_countersigner_value_sat = 0,
      to_countersigner_anchor_count = 0, revocation_pubkey = None,
      to_broadcaster_delayed_pubkey = None, ci_to_broadcaster_value_sat = 0,
      to_self_delay = 0, to_broadcaster_anchor_count = 0, ci_offered_htlcs = [],
      ci_received_htlcs = []\<rparr>"

definition has_to_broadcaster :: "CommitmentInfo \<Rightarrow> bool" where
  "has_to_broadcaster info \<longleftrightarrow> to_broadcaster_delayed_pubkey info \<noteq> None"

definition has_to_countersigner :: "CommitmentInfo \<Rightarrow> bool" where
  "has_to_countersigner info \<longleftrightarrow>
     to_countersigner_address info \<noteq> None \<or> to_countersigner_pubkey info \<noteq> None"

definition to_broadcaster_anchor_value_sat :: "CommitmentInfo \<Rightarrow> u64" where
  "to_broadcaster_anchor_value_sat info =
     (if to_broadcaster_anchor_count info = 1 then ANCHOR_SAT else 0)"

definition to_countersigner_anchor_value_sat :: "CommitmentInfo \<Rightarrow> u64" where
  "to_countersigner_anchor_value_sat info =
     (if to_countersigner_anchor_count info = 1 then ANCHOR_SAT else 0)"

definition handle_to_broadcaster_output ::
  "('a ScriptLib_scheme) \<Rightarrow> CommitmentInfo \<Rightarrow> TxOut \<Rightarrow> u8 list \<times> int \<times> u8 list \<Rightarrow> CommitmentInfo checked" where
  "handle_to_broadcaster_output lib info out vals =
     (let (revocation, delay, delayed) = vals in
      and_then (err_if (has_to_broadcaster info) transaction_format_error) (\<lambda>_.
      and_then (err_if (delay < 0) script_format_error) (\<lambda>_.
      and_then (err_if (delay > MAX_DELAY) script_format_error) (\<lambda>_.
      and_then (ok_or (pubkey_from_slice lib delayed) mismatch_error) (\<lambda>delayed_key.
      and_then (ok_or (pubkey_from_slice lib revocation) mismatch_error) (\<lambda>revocation_key.
      Ok (info\<lparr>to_self_delay := of_int delay, ci_to_broadcaster_value_sat := txout_value out,
               to_broadcaster_delayed_pubkey := Some delayed_key,
               revocation_pubkey := Some revocation_key\<rparr>)))))))"

definition handle_to_countersigner_delayed_output ::
  "('a ScriptLib_scheme) \<Rightarrow> CommitmentInfo \<Rightarrow> TxOut \<Rightarrow> u8 list \<Rightarrow> CommitmentInfo checked" where
  "handle_to_countersigner_delayed_output lib info out pubkey_data =
     and_then (err_if (has_to_countersigner info) transaction_format_error) (\<lambda>_.
     and_then (ok_or (pubkey_from_slice lib pubkey_data) mismatch_error) (\<lambda>key.
     Ok (info\<lparr>to_countersigner_pubkey := Some key, ci_to_countersigner_value_sat := txout_value out\<rparr>)))"

definition handle_received_htlc_output ::
  "CommitmentInfo \<Rightarrow> TxOut \<Rightarrow> u8 list \<times> u8 list \<times> u8 list \<times> u8 list \<times> int \<Rightarrow> CommitmentInfo checked" where
  "handle_received_htlc_output info out vals =
     (let (_, _, payment_hash_vec, _, cltv) = vals in
      and_then (err_if (length payment_hash_vec \<noteq> 20) mismatch_error) (\<lambda>_.
      and_then (err_if (cltv < 0) script_format_error) (\<lambda>_.
      Ok (info\<lparr>ci_received_htlcs := ci_received_htlcs info @
            [\<lparr>hi_value_sat = txout_value out, payment_hash_hash = payment_hash_vec,
              hi_cltv_expiry = of_int cltv\<rparr>]\<rparr>))))"

definition handle_offered_htlc_output ::
  "CommitmentInfo \<Rightarrow> TxOut \<Rightarrow> u8 list \<times> u8 list \<times> u8 list \<times> u8 list \<Rightarrow> CommitmentInfo checked" where
  "handle_offered_htlc_output info out vals =
     (let (_, _, _, payment_hash_vec) = vals in
      and_then (err_if (length payment_hash_vec \<noteq> 20) mismatch_error) (\<lambda>_.
      Ok (info\<lparr>ci_offered_htlcs := ci_offered_htlcs info @
            [\<lparr>hi_value_sat = txout_value out, payment_hash_hash = payment_hash_vec,
              hi_cltv_expiry = 0\<rparr>]\<rparr>)))"

definition handle_anchor_output ::
  "('a ScriptLib_scheme) \<Rightarrow> PublicKey \<Rightarrow> ChannelSetup \<Rightarrow> CommitmentInfo \<Rightarrow> TxOut \<Rightarrow> u8 list \<Rightarrow>
   CommitmentInfo checked" where
  "handle_anchor_output lib holder_funding_pubkey setup info out to_pubkey_data =
     and_then (ok_or (pubkey_from_slice lib to_pubkey_data) mismatch_error) (\<lambda>to_pubkey.
     let counterparty_funding_pubkey = funding_pubkey (counterparty_points setup);
         (to_broadcaster, to_countersigner) =
           (if ci_is_counterparty_broadcaster info
            then (counterparty_funding_pubkey, holder_funding_pubkey)
            else (holder_funding_pubkey, counterparty_funding_pubkey))
     in and_then (err_if (txout_value out \<noteq> ANCHOR_SAT) mismatch_error) (\<lambda>_.
        if to_pubkey = to_broadcaster then
          Ok (info\<lparr>to_broadcaster_anchor_count := to_broadcaster_anchor_count info + 1\<rparr>)
        else if to_pubkey = to_countersigner then
          Ok (info\<lparr>to_countersigner_anchor_count := to_countersigner_anchor_count info + 1\<rparr>)
        else Err mismatch_error))"

definition handle_output ::
  "('a ScriptLib_scheme) \<Rightarrow> PublicKey \<Rightarrow> ChannelSetup \<Rightarrow> CommitmentInfo \<Rightarrow> TxOut \<Rightarrow> u8 list \<Rightarrow>
   CommitmentInfo checked" where
  "handle_output lib holder_funding_pubkey setup info out script_bytes =
     (if is_p2wpkh lib (script_pubkey out) then
        and_then (err_if (is_anchors setup) transaction_format_error) (\<lambda>_.
        and_then (err_if (has_to_countersigner info) transaction_format_error) (\<lambda>_.
        Ok (info\<lparr>to_countersigner_address := address_from_script lib (script_pubkey out),
                 ci_to_countersigner_value_sat := txout_value out\<rparr>)))
      else if is_p2wsh lib (script_pubkey out) then
        and_then (err_if (script_bytes = []) transaction_format_error) (\<lambda>_.
        and_then (err_if (script_pubkey out \<noteq> to_p2wsh lib script_bytes) transaction_format_error) (\<lambda>_.
        case parse_to_broadcaster_script lib script_bytes of
          Ok vals \<Rightarrow> handle_to_broadcaster_output lib info out vals
        | _ \<Rightarrow>
        (case parse_received_htlc_script lib script_bytes (is_anchors setup) of
           Ok vals \<Rightarrow> handle_received_htlc_output info out vals
         | _ \<Rightarrow>
        (case parse_offered_htlc_script lib script_bytes (is_anchors setup) of
           Ok vals \<Rightarrow> handle_offered_htlc_output info out vals
         | _ \<Rightarrow>
        (case parse_anchor_script lib script_bytes of
           Ok vals \<Rightarrow> handle_anchor_output lib holder_funding_pubkey setup info out vals
         | _ \<Rightarrow>
        (case (if is_anchors setup then parse_to_countersigner_delayed_script lib script_bytes
               else Err mismatch_error) of
           Ok vals \<Rightarrow> handle_to_countersigner_delayed_output lib info out vals
         | _ \<Rightarrow> Err transaction_format_error))))))
      else Err transaction_format_error)"

section \<open>What the parsers accept\<close>

abbreviation op_ins :: "Opcode \<Rightarrow> Instruction option" where
  "op_ins opc \<equiv> Some (Op opc)"

abbreviation data_ins :: "u8 list \<Rightarrow> Instruction option" where
  "data_ins d \<equiv> Some (PushBytes d)"

fun script_number :: "('a ScriptLib_scheme) \<Rightarrow> Instruction option \<Rightarrow> int option" where
  "script_number lib (Some (Op o')) = push_num lib o'"
| "script_number lib (Some (PushBytes d)) = read_scriptint lib d"
| "script_number lib None = None"

named_theorems parse_simps \<open>success of the expect functions as an equation on instructions\<close>

lemma expect_op_eq [parse_simps]: "expect_op opc iter = Ok rest \<longleftrightarrow> iter = op_ins opc # rest"
  by (auto simp: expect_op_def expect_next_def result_simps
      split: list.splits option.splits Instruction.splits)

lemma expect_ops_eq [parse_simps]:
  "expect_ops ops iter = Ok rest \<longleftrightarrow> iter = map op_ins ops @ rest"
  by (induction ops arbitrary: iter) (auto simp: result_simps parse_simps)

lemma expect_data_eq [parse_simps]: "expect_data iter = Ok (d, rest) \<longleftrightarrow> iter = data_ins d # rest"
  by (auto simp: expect_data_def expect_next_def result_simps
      split: list.splits option.splits Instruction.splits)

lemma expect_number_eq [parse_simps]:
  "expect_number lib iter = Ok (n, rest) \<longleftrightarrow> (\<exists>ins. iter = ins # rest \<and> script_number lib ins = Some n)"
  by (auto simp: expect_number_def expect_next_def result_simps
      split: list.splits option.splits Instruction.splits)

lemma expect_script_end_eq [parse_simps]: "expect_script_end iter = Ok u \<longleftrightarrow> iter = []"
  by (simp add: expect_script_end_def)

definition anchor_suffix :: "bool \<Rightarrow> Opcode list" where
  "anchor_suffix anchors = (if anchors then [OP_PUSHNUM_1, OP_CSV, OP_DROP] else [])"

lemma anchor_suffix_eq [parse_simps]:
  "(if anchors then expect_ops [OP_PUSHNUM_1, OP_CSV, OP_DROP] iter else Ok iter) = Ok rest \<longleftrightarrow>
   iter = map op_ins (anchor_suffix anchors) @ rest"
  by (simp add: anchor_suffix_def expect_ops_eq del: expect_ops.simps)

text \<open>The templates of BOLT 3 as instruction lists.\<close>

definition received_htlc_template ::
  "bool \<Rightarrow> u8 list \<Rightarrow> u8 list \<Rightarrow> Instruction option \<Rightarrow> u8 list \<Rightarrow> u8 list \<Rightarrow> Instruction option \<Rightarrow> Instructions" where
  "received_htlc_template anchors revocation remote thirty_two payment local cltv =
     map op_ins [OP_DUP, OP_HASH160] @ data_ins revocation
     # map op_ins [OP_EQUAL, OP_IF, OP_CHECKSIG, OP_ELSE] @ data_ins remote
     # map op_ins [OP_SWAP, OP_SIZE] @ thirty_two
     # map op_ins [OP_EQUAL, OP_IF, OP_HASH160] @ data_ins payment
     # map op_ins [OP_EQUALVERIFY, OP_PUSHNUM_2, OP_SWAP] @ data_ins local
     # map op_ins [OP_PUSHNUM_2, OP_CHECKMULTISIG, OP_ELSE, OP_DROP] @ cltv
     # map op_ins [OP_CLTV, OP_DROP, OP_CHECKSIG, OP_ENDIF] @ map op_ins (anchor_suffix anchors)
     @ map op_ins [OP_ENDIF]"

definition offered_htlc_template ::
  "bool \<Rightarrow> u8 list \<Rightarrow> u8 list \<Rightarrow> Instruction option \<Rightarrow> u8 list \<Rightarrow> u8 list \<Rightarrow> Instructions" where
  "offered_htlc_template anchors revocation remote thirty_two local payment =
     map op_ins [OP_DUP, OP_HASH160] @ data_ins revocation
     # map op_ins [OP_EQUAL, OP_IF, OP_CHECKSIG, OP_ELSE] @ data_ins remote
     # map op_ins [OP_SWAP, OP_SIZE] @ thirty_two
     # map op_ins [OP_EQUAL, OP_NOTIF, OP_DROP, OP_PUSHNUM_2, OP_SWAP] @ data_ins local
     # map op_ins [OP_PUSHNUM_2, OP_CHECKMULTISIG, OP_ELSE, OP_HASH160] @ data_ins payment
     # map op_ins [OP_EQUALVERIFY, OP_CHECKSIG, OP_ENDIF] @ map op_ins (anchor_suffix anchors)
     @ map op_ins [OP_ENDIF]"

lemma parse_received_htlc_script_eq:
  "parse_received_htlc_script lib script anchors = Ok (rvk, remote, payment, local, cltv) \<longleftrightarrow>
   (\<exists>n m. script_number lib n = Some 32 \<and> script_number lib m = Some cltv \<and>
      instructions lib script = received_htlc_template anchors rvk remote n payment local m)"
  unfolding parse_received_htlc_script_def received_htlc_template_def
  by (simp only: and_then_eq_Ok parse_simps err_if_eq split_paired_Ex prod.case) auto

lemma parse_offered_htlc_script_eq:
  "parse_offered_htlc_script lib script anchors = Ok (rvk, remote, local, payment) \<longleftrightarrow>
   (\<exists>n. script_number lib n = Some 32 \<and>
      instructions lib script = offered_htlc_template anchors rvk remote n local payment)"
  unfolding parse_offered_htlc_script_def offered_htlc_template_def
  by (simp only: and_then_eq_Ok parse_simps err_if_eq split_paired_Ex prod.case) auto

lemma parse_to_broadcaster_script_eq:
  "parse_to_broadcaster_script lib script = Ok (rvk, delay, delayed) \<longleftrightarrow>
   (\<exists>n. script_number lib n = Some delay \<and> instructions lib script =
      op_ins OP_IF # data_ins rvk # op_ins OP_ELSE # n # op_ins OP_CSV # op_ins OP_DROP
      # data_ins delayed # map op_ins [OP_ENDIF, OP_CHECKSIG])"
  unfolding parse_to_broadcaster_script_def
  by (simp only: and_then_eq_Ok parse_simps split_paired_Ex prod.case) auto

lemma parse_to_countersigner_delayed_script_eq:
  "parse_to_countersigner_delayed_script lib script = Ok key \<longleftrightarrow>
   instructions lib script = data_ins key # map op_ins [OP_CHECKSIGVERIFY, OP_PUSHNUM_1, OP_CSV]"
  unfolding parse_to_countersigner_delayed_script_def
  by (simp only: and_then_eq_Ok parse_simps split_paired_Ex prod.case) auto

lemma parse_anchor_script_eq:
  "parse_anchor_script lib script = Ok key \<longleftrightarrow>
   instructions lib script =
     data_ins key # map op_ins [OP_CHECKSIG, OP_IFDUP, OP_NOTIF, OP_PUSHNUM_16, OP_CSV, OP_ENDIF]"
  unfolding parse_anchor_script_def
  by (simp only: and_then_eq_Ok parse_simps split_paired_Ex prod.case) auto

lemmas parse_template_eqs =
  parse_received_htlc_script_eq parse_offered_htlc_script_eq parse_to_broadcaster_script_eq
  parse_to_countersigner_delayed_script_eq parse_anchor_script_eq

lemma is_ok_split: "P (is_ok r) \<longleftrightarrow> (\<forall>x. r = Ok x \<longrightarrow> P True) \<and> ((\<forall>x. r \<noteq> Ok x) \<longrightarrow> P False)"
  by (cases "is_ok r") (auto simp: is_ok_iff)

lemma received_offered_templates_differ:
  "received_htlc_template anchors r rm n p l m \<noteq> offered_htlc_template anchors r' rm' n' l' p'"
  by (simp add: received_htlc_template_def offered_htlc_template_def)

section \<open>Properties of the parsers\<close>

text \<open>
  C28: The parser of received HTLC scripts accepts exactly the template of BOLT 3, with the
  anchor suffix exactly when the channel has anchors, and returns the data pushed in it.
\<close>

theorem received_htlc_parser_exact:
  "parse_received_htlc_script lib script anchors = Ok (revocation, remote, payment, local, cltv) \<longleftrightarrow>
   (\<exists>n m. script_number lib n = Some 32 \<and> script_number lib m = Some cltv \<and>
      instructions lib script = received_htlc_template anchors revocation remote n payment local m)"
  by (rule parse_received_htlc_script_eq)

text \<open>
  The templates of a commitment transaction are mutually exclusive: at most one of the
  five parsers accepts a script, so that the order in which an output is tried does not
  matter.
\<close>

theorem output_templates_exclusive:
  "length (filter id
     [is_ok (parse_to_broadcaster_script lib script),
      is_ok (parse_received_htlc_script lib script anchors),
      is_ok (parse_offered_htlc_script lib script anchors),
      is_ok (parse_anchor_script lib script),
      is_ok (parse_to_countersigner_delayed_script lib script)]) \<le> 1"
  by (auto simp: parse_template_eqs received_offered_templates_differ
      received_htlc_template_def offered_htlc_template_def split: is_ok_split)

end
