(* ===== verification/SimpleValidator.thy ===== *)
theory SimpleValidator
  imports Enforcement Scripts
begin

text \<open>
  The policy checks of \<^verbatim>\<open>vls-core/src/policy/simple_validator.rs\<close>, function by function and in
  the order of the code. A check that the policy filter demotes continues with the next
  statement. The wallet is the trait of \<^verbatim>\<open>vls-core/src/wallet.rs\<close>, as a record of its
  functions; transaction weights, lock times and the transactions the lightning library
  builds are parameters.
\<close>

section \<open>Interfaces the checks use\<close>

record Wallet =
  can_spend :: "DerivationPath \<Rightarrow> Script \<Rightarrow> (bool, Status) result"
  allowlist_contains :: "Script \<Rightarrow> DerivationPath \<Rightarrow> bool"

record TxLib = ScriptLib +
  tx_weight :: "Transaction \<Rightarrow> nat"
  tx_base_size :: "Transaction \<Rightarrow> nat"
  height_from_consensus :: "u32 \<Rightarrow> u32 option"
  lock_time_is_satisfied_by :: "u32 \<Rightarrow> u32 \<Rightarrow> bool"
  htlc_timeout_tx_weight :: "ChannelTypeFeatures \<Rightarrow> u64"
  htlc_success_tx_weight :: "ChannelTypeFeatures \<Rightarrow> u64"
  built_closing_tx :: "u64 \<Rightarrow> u64 \<Rightarrow> Script \<Rightarrow> Script \<Rightarrow> OutPoint \<Rightarrow> Transaction"
  funding_script :: "PublicKey \<Rightarrow> PublicKey \<Rightarrow> Script"
  public_key_of :: "Secret \<Rightarrow> PublicKey"

record ClosingTransaction =
  ct_to_holder_value_sat :: u64
  ct_to_counterparty_value_sat :: u64
  ct_holder_script :: Script
  ct_counterparty_script :: Script
  ct_funding_outpoint :: OutPoint

text \<open>What the check of an on-chain transaction reads of a channel slot.\<close>

record FundedChannel =
  fc_setup :: ChannelSetup
  fc_estate :: EnforcementState
  fc_holder_funding_pubkey :: PublicKey

datatype SlotView = StubView | ReadyView FundedChannel

section \<open>Common checks\<close>

definition SAFE_COMMITMENT_TYPE :: "CommitmentType list" where
  "SAFE_COMMITMENT_TYPE = [StaticRemoteKey, AnchorsZeroFeeHtlc]"

definition MAX_CHAIN_LAG :: u32 where "MAX_CHAIN_LAG = 2"
definition ANCHOR_SEQS :: "u32 list" where "ANCHOR_SEQS = [1]"
definition NON_ANCHOR_SEQS :: "u32 list" where "NON_ANCHOR_SEQS = [0, 0xfffffffd, 0xffffffff]"

definition validate_delay :: "SimplePolicy \<Rightarrow> string \<Rightarrow> u32 \<Rightarrow> unit checked" where
  "validate_delay p name delay =
     (let tag = ''policy-channel-contest-delay-range-'' @ name in
      checks
        [policy_err_if (policy_filter p) (delay < ucast (min_delay p)) tag,
         policy_err_if (policy_filter p) (delay > ucast (max_delay p)) tag])"

definition validate_expiry :: "SimplePolicy \<Rightarrow> u32 \<Rightarrow> u32 \<Rightarrow> unit checked" where
  "validate_expiry p expiry height =
     (let tag = ''policy-commitment-htlc-cltv-range'' in
      checks
        [policy_err_if (policy_filter p) (expiry \<ge> MAX_CLTV_EXPIRY) tag,
         policy_err_if (policy_filter p)
           (use_chain_state p \<and> expiry < height + ucast (min_delay p)) tag,
         policy_err_if (policy_filter p)
           (use_chain_state p \<and> expiry > height + ucast (max_delay p)) tag])"

definition validate_fee :: "SimplePolicy \<Rightarrow> string \<Rightarrow> u64 \<Rightarrow> u64 \<Rightarrow> nat \<Rightarrow> unit checked" where
  "validate_fee p tag sum_inputs sum_outputs weight =
     and_then (ok_or (checked_sub sum_inputs sum_outputs) (policy_error tag)) (\<lambda>fee.
     and_then (estimate_feerate_per_kw fee (of_nat weight)) (\<lambda>feerate.
     checks
       [policy_err_if (policy_filter p) (feerate < min_feerate_per_kw p) tag,
        policy_err_if (policy_filter p) (feerate > max_feerate_per_kw p) tag]))"

definition validate_beneficial_value :: "SimplePolicy \<Rightarrow> u64 \<Rightarrow> u64 \<Rightarrow> nat \<Rightarrow> u64 checked" where
  "validate_beneficial_value p sum_our_inputs sum_our_outputs weight =
     and_then (ok_or (checked_sub sum_our_inputs sum_our_outputs)
                 (policy_error ''policy-onchain-format-standard'')) (\<lambda>non_beneficial.
     and_then (estimate_feerate_per_kw non_beneficial (of_nat weight)) (\<lambda>feerate.
     let flags = (case dev_flags p of Some fl \<Rightarrow> fl | None \<Rightarrow> DEFAULT_DEV_FLAGS) in
     and_then (policy_err_if (policy_filter p)
                 (feerate > max_feerate_per_kw p \<and> \<not> disable_beneficial_balance_checks flags)
                 ''policy-onchain-fee-range'') (\<lambda>_.
     Ok non_beneficial)))"

definition outside_epsilon_range :: "SimplePolicy \<Rightarrow> u64 \<Rightarrow> u64 \<Rightarrow> bool" where
  "outside_epsilon_range p value0 value1 =
     (if value0 > value1 then value0 - value1 > epsilon_sat p
      else value1 - value0 > epsilon_sat p)"

definition wallet_can_spend :: "Wallet \<Rightarrow> string \<Rightarrow> DerivationPath \<Rightarrow> Script \<Rightarrow> bool checked" where
  "wallet_can_spend w tag path script = map_err (\<lambda>_. policy_error tag) (can_spend w path script)"

fun validate_sweep_outputs :: "SimplePolicy \<Rightarrow> Wallet \<Rightarrow> DerivationPath \<Rightarrow> TxOut list \<Rightarrow> unit checked" where
  "validate_sweep_outputs p w path [] = Ok ()"
| "validate_sweep_outputs p w path (out # outs) =
     and_then (wallet_can_spend w ''policy-onchain-output-scriptpubkey'' path (script_pubkey out)) (\<lambda>spendable.
     and_then (policy_err_if (policy_filter p)
                 (\<not> spendable \<and> \<not> allowlist_contains w (script_pubkey out) path)
                 ''policy-sweep-destination-allowlisted'') (\<lambda>_.
     validate_sweep_outputs p w path outs))"

definition validate_sweep ::
  "('a TxLib_scheme) \<Rightarrow> SimplePolicy \<Rightarrow> Wallet \<Rightarrow> Transaction \<Rightarrow> u64 \<Rightarrow> DerivationPath \<Rightarrow> unit checked" where
  "validate_sweep lib p w tx amount_sat path =
     and_then (err_if (tx_version tx \<noteq> 2) transaction_format_error) (\<lambda>_.
     and_then
       (if length (tx_input tx) = 1 then
          validate_fee p ''policy-sweep-fee-range'' amount_sat
            (sum_list (map txout_value (tx_output tx)))
            (estimated_sweep_tx_weight (tx_weight lib) tx)
        else Ok ()) (\<lambda>_.
     validate_sweep_outputs p w path (tx_output tx)))"

section \<open>Channel parameters\<close>

definition validate_setup_channel ::
  "SimplePolicy \<Rightarrow> Wallet \<Rightarrow> ChannelSetup \<Rightarrow> DerivationPath \<Rightarrow> unit checked" where
  "validate_setup_channel p w setup path =
     and_then (policy_err_if (policy_filter p)
                 (commitment_type setup \<notin> set SAFE_COMMITMENT_TYPE) ''policy-channel-safe-type'') (\<lambda>_.
     and_then (validate_delay p ''holder'' (ucast (counterparty_selected_contest_delay setup))) (\<lambda>_.
     and_then (validate_delay p ''counterparty'' (ucast (holder_selected_contest_delay setup))) (\<lambda>_.
     case holder_shutdown_script setup of
       None \<Rightarrow> Ok ()
     | Some script \<Rightarrow>
         and_then (wallet_can_spend w ''policy-onchain-output-scriptpubkey'' path script) (\<lambda>spendable.
         policy_err_if (policy_filter p) (\<not> spendable \<and> \<not> allowlist_contains w script path)
           ''policy-mutual-destination-allowlisted''))))"

definition validate_channel_value :: "SimplePolicy \<Rightarrow> ChannelSetup \<Rightarrow> unit checked" where
  "validate_channel_value p setup =
     policy_err_if (policy_filter p) (channel_value_sat setup > max_channel_size_sat p)
       ''policy-funding-max''"

section \<open>On-chain transactions\<close>

definition add_beneficial_output :: "u64 \<Rightarrow> u64 \<Rightarrow> u64 checked" where
  "add_beneficial_output bsum val = ok_or (checked_add bsum val) (policy_error ''policy-onchain-fee-range'')"

definition validate_channel_output ::
  "('a TxLib_scheme) \<Rightarrow> SimplePolicy \<Rightarrow> FundedChannel \<Rightarrow> TxOut \<Rightarrow> u64 checked" where
  "validate_channel_output lib p chan out =
     (let setup = fc_setup chan; f = policy_filter p;
          script = funding_script lib (fc_holder_funding_pubkey chan)
                     (funding_pubkey (counterparty_points setup));
          push_val_sat = push_value_msat setup div 1000
      in and_then (checks
           [policy_err_if f (txout_value out \<noteq> channel_value_sat setup)
              ''policy-onchain-output-match-commitment'',
            policy_err_if f (script_pubkey out \<noteq> script) ''policy-onchain-output-scriptpubkey'',
            policy_err_if f (next_holder_commit_num (fc_estate chan) \<noteq> 1)
              ''policy-onchain-initial-commitment-countersigned'',
            policy_err_if f (\<not> is_outbound setup) ''policy-onchain-no-fund-inbound'',
            policy_err_if f (push_val_sat > 0) ''policy-onchain-no-channel-push'']) (\<lambda>_.
         ok_or (checked_sub (channel_value_sat setup) push_val_sat)
           (policy_error ''policy-onchain-fee-range'')))"

text \<open>One output: the new sum of beneficial value, and whether the output is unknown.\<close>

definition validate_onchain_output ::
  "('a TxLib_scheme) \<Rightarrow> SimplePolicy \<Rightarrow> Wallet \<Rightarrow> TxOut \<Rightarrow> DerivationPath \<Rightarrow> SlotView option \<Rightarrow> u64 \<Rightarrow>
   (u64 \<times> bool) checked" where
  "validate_onchain_output lib p w out opath slot bsum =
     (if opath \<noteq> [] then
        and_then (wallet_can_spend w ''policy-onchain-output-scriptpubkey'' opath (script_pubkey out)) (\<lambda>spendable.
        if spendable \<or> allowlist_contains w (script_pubkey out) opath then
          and_then (add_beneficial_output bsum (txout_value out)) (\<lambda>bsum. Ok (bsum, False))
        else
          and_then (policy_error_with_filter ''policy-onchain-no-unknown-outputs'' (policy_filter p)) (\<lambda>_.
          Ok (bsum, False)))
      else if allowlist_contains w (script_pubkey out) [] then
        and_then (add_beneficial_output bsum (txout_value out)) (\<lambda>bsum. Ok (bsum, False))
      else
        (case slot of
           Some (ReadyView chan) \<Rightarrow>
             and_then (validate_channel_output lib p chan out) (\<lambda>our_value.
             and_then (add_beneficial_output bsum our_value) (\<lambda>bsum. Ok (bsum, False)))
         | Some StubView \<Rightarrow> Panic
         | None \<Rightarrow> Ok (bsum, True)))"

fun validate_onchain_outputs ::
  "('a TxLib_scheme) \<Rightarrow> SimplePolicy \<Rightarrow> Wallet \<Rightarrow> nat \<Rightarrow> TxOut list \<Rightarrow> DerivationPath list \<Rightarrow>
   SlotView option list \<Rightarrow> u64 \<times> nat list \<Rightarrow> (u64 \<times> nat list) checked" where
  "validate_onchain_outputs lib p w outndx [] opaths slots acc = Ok acc"
| "validate_onchain_outputs lib p w outndx (out # outs) (opath # opaths) (slot # slots) (bsum, unknowns) =
     and_then (validate_onchain_output lib p w out opath slot bsum) (\<lambda>(bsum, unknown).
     validate_onchain_outputs lib p w (Suc outndx) outs opaths slots
       (bsum, if unknown then unknowns @ [outndx] else unknowns))"
| "validate_onchain_outputs lib p w outndx (out # outs) _ _ acc = Panic"

fun sum_inputs_checked :: "u64 list \<Rightarrow> u64 \<Rightarrow> u64 checked" where
  "sum_inputs_checked [] bsum = Ok bsum"
| "sum_inputs_checked (v # vs) bsum =
     and_then (ok_or (checked_add bsum v) (policy_error ''policy-onchain-fee-range'')) (sum_inputs_checked vs)"

definition validate_onchain_tx ::
  "('a TxLib_scheme) \<Rightarrow> SimplePolicy \<Rightarrow> Wallet \<Rightarrow> SlotView option list \<Rightarrow> Transaction \<Rightarrow> bool list \<Rightarrow>
   u64 list \<Rightarrow> DerivationPath list \<Rightarrow> nat \<Rightarrow> u64 checked" where
  "validate_onchain_tx lib p w channels tx segwit_flags values_sat opaths weight_lower_bound =
     (let f = policy_filter p in
      and_then (policy_err_if f (tx_version tx \<noteq> 2) ''policy-onchain-format-standard'') (\<lambda>_.
      and_then (policy_err_if f (tx_base_size lib tx > MAX_ONCHAIN_TX_SIZE) ''policy-onchain-max-size'') (\<lambda>_.
      and_then (if list_ex (\<lambda>c. c \<noteq> None) channels then
                  and_then (is_tx_non_malleable tx segwit_flags) (\<lambda>ok.
                  policy_err_if f (\<not> ok) ''policy-onchain-funding-non-malleable'')
                else Ok ()) (\<lambda>_.
      and_then (validate_onchain_outputs lib p w 0 (tx_output tx) opaths channels (0, []))
        (\<lambda>(beneficial_sum, unknowns).
      and_then (err_if (unknowns \<noteq> []) (unknown_destinations_error unknowns)) (\<lambda>_.
      and_then (sum_inputs_checked values_sat 0) (\<lambda>sum_inputs.
      validate_beneficial_value p sum_inputs beneficial_sum weight_lower_bound)))))))"

section \<open>Commitment transactions\<close>

fun handle_outputs ::
  "('a ScriptLib_scheme) \<Rightarrow> PublicKey \<Rightarrow> ChannelSetup \<Rightarrow> TxOut list \<Rightarrow> u8 list list \<Rightarrow> CommitmentInfo \<Rightarrow>
   CommitmentInfo checked" where
  "handle_outputs lib key setup [] witscripts info = Ok info"
| "handle_outputs lib key setup (out # outs) (ws # witscripts) info =
     and_then (handle_output lib key setup info out ws) (handle_outputs lib key setup outs witscripts)"
| "handle_outputs lib key setup (out # outs) [] info = Panic"

definition simple_decode_commitment_tx ::
  "('a ScriptLib_scheme) \<Rightarrow> SimplePolicy \<Rightarrow> PublicKey \<Rightarrow> ChannelSetup \<Rightarrow> bool \<Rightarrow> Transaction \<Rightarrow>
   u8 list list \<Rightarrow> CommitmentInfo checked" where
  "simple_decode_commitment_tx lib p key setup is_counterparty tx output_witscripts =
     and_then (policy_err_if (policy_filter p) (tx_version tx \<noteq> 2) ''policy-commitment-version'') (\<lambda>_.
     handle_outputs lib key setup (tx_output tx) output_witscripts (commitment_info_new is_counterparty))"

text \<open>The loop over the HTLCs of one direction, with the sum of their values so far.\<close>

fun validate_htlcs :: "SimplePolicy \<Rightarrow> u32 \<Rightarrow> u64 \<Rightarrow> HTLCInfo2 list \<Rightarrow> u64 \<Rightarrow> u64 checked" where
  "validate_htlcs p height dust_limit [] htlc_value_sat = Ok htlc_value_sat"
| "validate_htlcs p height dust_limit (htlc # htlcs) htlc_value_sat =
     and_then (validate_expiry p (cltv_expiry htlc) height) (\<lambda>_.
     and_then (ok_or (checked_add htlc_value_sat (value_sat htlc))
                 (policy_error ''policy-commitment-payment-velocity'')) (\<lambda>htlc_value_sat.
     and_then (policy_err_if (policy_filter p) (value_sat htlc < dust_limit)
                 ''policy-commitment-outputs-trimmed'') (\<lambda>_.
     validate_htlcs p height dust_limit htlcs htlc_value_sat)))"

definition htlc_dust_limit :: "(ChannelTypeFeatures \<Rightarrow> u64) \<Rightarrow> ChannelSetup \<Rightarrow> u32 \<Rightarrow> u64" where
  "htlc_dust_limit weight setup feerate =
     (if is_zero_fee_htlc setup then MIN_CHAN_DUST_LIMIT_SATOSHIS
      else MIN_DUST_LIMIT_SATOSHIS + ucast feerate * weight (features setup) div 1000)"

text \<open>What the fundee may carry over from the funding before a splice.\<close>

definition carried_fundee_sat :: "EnforcementState \<Rightarrow> ChannelSetup \<Rightarrow> u64" where
  "carried_fundee_sat est setup =
     (case prev_funding_commitment est of
        Some prev \<Rightarrow>
          if pf_outpoint prev \<noteq> funding_outpoint setup then
            (case (pf_current_counterparty_info prev, pf_current_holder_info prev) of
               (Some cp_info, _) \<Rightarrow> to_broadcaster_value_sat cp_info
             | (None, Some holder_info) \<Rightarrow> to_countersigner_value_sat holder_info
             | (None, None) \<Rightarrow> retiring_push_value_msat prev div 1000)
          else 0
      | None \<Rightarrow> 0)"

definition validate_commitment_tx ::
  "('a TxLib_scheme) \<Rightarrow> SimplePolicy \<Rightarrow> EnforcementState \<Rightarrow> u64 \<Rightarrow> ChannelSetup \<Rightarrow> ChainState \<Rightarrow>
   CommitmentInfo2 \<Rightarrow> unit checked" where
  "validate_commitment_tx lib p est commit_num setup cstate info =
     (let f = policy_filter p;
          num_htlcs = length (offered_htlcs info) + length (received_htlcs info)
      in and_then (checks
           [policy_err_if f (to_broadcaster_value_sat info > 0
                \<and> to_broadcaster_value_sat info < MIN_CHAN_DUST_LIMIT_SATOSHIS)
              ''policy-commitment-outputs-trimmed'',
            policy_err_if f (to_countersigner_value_sat info > 0
                \<and> to_countersigner_value_sat info < MIN_CHAN_DUST_LIMIT_SATOSHIS)
              ''policy-commitment-outputs-trimmed'',
            policy_err_if f (num_htlcs > max_htlcs p) ''policy-commitment-htlc-count-limit'']) (\<lambda>_.
         and_then (validate_htlcs p (current_height cstate)
             (htlc_dust_limit (htlc_timeout_tx_weight lib) setup (feerate_per_kw info))
             (offered_htlcs info) 0) (\<lambda>htlc_value_sat.
         and_then (validate_htlcs p (current_height cstate)
             (htlc_dust_limit (htlc_success_tx_weight lib) setup (feerate_per_kw info))
             (received_htlcs info) htlc_value_sat) (\<lambda>htlc_value_sat.
         and_then (policy_err_if f (htlc_value_sat > max_htlc_value_sat p)
             ''policy-commitment-htlc-inflight-limit'') (\<lambda>_.
         and_then (ok_or (checked_add (to_broadcaster_value_sat info) (to_countersigner_value_sat info))
             (policy_error ''policy-commitment-payment-velocity'')) (\<lambda>outputs.
         and_then (ok_or (checked_add outputs htlc_value_sat)
             (policy_error ''policy-commitment-payment-velocity'')) (\<lambda>sum_outputs.
         and_then (validate_fee p ''policy-commitment-fee-range'' (channel_value_sat setup) sum_outputs
             (expected_commitment_tx_weight (is_anchors setup) num_htlcs)) (\<lambda>_.
         if commit_num = 0 then
           checks
             [policy_err_if f (num_htlcs > 0) ''policy-commitment-first-no-htlcs'',
              policy_err_if f (is_outbound setup \<and>
                  snd (value_to_parties info) > push_value_msat setup div 1000 + carried_fundee_sat est setup)
                ''policy-commitment-initial-funding-value'']
         else Ok ()))))))))"

definition validate_counterparty_commitment_tx ::
  "('a TxLib_scheme) \<Rightarrow> SimplePolicy \<Rightarrow> EnforcementState \<Rightarrow> u64 \<Rightarrow> PublicKey \<Rightarrow> ChannelSetup \<Rightarrow>
   ChainState \<Rightarrow> CommitmentInfo2 \<Rightarrow> unit checked" where
  "validate_counterparty_commitment_tx lib p est commit_num commitment_point setup cstate info2 =
     (let f = policy_filter p; view = funding_outpoint setup in
      and_then (validate_commitment_tx lib p est commit_num setup cstate info2) (\<lambda>_.
      and_then (policy_err_if f (commit_num > next_counterparty_revoke_num est + 1)
          ''policy-commitment-previous-revoked'') (\<lambda>_.
      if commit_num + 1 = next_counterparty_commit_num est
         \<and> counterparty_commitment_funding est = Some view then
        let prev_commit_info =
          (if get_previous_counterparty_commit_info est commit_num \<noteq> None
           then get_previous_counterparty_commit_info est commit_num
           else counterparty_commit_info_for est view)
        in checks
          [policy_err_if f (current_counterparty_point est \<noteq> Some commitment_point)
             ''policy-commitment-retry-same'',
           policy_err_if f (Some info2 \<noteq> prev_commit_info) ''policy-commitment-retry-same'']
      else Ok ())))"

definition validate_holder_commitment_tx ::
  "('a TxLib_scheme) \<Rightarrow> SimplePolicy \<Rightarrow> EnforcementState \<Rightarrow> u64 \<Rightarrow> ChannelSetup \<Rightarrow> ChainState \<Rightarrow>
   CommitmentInfo2 \<Rightarrow> unit checked" where
  "validate_holder_commitment_tx lib p est commit_num setup cstate info2 =
     (let f = policy_filter p; view = funding_outpoint setup;
          retry = (commit_num + 1 = next_holder_commit_num est
                   \<and> holder_commitment_funding est = Some view)
      in and_then (validate_commitment_tx lib p est commit_num setup cstate info2) (\<lambda>_.
         if retry \<and> holder_commit_info_for est view = None then Ok ()
         else checks
           [policy_err_if f (retry \<and> holder_commit_info_for est view \<noteq> Some info2)
              ''policy-commitment-retry-same'',
            policy_err_if f (commit_num + 2 \<le> next_holder_commit_num est)
              ''policy-commitment-holder-not-revoked'',
            policy_err_if f (commit_num = next_holder_commit_num est \<and> channel_closed est)
              ''policy-commitment-spends-active-utxo'']))"

definition validate_counterparty_revocation ::
  "('a TxLib_scheme) \<Rightarrow> SimplePolicy \<Rightarrow> EnforcementState \<Rightarrow> u64 \<Rightarrow> Secret \<Rightarrow> unit checked" where
  "validate_counterparty_revocation lib p est revoke_num commitment_secret =
     checks
       [policy_err_if (policy_filter p)
          (revoke_num \<noteq> next_counterparty_revoke_num est \<and> revoke_num + 1 \<noteq> next_counterparty_revoke_num est)
          ''policy-commitment-previous-revoked'',
        policy_err_if (policy_filter p)
          (get_previous_counterparty_point est revoke_num \<noteq> Some (public_key_of lib commitment_secret))
          ''policy-commitment-previous-revoked'']"

record HTLCOutputInCommitment =
  htlc_is_offered :: bool
  htlc_amount_msat :: u64
  htlc_cltv_expiry :: u32
  htlc_payment_hash :: PaymentHash
  transaction_output_index :: "u32 option"

definition validate_htlc_tx ::
  "SimplePolicy \<Rightarrow> ChannelSetup \<Rightarrow> HTLCOutputInCommitment \<Rightarrow> u32 \<Rightarrow> unit checked" where
  "validate_htlc_tx p setup htlc feerate =
     checks
       [policy_err_if (policy_filter p) (htlc_is_offered htlc \<and> htlc_cltv_expiry htlc = 0)
          ''policy-htlc-locktime'',
        policy_err_if (policy_filter p) (\<not> is_zero_fee_htlc setup \<and> feerate < min_feerate_per_kw p)
          ''policy-htlc-fee-range'',
        policy_err_if (policy_filter p) (feerate > max_feerate_per_kw p) ''policy-htlc-fee-range'']"

section \<open>Mutual close\<close>

definition validate_mutual_close_tx ::
  "('a TxLib_scheme) \<Rightarrow> SimplePolicy \<Rightarrow> Wallet \<Rightarrow> ChannelSetup \<Rightarrow> EnforcementState \<Rightarrow> u64 \<Rightarrow> u64 \<Rightarrow>
   Script option \<Rightarrow> Script option \<Rightarrow> DerivationPath \<Rightarrow> unit checked" where
  "validate_mutual_close_tx lib p w setup est to_holder to_counterparty holder_script
      counterparty_script path_hint =
     (let f = policy_filter p;
          missing = policy_error ''policy-mutual-value-matches-commitment'';
          matches = ''policy-mutual-value-matches-commitment'';
          allowed = ''policy-mutual-destination-allowlisted''
      in and_then (ok_or (current_holder_commit_info est) missing) (\<lambda>holder_info.
         and_then (ok_or (current_counterparty_commit_info est) missing) (\<lambda>counterparty_info.
         and_then (checks
           [policy_err_if f (to_holder > 0 \<and> holder_script = None) allowed,
            policy_err_if f (to_counterparty > 0 \<and> counterparty_script = None) allowed,
            policy_err_if f (holder_shutdown_script setup \<noteq> None \<and> to_holder > 0
                \<and> holder_script \<noteq> holder_shutdown_script setup) allowed,
            policy_err_if f (\<not> htlcs_is_empty holder_info \<or> \<not> htlcs_is_empty counterparty_info)
              ''policy-mutual-no-pending-htlcs'']) (\<lambda>_.
         let weight = mutual_close_tx_weight (tx_weight lib)
               (built_closing_tx lib to_holder to_counterparty
                  (case holder_script of Some s \<Rightarrow> s | None \<Rightarrow> [])
                  (case counterparty_script of Some s \<Rightarrow> s | None \<Rightarrow> []) (funding_outpoint setup))
         in and_then (ok_or (checked_add to_holder to_counterparty) missing) (\<lambda>sum_outputs.
         and_then (validate_fee p ''policy-mutual-fee-range'' (channel_value_sat setup) sum_outputs weight) (\<lambda>_.
         and_then (if is_outbound setup then checks
             [policy_err_if f (outside_epsilon_range p to_counterparty
                 (to_broadcaster_value_sat counterparty_info)) matches,
              policy_err_if f (outside_epsilon_range p to_counterparty
                 (to_countersigner_value_sat holder_info)) matches]
           else checks
             [policy_err_if f (outside_epsilon_range p to_holder
                 (to_broadcaster_value_sat holder_info)) matches,
              policy_err_if f (outside_epsilon_range p to_holder
                 (to_countersigner_value_sat counterparty_info)) matches]) (\<lambda>_.
         case holder_script of
           None \<Rightarrow> Ok ()
         | Some script \<Rightarrow>
             and_then (wallet_can_spend w ''policy-mutual-scripts'' path_hint script) (\<lambda>spendable.
             policy_err_if f (\<not> spendable \<and> \<not> allowlist_contains w script path_hint) allowed))))))))"

text \<open>Which output is whose: the holder's value, the counterparty's, their scripts, the path.\<close>

type_synonym ValidateArgs = "u64 \<times> u64 \<times> Script option \<times> Script option \<times> DerivationPath"

definition mutual_close_args ::
  "Transaction \<Rightarrow> DerivationPath list \<Rightarrow> bool \<Rightarrow> (ValidateArgs \<times> ValidateArgs, 'e) result" where
  "mutual_close_args tx paths holder_value_is_larger =
     (case (tx_output tx, paths) of
        ([out], [path]) \<Rightarrow>
          let holders = (txout_value out, 0, Some (script_pubkey out), None, path);
              cpartys = (0, txout_value out, None, Some (script_pubkey out), [])
          in Ok (if holder_value_is_larger then (holders, cpartys) else (cpartys, holders))
      | ([out0, out1], [path0, path1]) \<Rightarrow>
          let holder_first = (txout_value out0, txout_value out1, Some (script_pubkey out0),
                              Some (script_pubkey out1), path0);
              cparty_first = (txout_value out1, txout_value out0, Some (script_pubkey out1),
                              Some (script_pubkey out0), path1)
          in Ok (if holder_value_is_larger then (cparty_first, holder_first)
                 else (holder_first, cparty_first))
      | _ \<Rightarrow> Panic)"

definition option_gt :: "u64 option \<Rightarrow> u64 option \<Rightarrow> bool" where
  "option_gt a b = (case (a, b) of (Some x, Some y) \<Rightarrow> x > y | (Some _, None) \<Rightarrow> True | _ \<Rightarrow> False)"

definition decode_and_validate_mutual_close_tx ::
  "('a TxLib_scheme) \<Rightarrow> SimplePolicy \<Rightarrow> Wallet \<Rightarrow> ChannelSetup \<Rightarrow> EnforcementState \<Rightarrow> Transaction \<Rightarrow>
   DerivationPath list \<Rightarrow> ClosingTransaction checked" where
  "decode_and_validate_mutual_close_tx lib p w setup est tx wallet_paths =
     (let f = policy_filter p;
          validate = (\<lambda>(to_holder, to_cp, hscript, cscript, path).
            validate_mutual_close_tx lib p w setup est to_holder to_cp hscript cscript path)
      in and_then (err_if (length (tx_output tx) > 2) transaction_format_error) (\<lambda>_.
         and_then (assert_that (length wallet_paths = length (tx_output tx))) (\<lambda>_.
         and_then (checks
           [policy_err_if f (current_holder_commit_info est = None) ''policy-mutual-other'',
            policy_err_if f (current_counterparty_commit_info est = None) ''policy-mutual-other'']) (\<lambda>_.
         let larger = option_gt (minimum_to_holder_value est (epsilon_sat p))
                                (minimum_to_counterparty_value est (epsilon_sat p))
         in and_then (mutual_close_args tx wallet_paths larger) (\<lambda>(likely, unlikely).
         and_then
           (case validate likely of
              Ok _ \<Rightarrow> Ok likely
            | Err e \<Rightarrow> (case validate unlikely of Ok _ \<Rightarrow> Ok unlikely | Err _ \<Rightarrow> Err e | Panic \<Rightarrow> Panic)
            | Panic \<Rightarrow> Panic) (\<lambda>(to_holder, to_cp, hscript, cscript, _).
         let closing =
               \<lparr>ct_to_holder_value_sat = to_holder, ct_to_counterparty_value_sat = to_cp,
                ct_holder_script = (case hscript of Some s \<Rightarrow> s | None \<Rightarrow> []),
                ct_counterparty_script = (case cscript of Some s \<Rightarrow> s | None \<Rightarrow> []),
                ct_funding_outpoint = funding_outpoint setup\<rparr>;
             recomposed = built_closing_tx lib to_holder to_cp (ct_holder_script closing)
               (ct_counterparty_script closing) (funding_outpoint setup)
         in and_then (policy_err_if f (recomposed \<noteq> tx) ''policy-onchain-format-standard'') (\<lambda>_.
            Ok closing)))))))"

section \<open>Sweeps\<close>

definition locktime_satisfied :: "('a TxLib_scheme) \<Rightarrow> ChainState \<Rightarrow> Transaction \<Rightarrow> bool checked" where
  "locktime_satisfied lib cstate tx =
     and_then (expect (height_from_consensus lib (current_height cstate + MAX_CHAIN_LAG))) (\<lambda>height.
     Ok (lock_time_is_satisfied_by lib (lock_time tx) height))"

definition first_sequence :: "Transaction \<Rightarrow> (u32, 'e) result" where
  "first_sequence tx = (case tx_input tx of inp # _ \<Rightarrow> Ok (tx_sequence inp) | [] \<Rightarrow> Panic)"

definition validate_delayed_sweep ::
  "('a TxLib_scheme) \<Rightarrow> SimplePolicy \<Rightarrow> Wallet \<Rightarrow> ChannelSetup \<Rightarrow> ChainState \<Rightarrow> Transaction \<Rightarrow> u64 \<Rightarrow>
   DerivationPath \<Rightarrow> unit checked" where
  "validate_delayed_sweep lib p w setup cstate tx amount_sat path =
     and_then (validate_sweep lib p w tx amount_sat path) (\<lambda>_.
     and_then (locktime_satisfied lib cstate tx) (\<lambda>ok.
     and_then (err_if (\<not> ok) transaction_format_error) (\<lambda>_.
     and_then (first_sequence tx) (\<lambda>sq.
     err_if (sq \<noteq> ucast (counterparty_selected_contest_delay setup)) transaction_format_error))))"

definition validate_counterparty_htlc_sweep ::
  "('a TxLib_scheme) \<Rightarrow> SimplePolicy \<Rightarrow> Wallet \<Rightarrow> ChannelSetup \<Rightarrow> ChainState \<Rightarrow> Transaction \<Rightarrow> Script \<Rightarrow>
   u64 \<Rightarrow> DerivationPath \<Rightarrow> unit checked" where
  "validate_counterparty_htlc_sweep lib p w setup cstate tx redeemscript amount_sat path =
     and_then (validate_sweep lib p w tx amount_sat path) (\<lambda>_.
     and_then
       (case parse_received_htlc_script lib redeemscript (is_anchors setup) of
          Ok (_, _, _, _, cltv) \<Rightarrow>
            and_then (err_if (cltv < 0 \<or> cltv > 2 ^ 32 - 1) transaction_format_error) (\<lambda>_.
            err_if (lock_time tx > of_int cltv) transaction_format_error)
        | _ \<Rightarrow>
          (case parse_offered_htlc_script lib redeemscript (is_anchors setup) of
             Ok _ \<Rightarrow>
               and_then (locktime_satisfied lib cstate tx) (\<lambda>ok.
               err_if (\<not> ok) transaction_format_error)
           | _ \<Rightarrow> Err transaction_format_error)) (\<lambda>_.
     and_then (first_sequence tx) (\<lambda>sq.
     let valid_seqs = (if is_anchors setup then ANCHOR_SEQS else NON_ANCHOR_SEQS)
     in err_if (sq \<notin> set valid_seqs) transaction_format_error)))"

definition validate_justice_sweep ::
  "('a TxLib_scheme) \<Rightarrow> SimplePolicy \<Rightarrow> Wallet \<Rightarrow> ChainState \<Rightarrow> Transaction \<Rightarrow> u64 \<Rightarrow>
   DerivationPath \<Rightarrow> unit checked" where
  "validate_justice_sweep lib p w cstate tx amount_sat path =
     and_then (validate_sweep lib p w tx amount_sat path) (\<lambda>_.
     and_then (locktime_satisfied lib cstate tx) (\<lambda>ok.
     and_then (err_if (\<not> ok) transaction_format_error) (\<lambda>_.
     and_then (first_sequence tx) (\<lambda>sq.
     err_if (sq \<notin> set NON_ANCHOR_SEQS) transaction_format_error))))"

section \<open>Payments\<close>

definition validate_payment_balance ::
  "SimplePolicy \<Rightarrow> u64 \<Rightarrow> u64 \<Rightarrow> u64 option \<Rightarrow> unit checked" where
  "validate_payment_balance p incoming_msat outgoing_msat invoiced_amount_msat =
     (let max_to_invoice_msat =
            (case invoiced_amount_msat of Some a \<Rightarrow> a + max_routing_fee_msat p | None \<Rightarrow> 0)
      in and_then (policy_err_if (policy_filter p) (incoming_msat + max_to_invoice_msat < outgoing_msat)
           ''policy-routing-balanced'') (\<lambda>_.
         case invoiced_amount_msat of
           None \<Rightarrow> Ok ()
         | Some invoiced \<Rightarrow>
             if invoiced + incoming_msat > outgoing_msat then Ok ()
             else
               let fee = outgoing_msat - invoiced - incoming_msat in
               and_then (ok_or (checked_mul fee 100) (policy_error ''policy-commitment-payment-velocity'')) (\<lambda>fee100.
               policy_err_if (policy_filter p)
                 (fee100 div max invoiced 1 > ucast (max_feerate_percentage p))
                 ''policy-htlc-fee-range'')))"

definition validate_payment_cltv :: "SimplePolicy \<Rightarrow> u32 \<Rightarrow> u32 \<Rightarrow> unit checked" where
  "validate_payment_cltv p incoming_cltv outgoing_cltv =
     checks
       [policy_err_if (policy_filter p) (incoming_cltv \<le> outgoing_cltv) ''policy-routing-cltv-delta'',
        policy_err_if (policy_filter p) (incoming_cltv - outgoing_cltv < cltv_delta p)
          ''policy-routing-cltv-delta'']"

definition simple_minimum_initial_balance :: "u64 \<Rightarrow> u64" where
  "simple_minimum_initial_balance holder_value_msat = holder_value_msat div 1000"

definition simple_is_ready :: "ChainState \<Rightarrow> bool" where
  "simple_is_ready cstate \<longleftrightarrow> funding_depth cstate > 0 \<and> closing_depth cstate = 0"

end
