(* ===== verification/ValidatorSafety.thy ===== *)
theory ValidatorSafety
  imports SimpleValidator
begin

text \<open>
  What the checks of \<^verbatim>\<open>vls-core/src/policy/simple_validator.rs\<close> guarantee when they accept:
  commitment transactions, on-chain transactions, sweeps, mutual closes and the balance of
  payments. Values are compared as natural numbers, so that no wrap-around is hidden.
\<close>

section \<open>What an accepted check guarantees\<close>

text \<open>
  The guarantees hold for a policy whose filter demotes nothing, as the default policies.
\<close>

definition strict :: "SimplePolicy \<Rightarrow> bool" where
  "strict p \<longleftrightarrow> (\<forall>tag. enforced (policy_filter p) tag)"

lemma strict_default [simp]: "strict (make_default_simple_policy network)"
  by (simp add: strict_def make_default_simple_policy_def)

lemma strict_enforced [simp]: "strict p \<Longrightarrow> enforced (policy_filter p) tag"
  by (simp add: strict_def)

lemma estimate_feerate_eq_Ok:
  "estimate_feerate_per_kw fee weight = Ok r \<longleftrightarrow>
   weight \<noteq> 0 \<and> r = ucast ((fee * 1000 + 999) div weight)"
  by (auto simp: estimate_feerate_per_kw_def)

text \<open>While the fee stays below what 32 bits of fee rate can express, the estimate is exact.\<close>

lemma estimate_feerate_exact:
  assumes "estimate_feerate_per_kw fee (of_nat weight) = Ok r"
    and "0 < weight" "weight < 2 ^ 32" "unat fee * 1000 + 999 < 2 ^ 32 * weight"
  shows "unat r = (unat fee * 1000 + 999) div weight"
proof -
  have w: "unat (of_nat weight :: u64) = weight"
    using assms(3) by (simp add: unat_of_nat)
  have "2 ^ 32 * weight < 2 ^ 32 * 2 ^ 32" using assms(3) by simp
  then have big: "unat fee * 1000 + 999 < 2 ^ 64" using assms(4) by simp
  have "unat (fee * 1000) = unat fee * 1000"
    using big by (subst unat_mult_no_wrap) simp_all
  then have num: "unat (fee * 1000 + 999) = unat fee * 1000 + 999"
    using big by (subst unat_add_no_wrap) simp_all
  have "unat ((fee * 1000 + 999) div of_nat weight :: u64) = (unat fee * 1000 + 999) div weight"
    by (simp add: unat_div num w)
  moreover have "(unat fee * 1000 + 999) div weight < 2 ^ 32"
    using assms(2,4) by (simp add: div_less_iff_less_mult)
  ultimately show ?thesis
    using assms(1) by (simp add: estimate_feerate_eq_Ok unsigned_ucast_eq take_bit_nat_eq_self)
qed

lemma validate_fee_exact:
  assumes "validate_fee p tag sum_in sum_out weight = Ok u" "strict p"
    and "0 < weight" "weight < 2 ^ 32" "unat sum_in * 1000 + 999 < 2 ^ 32 * weight"
  shows "unat sum_out \<le> unat sum_in \<and>
    (let rate = ((unat sum_in - unat sum_out) * 1000 + 999) div weight
     in unat (min_feerate_per_kw p) \<le> rate \<and> rate \<le> unat (max_feerate_per_kw p))"
proof -
  obtain fee r where fee: "checked_sub sum_in sum_out = Some fee"
    and r: "estimate_feerate_per_kw fee (of_nat weight) = (Ok r :: u32 checked)"
    and rate: "\<not> r < min_feerate_per_kw p" "\<not> max_feerate_per_kw p < r"
    using assms(1,2) by (auto simp: validate_fee_def result_simps policy_simps)
  have f: "unat sum_in = unat sum_out + unat fee" using fee by (simp add: arith_simps)
  then have "unat r = (unat fee * 1000 + 999) div weight"
    using assms(3-5) by (intro estimate_feerate_exact [OF r]) simp_all
  with rate f show ?thesis by (auto simp: Let_def word_less_nat_alt)
qed

lemma validate_htlcs_sum:
  "validate_htlcs p height dust hs v = Ok v' \<Longrightarrow> unat v' = unat v + htlc_total hs"
  by (induction hs arbitrary: v) (auto simp: result_simps arith_simps)

lemma validate_htlcs_each:
  "\<lbrakk>validate_htlcs p height dust hs v = Ok v'; strict p; h \<in> set hs\<rbrakk> \<Longrightarrow>
   dust \<le> value_sat h \<and> cltv_expiry h < MAX_CLTV_EXPIRY"
proof (induction hs arbitrary: v)
  case (Cons x hs)
  then show ?case
    by (auto simp: result_simps policy_simps validate_expiry_def Let_def not_less not_le)
qed simp

lemma validate_commitment_tx_parts:
  assumes "validate_commitment_tx lib p est n setup cstate info = Ok u" "strict p"
  obtains v1 v2 outputs sum_outputs where
    "\<not> (to_broadcaster_value_sat info > 0 \<and> to_broadcaster_value_sat info < MIN_CHAN_DUST_LIMIT_SATOSHIS)"
    "\<not> (to_countersigner_value_sat info > 0 \<and> to_countersigner_value_sat info < MIN_CHAN_DUST_LIMIT_SATOSHIS)"
    "length (offered_htlcs info) + length (received_htlcs info) \<le> max_htlcs p"
    "validate_htlcs p (current_height cstate)
       (htlc_dust_limit (htlc_timeout_tx_weight lib) setup (feerate_per_kw info)) (offered_htlcs info) 0 = Ok v1"
    "validate_htlcs p (current_height cstate)
       (htlc_dust_limit (htlc_success_tx_weight lib) setup (feerate_per_kw info)) (received_htlcs info) v1 = Ok v2"
    "v2 \<le> max_htlc_value_sat p"
    "checked_add (to_broadcaster_value_sat info) (to_countersigner_value_sat info) = Some outputs"
    "checked_add outputs v2 = Some sum_outputs"
    "validate_fee p ''policy-commitment-fee-range'' (channel_value_sat setup) sum_outputs
       (expected_commitment_tx_weight (is_anchors setup)
          (length (offered_htlcs info) + length (received_htlcs info))) = Ok ()"
    "n = 0 \<Longrightarrow> htlcs_is_empty info"
    "n = 0 \<Longrightarrow> is_outbound setup \<Longrightarrow>
       snd (value_to_parties info) \<le> push_value_msat setup div 1000 + carried_fundee_sat est setup"
proof -
  have *: "(if n = 0 then checks [policy_err_if (policy_filter p) a t, policy_err_if (policy_filter p) b t']
      else Ok ()) = Ok u \<longleftrightarrow> (n = 0 \<longrightarrow> \<not> a \<and> \<not> b)" for a b t t' u
    using assms(2) by (simp add: result_simps policy_simps)
  show thesis
    using assms that
    unfolding validate_commitment_tx_def Let_def and_then_eq_Ok *
    by (auto simp: result_simps policy_simps not_less htlcs_is_empty_def)
qed

lemma validate_commitment_tx_total:
  assumes "validate_commitment_tx lib p est n setup cstate info = Ok u" "strict p"
  shows "htlc_total (offered_htlcs info) + htlc_total (received_htlcs info) \<le> unat (max_htlc_value_sat p)"
    and "\<exists>sum_outputs. unat sum_outputs = exact_total info
      \<and> validate_fee p ''policy-commitment-fee-range'' (channel_value_sat setup) sum_outputs
          (expected_commitment_tx_weight (is_anchors setup)
             (length (offered_htlcs info) + length (received_htlcs info))) = Ok ()"
proof -
  let ?fee_ok = "\<lambda>sum_outputs. validate_fee p ''policy-commitment-fee-range'' (channel_value_sat setup) sum_outputs
       (expected_commitment_tx_weight (is_anchors setup)
          (length (offered_htlcs info) + length (received_htlcs info))) = Ok ()"
  obtain v1 v2 outputs sum_outputs where
    h: "validate_htlcs p (current_height cstate)
       (htlc_dust_limit (htlc_timeout_tx_weight lib) setup (feerate_per_kw info)) (offered_htlcs info) 0 = Ok v1"
    "validate_htlcs p (current_height cstate)
       (htlc_dust_limit (htlc_success_tx_weight lib) setup (feerate_per_kw info)) (received_htlcs info) v1 = Ok v2"
    and le: "v2 \<le> max_htlc_value_sat p"
    and add: "checked_add (to_broadcaster_value_sat info) (to_countersigner_value_sat info) = Some outputs"
    "checked_add outputs v2 = Some sum_outputs"
    and fee: "?fee_ok sum_outputs"
    by (rule validate_commitment_tx_parts [OF assms])
  have v2: "unat v2 = htlc_total (offered_htlcs info) + htlc_total (received_htlcs info)"
    using validate_htlcs_sum [OF h(1)] validate_htlcs_sum [OF h(2)] by simp
  then show "htlc_total (offered_htlcs info) + htlc_total (received_htlcs info) \<le> unat (max_htlc_value_sat p)"
    using le by (simp add: word_le_nat_alt)
  have "unat sum_outputs = exact_total info"
    using add v2 by (simp add: checked_add_eq_Some exact_total_def)
  with fee show "\<exists>sum_outputs. unat sum_outputs = exact_total info \<and> ?fee_ok sum_outputs"
    by blast
qed

section \<open>An instance of the library functions\<close>

text \<open>Concrete functions for the libraries and the wallet, for the examples below.\<close>

definition example_tx_lib :: TxLib where
  "example_tx_lib =
     \<lparr>derive_new = derive_new example_ldk,
      get_revokeable_redeemscript = get_revokeable_redeemscript example_ldk,
      get_to_countersigner_keyed_anchor_redeemscript =
        get_to_countersigner_keyed_anchor_redeemscript example_ldk,
      to_p2wsh = to_p2wsh example_ldk, p2wpkh_script = p2wpkh_script example_ldk,
      is_p2wsh = is_p2wsh example_ldk,
      get_commitment_transaction_number_obscure_factor =
        get_commitment_transaction_number_obscure_factor example_ldk,
      instructions = (\<lambda>_. []), push_num = (\<lambda>_. None), read_scriptint = (\<lambda>_. None),
      pubkey_from_slice = (\<lambda>_. None), is_p2wpkh = (\<lambda>s. s \<noteq> []), address_from_script = Some,
      tx_weight = (\<lambda>tx. 400 * length (tx_input tx)), tx_base_size = (\<lambda>_. 100),
      height_from_consensus = Some, lock_time_is_satisfied_by = (\<le>),
      htlc_timeout_tx_weight = (\<lambda>_. 663), htlc_success_tx_weight = (\<lambda>_. 703),
      built_closing_tx = (\<lambda>h c hs cs funding. \<lparr>tx_version = 2, lock_time = 0,
        tx_input = [\<lparr>previous_output = funding, tx_sequence = 0xffffffff\<rparr>],
        tx_output = [\<lparr>txout_value = h, script_pubkey = hs\<rparr>, \<lparr>txout_value = c, script_pubkey = cs\<rparr>]\<rparr>),
      funding_script = (\<lambda>a b. [2, ucast a, ucast b]), public_key_of = (\<lambda>s. of_nat (length s))\<rparr>"

definition example_wallet :: Wallet where
  "example_wallet = \<lparr>can_spend = (\<lambda>path s. Ok (path \<noteq> [] \<and> s = [7])),
     allowlist_contains = (\<lambda>s path. s = [8])\<rparr>"

definition example_chain :: ChainState where
  "example_chain = \<lparr>current_height = 100, funding_depth = 6, funding_double_spent_depth = 0, closing_depth = 0,
     splice_pending = False\<rparr>"

definition example_htlc_info :: CommitmentInfo2 where
  "example_htlc_info = (example_info False)\<lparr>to_broadcaster_value_sat := 1900000,
     offered_htlcs := [HTLCInfo2 50000 1 500], received_htlcs := [HTLCInfo2 48000 2 600]\<rparr>"

section \<open>Properties\<close>

text \<open>
  C7: A commitment transaction that passes the checks of a policy whose filter demotes nothing
  has no dust output, no more HTLCs and no more value in flight than the policy allows, every
  HTLC above its trimming limit and with a height as its expiry. The first commitment has no
  HTLC, and on a channel we fund gives the counterparty no more than the value pushed to it or
  carried over a splice.
\<close>

theorem commitment_tx_sound:
  assumes "validate_commitment_tx lib p est n setup cstate info = Ok ()" "strict p"
  shows "(to_broadcaster_value_sat info = 0 \<or> MIN_CHAN_DUST_LIMIT_SATOSHIS \<le> to_broadcaster_value_sat info)
    \<and> (to_countersigner_value_sat info = 0 \<or> MIN_CHAN_DUST_LIMIT_SATOSHIS \<le> to_countersigner_value_sat info)
    \<and> length (offered_htlcs info) + length (received_htlcs info) \<le> max_htlcs p
    \<and> htlc_total (offered_htlcs info) + htlc_total (received_htlcs info) \<le> unat (max_htlc_value_sat p)
    \<and> (\<forall>h\<in>set (offered_htlcs info). cltv_expiry h < MAX_CLTV_EXPIRY \<and>
         htlc_dust_limit (htlc_timeout_tx_weight lib) setup (feerate_per_kw info) \<le> value_sat h)
    \<and> (\<forall>h\<in>set (received_htlcs info). cltv_expiry h < MAX_CLTV_EXPIRY \<and>
         htlc_dust_limit (htlc_success_tx_weight lib) setup (feerate_per_kw info) \<le> value_sat h)
    \<and> (n = 0 \<longrightarrow> htlcs_is_empty info \<and> (is_outbound setup \<longrightarrow>
         snd (value_to_parties info) \<le> push_value_msat setup div 1000 + carried_fundee_sat est setup))"
  by (rule validate_commitment_tx_parts [OF assms], intro conjI ballI)
    (auto simp: word_gt_0 not_less intro: validate_commitment_tx_total(1) [OF assms]
       dest: validate_htlcs_each [OF _ assms(2)])

theorem commitment_tx_sound_witness:
  "validate_commitment_tx example_tx_lib (make_default_simple_policy Bitcoin) (enforcement_new 0) 1
     example_setup example_chain example_htlc_info = Ok ()
   \<and> htlc_total (offered_htlcs example_htlc_info) + htlc_total (received_htlcs example_htlc_info) \<le> 16777216"
proof -
  have "validate_commitment_tx example_tx_lib (make_default_simple_policy Bitcoin) (enforcement_new 0) 1
     example_setup example_chain example_htlc_info = Ok ()" by code_simp
  moreover have "max_htlc_value_sat (make_default_simple_policy Bitcoin) = 16777216"
    by (simp add: make_default_simple_policy_def)
  ultimately show ?thesis using commitment_tx_sound [OF _ strict_default] by fastforce
qed


text \<open>
  C20: For a channel within the policy's size limit, as long as that limit is at most 3,000,000,000
  satoshi, an accepted commitment pays out no more than the channel holds, computed without
  wrap-around, and the fee rate of the difference is within the limits of the policy.
\<close>

theorem commitment_fee_in_range:
  assumes "validate_channel_value p setup = Ok ()" "max_channel_size_sat p \<le> 3000000000"
    and "validate_commitment_tx lib p est n setup cstate info = Ok ()" "strict p" "max_htlcs p \<le> 10000"
  shows "exact_total info \<le> unat (channel_value_sat setup) \<and>
    (let fee = unat (channel_value_sat setup) - exact_total info;
         weight = expected_commitment_tx_weight (is_anchors setup)
           (length (offered_htlcs info) + length (received_htlcs info));
         rate = (fee * 1000 + 999) div weight
     in unat (min_feerate_per_kw p) \<le> rate \<and> rate \<le> unat (max_feerate_per_kw p))"
proof -
  let ?n = "length (offered_htlcs info) + length (received_htlcs info)"
  let ?w = "expected_commitment_tx_weight (is_anchors setup) ?n"
  have n: "?n \<le> max_htlcs p" by (rule validate_commitment_tx_parts [OF assms(3,4)])
  have "channel_value_sat setup \<le> 3000000000"
    using assms(1,2,4) by (auto simp: validate_channel_value_def policy_simps)
  then have v: "unat (channel_value_sat setup) \<le> 3000000000" by (simp add: word_le_nat_alt)
  have w: "724 \<le> ?w" "?w < 2 ^ 32"
    using n assms(5) by (simp_all add: expected_commitment_tx_weight_def)
  have "unat (channel_value_sat setup) * 1000 + 999 < 2 ^ 32 * ?w"
    using v w(1) by simp
  moreover obtain sum_outputs where "unat sum_outputs = exact_total info"
    "validate_fee p ''policy-commitment-fee-range'' (channel_value_sat setup) sum_outputs ?w = Ok ()"
    using validate_commitment_tx_total(2) [OF assms(3,4)] by blast
  ultimately show ?thesis
    using validate_fee_exact [of p _ "channel_value_sat setup" sum_outputs ?w "()"] w assms(4)
    by (simp add: Let_def)
qed

theorem commitment_fee_in_range_witness:
  "exact_total example_htlc_info \<le> unat (channel_value_sat example_setup)"
proof -
  have "validate_commitment_tx example_tx_lib (make_default_simple_policy Bitcoin) (enforcement_new 0) 1
     example_setup example_chain example_htlc_info = Ok ()" by code_simp
  moreover have "validate_channel_value (make_default_simple_policy Bitcoin) example_setup = Ok ()"
    by code_simp
  moreover have "max_channel_size_sat (make_default_simple_policy Bitcoin) \<le> 3000000000"
    "max_htlcs (make_default_simple_policy Bitcoin) \<le> 10000"
    by (simp_all add: make_default_simple_policy_def)
  ultimately show ?thesis using commitment_fee_in_range [OF _ _ _ strict_default] by blast
qed

lemma validate_payment_balance_iff:
  assumes "strict p" "unat (max_routing_fee_msat p) * 100 < 2 ^ 64"
    and "unat incoming + unat (max_routing_fee_msat p) +
      (case invoiced of None \<Rightarrow> 0 | Some a \<Rightarrow> unat a) < 2 ^ 64"
  shows "validate_payment_balance p incoming outgoing invoiced = Ok () \<longleftrightarrow>
    (case invoiced of
       None \<Rightarrow> unat outgoing \<le> unat incoming
     | Some a \<Rightarrow>
         unat outgoing \<le> unat incoming + unat a + unat (max_routing_fee_msat p) \<and>
         (unat outgoing - unat a - unat incoming) * 100 div max (unat a) 1
           \<le> unat (max_feerate_percentage p))"
proof (cases invoiced)
  case None
  then show ?thesis using assms by (simp add: validate_payment_balance_def result_simps policy_simps word_le_nat_alt not_less)
next
  case (Some a)
  let ?m = "max_routing_fee_msat p"
  have am: "unat (a + ?m) = unat a + unat ?m" "unat (incoming + (a + ?m)) = unat incoming + unat a + unat ?m"
    and ai: "unat (a + incoming) = unat a + unat incoming"
    using assms(3) Some by (simp_all add: unat_add_no_wrap)
  show ?thesis
  proof (cases "unat incoming + unat a + unat ?m < unat outgoing")
    case True
    then show ?thesis using am assms(1) Some
      by (simp add: validate_payment_balance_def result_simps policy_simps word_less_nat_alt)
  next
    case le: False
    show ?thesis
    proof (cases "unat outgoing < unat a + unat incoming")
      case True
      then show ?thesis using le am ai assms(1) Some
        by (simp add: validate_payment_balance_def result_simps policy_simps word_less_nat_alt)
    next
      case False
      define fee where "fee = outgoing - a - incoming"
      have f: "unat fee = unat outgoing - unat a - unat incoming"
        using False by (simp add: fee_def unat_sub word_le_nat_alt)
      then have "unat fee * 100 < 2 ^ 64" using le assms(2) by simp
      then have m: "checked_mul fee 100 = Some (fee * 100)" "unat (fee * 100) = unat fee * 100"
        by (simp_all add: checked_mul_def unat_mult_no_wrap)
      have mx: "unat (max a 1) = max (unat a) 1" by (simp add: max_def word_le_nat_alt)
      have "validate_payment_balance p incoming outgoing invoiced = Ok () \<longleftrightarrow>
          fee * 100 div max a 1 \<le> ucast (max_feerate_percentage p)"
        using False le am ai m assms(1) Some
        by (simp add: validate_payment_balance_def fee_def [symmetric] result_simps policy_simps
            word_less_nat_alt word_le_nat_alt not_less)
      moreover have "unat (ucast (max_feerate_percentage p) :: u64) = unat (max_feerate_percentage p)"
        using unsigned_less [of "max_feerate_percentage p", where 'a = nat]
        by (simp add: unsigned_ucast_eq take_bit_nat_eq_self)
      ultimately show ?thesis using le Some f by (simp add: word_le_nat_alt unat_div m mx)
    qed
  qed
qed

text \<open>
  When no sum wraps, a payment passes the balance check exactly when what goes out is at most
  what comes in plus, for a payment of an invoice, the invoiced amount and the largest routing
  fee, and the fee of an invoice payment is within the percentage of the policy.
\<close>

theorem payment_balance_exact:
  assumes "strict p" "unat (max_routing_fee_msat p) * 100 < 2 ^ 64"
    and "unat incoming + unat (max_routing_fee_msat p) +
      (case invoiced of None \<Rightarrow> 0 | Some a \<Rightarrow> unat a) < 2 ^ 64"
  shows "validate_payment_balance p incoming outgoing invoiced = Ok () \<longleftrightarrow>
    (case invoiced of
       None \<Rightarrow> unat outgoing \<le> unat incoming
     | Some a \<Rightarrow>
         unat outgoing \<le> unat incoming + unat a + unat (max_routing_fee_msat p) \<and>
         (unat outgoing - unat a - unat incoming) * 100 div max (unat a) 1
           \<le> unat (max_feerate_percentage p))"
  using assms by (rule validate_payment_balance_iff)

theorem payment_balance_exact_witness:
  "validate_payment_balance (make_default_simple_policy Bitcoin) 0 105000 (Some 100000) = Ok ()"
proof -
  have "max_routing_fee_msat (make_default_simple_policy Bitcoin) = 10000"
    "max_feerate_percentage (make_default_simple_policy Bitcoin) = 10"
    by (simp_all add: make_default_simple_policy_def)
  then show ?thesis
    using payment_balance_exact [of "make_default_simple_policy Bitcoin" 0 "Some 100000" 105000] by simp
qed


text \<open>
  C21: A sweep that passes its check pays only to scripts the wallet can spend at the given path
  or that are allowlisted, whichever of the three kinds of sweep it is. A delayed sweep waits the
  whole contest delay, and no sweep is locked beyond what the chain has reached.
\<close>

theorem sweeps_stay_in_wallet:
  assumes "strict p"
    and "validate_delayed_sweep lib p w setup cstate tx amount path = Ok ()
      \<or> validate_counterparty_htlc_sweep lib p w setup cstate tx redeemscript amount path = Ok ()
      \<or> validate_justice_sweep lib p w cstate tx amount path = Ok ()"
  shows "tx_version tx = 2
    \<and> (\<forall>out\<in>set (tx_output tx). can_spend w path (script_pubkey out) = Ok True
         \<or> allowlist_contains w (script_pubkey out) path)
    \<and> (validate_delayed_sweep lib p w setup cstate tx amount path = Ok () \<longrightarrow>
         (\<exists>inp rest height. tx_input tx = inp # rest
            \<and> tx_sequence inp = ucast (counterparty_selected_contest_delay setup)
            \<and> height_from_consensus lib (current_height cstate + MAX_CHAIN_LAG) = Some height
            \<and> lock_time_is_satisfied_by lib (lock_time tx) height))"
proof -
  have outs: "validate_sweep_outputs p w path outs = Ok () \<Longrightarrow> out \<in> set outs \<Longrightarrow>
      can_spend w path (script_pubkey out) = Ok True \<or> allowlist_contains w (script_pubkey out) path"
    for outs out
    using assms(1) by (induction outs) (auto simp: wallet_can_spend_def result_simps policy_simps)
  have "validate_sweep lib p w tx amount path = Ok ()"
    using assms(2) by (auto simp: validate_delayed_sweep_def validate_counterparty_htlc_sweep_def
        validate_justice_sweep_def result_simps)
  then have "tx_version tx = 2" "validate_sweep_outputs p w path (tx_output tx) = Ok ()"
    by (auto simp: validate_sweep_def result_simps)
  then show ?thesis
    using outs by (auto simp: validate_delayed_sweep_def locktime_satisfied_def first_sequence_def
        result_simps split: list.splits)
qed

definition example_sweep :: "u32 \<Rightarrow> Script \<Rightarrow> Transaction" where
  "example_sweep sq script = \<lparr>tx_version = 2, lock_time = 90,
     tx_input = [\<lparr>previous_output = \<lparr>op_txid = 5, op_vout = 0\<rparr>, tx_sequence = sq\<rparr>],
     tx_output = [\<lparr>txout_value = 99000, script_pubkey = script\<rparr>]\<rparr>"

theorem sweeps_stay_in_wallet_witness:
  "\<exists>inp rest. tx_input (example_sweep 7 [7]) = inp # rest \<and> tx_sequence inp = 7"
proof -
  have "validate_delayed_sweep example_tx_lib (make_default_simple_policy Bitcoin) example_wallet
      example_setup example_chain (example_sweep 7 [7]) 100000 [1] = Ok ()" by code_simp
  moreover have "ucast (counterparty_selected_contest_delay example_setup) = (7 :: u32)" by code_simp
  ultimately show ?thesis
    using sweeps_stay_in_wallet [OF strict_default, of example_tx_lib Bitcoin example_wallet
      example_setup example_chain "example_sweep 7 [7]" 100000 "[1]" "[]"] by metis
qed

section \<open>On-chain transactions\<close>

lemma validate_channel_output_ours:
  assumes "validate_channel_output lib p chan out = Ok v" "strict p"
  shows "v = txout_value out \<and> txout_value out = channel_value_sat (fc_setup chan)
    \<and> script_pubkey out = funding_script lib (fc_holder_funding_pubkey chan)
        (funding_pubkey (counterparty_points (fc_setup chan)))
    \<and> next_holder_commit_num (fc_estate chan) = 1 \<and> is_outbound (fc_setup chan)"
  using assms
  by (auto simp: validate_channel_output_def Let_def result_simps policy_simps checked_sub_def word_gt_0)

text \<open>
  Where an output of an accepted transaction goes: to the wallet, to an allowlisted script, or
  into the funding of a ready channel that we fund, without a push and with the holder's initial
  commitment signed.
\<close>

definition known_output ::
  "('a TxLib_scheme) \<Rightarrow> Wallet \<Rightarrow> TxOut \<Rightarrow> DerivationPath \<Rightarrow> SlotView option \<Rightarrow> bool" where
  "known_output lib w out opath slot \<longleftrightarrow>
     (opath \<noteq> [] \<and> can_spend w opath (script_pubkey out) = Ok True)
     \<or> allowlist_contains w (script_pubkey out) opath
     \<or> (\<exists>chan. slot = Some (ReadyView chan)
          \<and> txout_value out = channel_value_sat (fc_setup chan)
          \<and> script_pubkey out = funding_script lib (fc_holder_funding_pubkey chan)
              (funding_pubkey (counterparty_points (fc_setup chan)))
          \<and> next_holder_commit_num (fc_estate chan) = 1 \<and> is_outbound (fc_setup chan))"

lemma validate_onchain_output_known:
  assumes "validate_onchain_output lib p w out opath slot bsum = Ok (bsum', False)" "strict p"
  shows "known_output lib w out opath slot \<and> unat bsum' = unat bsum + unat (txout_value out)"
proof (cases "opath = [] \<and> \<not> allowlist_contains w (script_pubkey out) []")
  case True
  then obtain chan v where "slot = Some (ReadyView chan)" "validate_channel_output lib p chan out = Ok v"
    "add_beneficial_output bsum v = Ok bsum'"
    using assms by (auto simp: validate_onchain_output_def result_simps split: option.splits SlotView.splits)
  then show ?thesis
    using validate_channel_output_ours [OF _ assms(2)]
    by (fastforce simp: known_output_def add_beneficial_output_def result_simps arith_simps)
next
  case False
  with assms show ?thesis
    by (auto simp: validate_onchain_output_def known_output_def wallet_can_spend_def
        add_beneficial_output_def result_simps arith_simps policy_simps split: if_splits)
qed

lemma validate_onchain_outputs_unknowns:
  "validate_onchain_outputs lib p w i outs opaths slots (bsum, us) = Ok (bsum', us') \<Longrightarrow> length us \<le> length us'"
proof (induction lib p w i outs opaths slots "(bsum, us)" arbitrary: bsum us rule: validate_onchain_outputs.induct)
  case (2 lib p w i out outs opath opaths slot slots bsum us)
  then obtain b u where "validate_onchain_output lib p w out opath slot bsum = Ok (b, u)"
    "validate_onchain_outputs lib p w (Suc i) outs opaths slots (b, if u then us @ [i] else us) = Ok (bsum', us')"
    by (auto simp: result_simps)
  with "2.hyps" [of "(b, u)" b u] show ?case by (fastforce split: if_splits)
qed simp_all


lemma validate_onchain_outputs_known:
  assumes "validate_onchain_outputs lib p w i outs opaths slots (bsum, []) = Ok (bsum', [])" "strict p"
  shows "length outs \<le> length opaths \<and> length outs \<le> length slots
    \<and> (\<forall>k<length outs. known_output lib w (outs ! k) (opaths ! k) (slots ! k))
    \<and> unat bsum' = unat bsum + (\<Sum>out\<leftarrow>outs. unat (txout_value out))"
  using assms(1)
proof (induction outs arbitrary: i opaths slots bsum)
  case (Cons out outs)
  then obtain opath opaths' slot slots' where ps: "opaths = opath # opaths'" "slots = slot # slots'"
    by (cases opaths; cases slots) auto
  with Cons.prems obtain b u where
    out: "validate_onchain_output lib p w out opath slot bsum = Ok (b, u)" and
    rest: "validate_onchain_outputs lib p w (Suc i) outs opaths' slots' (b, if u then [] @ [i] else []) = Ok (bsum', [])"
    by (auto simp: result_simps)
  have "\<not> u" using validate_onchain_outputs_unknowns [OF rest] by (auto split: if_splits)
  with Cons.IH rest out validate_onchain_output_known [OF _ assms(2)] ps
  show ?case by (fastforce simp: less_Suc_eq_0_disj)
qed simp

lemma sum_inputs_checked_eq:
  "sum_inputs_checked vs b = Ok b' \<Longrightarrow> unat b' = unat b + (\<Sum>v\<leftarrow>vs. unat v)"
  by (induction vs arbitrary: b) (auto simp: result_simps arith_simps)

text \<open>
  C19: An on-chain transaction that passes its check sends every output to the wallet, to an
  allowlisted script, or into the funding of a channel of ours whose initial commitment the
  counterparty has signed. The value the check reports as spent is then exactly the fee of the
  transaction, inputs minus outputs, without wrap-around.
\<close>

theorem onchain_tx_sound:
  assumes "validate_onchain_tx lib p w channels tx segwit_flags values opaths weight = Ok spent" "strict p"
  shows "tx_version tx = 2 \<and> tx_base_size lib tx \<le> MAX_ONCHAIN_TX_SIZE
    \<and> (\<forall>k<length (tx_output tx). known_output lib w (tx_output tx ! k) (opaths ! k) (channels ! k))
    \<and> (\<Sum>v\<leftarrow>values. unat v) = (\<Sum>out\<leftarrow>tx_output tx. unat (txout_value out)) + unat spent"
proof -
  from assms obtain bsum sum_inputs where
    "tx_version tx = 2" "tx_base_size lib tx \<le> MAX_ONCHAIN_TX_SIZE" and
    outs: "validate_onchain_outputs lib p w 0 (tx_output tx) opaths channels (0, []) = Ok (bsum, [])" and
    ins: "sum_inputs_checked values 0 = Ok sum_inputs" and
    fee: "validate_beneficial_value p sum_inputs bsum weight = Ok spent"
    by (auto simp: validate_onchain_tx_def Let_def result_simps policy_simps)
  moreover have "unat sum_inputs = unat bsum + unat spent"
    using fee by (auto simp: validate_beneficial_value_def Let_def result_simps arith_simps)
  ultimately show ?thesis
    using validate_onchain_outputs_known [OF outs assms(2)] sum_inputs_checked_eq [OF ins] by simp
qed

definition example_onchain_tx :: Transaction where
  "example_onchain_tx = \<lparr>tx_version = 2, lock_time = 0,
     tx_input = [\<lparr>previous_output = \<lparr>op_txid = 5, op_vout = 0\<rparr>, tx_sequence = 0\<rparr>],
     tx_output = [\<lparr>txout_value = 70000, script_pubkey = [7]\<rparr>, \<lparr>txout_value = 3000000, script_pubkey = [2, 10, 20]\<rparr>]\<rparr>"

definition example_slot :: SlotView where
  "example_slot = ReadyView \<lparr>fc_setup = example_setup,
     fc_estate = (enforcement_new 0)\<lparr>next_holder_commit_num := 1\<rparr>, fc_holder_funding_pubkey = 10\<rparr>"

theorem onchain_tx_sound_witness:
  "unat (3071000 :: u64) = unat (70000 :: u64) + unat (3000000 :: u64) + unat (1000 :: u64)
   \<and> known_output example_tx_lib example_wallet \<lparr>txout_value = 3000000, script_pubkey = [2, 10, 20]\<rparr> [] (Some example_slot)"
proof -
  have "validate_onchain_tx example_tx_lib (make_default_simple_policy Bitcoin) example_wallet
      [None, Some example_slot] example_onchain_tx [True] [3071000] [[1], []] 600 = Ok 1000" by code_simp
  from onchain_tx_sound [OF this strict_default] show ?thesis
    by (simp add: example_onchain_tx_def numeral_2_eq_2 All_less_Suc)
qed

text \<open>
  The fee limit of an on-chain transaction can be passed by a fee that is far too large: the
  estimate keeps the low 32 bits of the rate only, so that under the default policy for mainnet
  a spend of over eighteen bitcoin at a weight of 436 is accepted as non-beneficial value.
\<close>

theorem onchain_fee_limit_truncated:
  "validate_beneficial_value (make_default_simple_policy Bitcoin) 1872606177 0 436 = Ok 1872606177
   \<and> unat (max_feerate_per_kw (make_default_simple_policy Bitcoin)) < 1872606177 * 1000 div 436"
proof
  show "validate_beneficial_value (make_default_simple_policy Bitcoin) 1872606177 0 436 = Ok 1872606177"
    by code_simp
  show "unat (max_feerate_per_kw (make_default_simple_policy Bitcoin)) < 1872606177 * 1000 div 436"
    by (simp add: make_default_simple_policy_def)
qed

section \<open>Mutual close\<close>

text \<open>The distance of two values, without wrap-around.\<close>

definition sat_distance :: "u64 \<Rightarrow> u64 \<Rightarrow> nat" where
  "sat_distance a b = (unat a - unat b) + (unat b - unat a)"

lemma outside_epsilon_range_iff:
  "outside_epsilon_range p a b \<longleftrightarrow> unat (epsilon_sat p) < sat_distance a b"
  by (auto simp: outside_epsilon_range_def sat_distance_def word_less_nat_alt unat_sub word_le_nat_alt)

text \<open>What an accepted mutual close promises, for the values and scripts it assigns to the two sides.\<close>

definition mutual_close_fair ::
  "SimplePolicy \<Rightarrow> Wallet \<Rightarrow> ChannelSetup \<Rightarrow> EnforcementState \<Rightarrow> u64 \<Rightarrow> u64 \<Rightarrow>
   Script option \<Rightarrow> DerivationPath \<Rightarrow> bool" where
  "mutual_close_fair p w setup est to_holder to_cp hscript path \<longleftrightarrow>
     (\<exists>holder_info cp_info.
        current_holder_commit_info est = Some holder_info \<and> current_counterparty_commit_info est = Some cp_info
        \<and> htlcs_is_empty holder_info \<and> htlcs_is_empty cp_info
        \<and> (if is_outbound setup then
             sat_distance to_cp (to_broadcaster_value_sat cp_info) \<le> unat (epsilon_sat p)
             \<and> sat_distance to_cp (to_countersigner_value_sat holder_info) \<le> unat (epsilon_sat p)
           else
             sat_distance to_holder (to_broadcaster_value_sat holder_info) \<le> unat (epsilon_sat p)
             \<and> sat_distance to_holder (to_countersigner_value_sat cp_info) \<le> unat (epsilon_sat p)))
     \<and> (to_holder > 0 \<longrightarrow> (\<exists>script. hscript = Some script
          \<and> (can_spend w path script = Ok True \<or> allowlist_contains w script path)
          \<and> (holder_shutdown_script setup = None \<or> holder_shutdown_script setup = Some script)))"

lemma validate_mutual_close_tx_fair:
  assumes "validate_mutual_close_tx lib p w setup est to_holder to_cp hscript cscript path = Ok u" "strict p"
  shows "mutual_close_fair p w setup est to_holder to_cp hscript path"
proof -
  let ?f = "policy_filter p"
  obtain hi ci where infos: "current_holder_commit_info est = Some hi" "current_counterparty_commit_info est = Some ci"
    using assms(1) by (auto simp: validate_mutual_close_tx_def Let_def result_simps)
  have "htlcs_is_empty hi" "htlcs_is_empty ci"
    and script: "to_holder > 0 \<Longrightarrow> hscript \<noteq> None"
      "to_holder > 0 \<Longrightarrow> holder_shutdown_script setup = None \<or> hscript = holder_shutdown_script setup"
    using assms infos by (auto simp: validate_mutual_close_tx_def Let_def result_simps policy_simps)
  moreover have "\<not> outside_epsilon_range p to_cp (to_broadcaster_value_sat ci)
      \<and> \<not> outside_epsilon_range p to_cp (to_countersigner_value_sat hi)" if "is_outbound setup"
    using assms infos that by (auto simp: validate_mutual_close_tx_def Let_def result_simps policy_simps)
  moreover have "\<not> outside_epsilon_range p to_holder (to_broadcaster_value_sat hi)
      \<and> \<not> outside_epsilon_range p to_holder (to_countersigner_value_sat ci)" if "\<not> is_outbound setup"
    using assms infos that by (auto simp: validate_mutual_close_tx_def Let_def result_simps policy_simps)
  moreover have "can_spend w path s = Ok True \<or> allowlist_contains w s path" if "hscript = Some s" for s
    using assms infos that
    by (auto simp: validate_mutual_close_tx_def wallet_can_spend_def Let_def result_simps policy_simps)
  ultimately show ?thesis
    unfolding mutual_close_fair_def using infos
    by (cases hscript; cases "is_outbound setup") (auto simp: outside_epsilon_range_iff not_less word_gt_0)
qed

lemma mutual_close_args_path:
  assumes "mutual_close_args tx paths larger = Ok (a, b)" "(h, c, hs, cs, path) = a \<or> (h, c, hs, cs, path) = b" "h > 0"
  shows "path \<in> set paths"
  using assms by (auto simp: mutual_close_args_def Let_def split: list.splits if_splits)

text \<open>
  C22: A closing transaction that passes the check is exactly the transaction the lightning library
  builds for the values and scripts the check returns. No HTLC is pending in either current
  commitment, the value of the side that does not pay the fee is within epsilon of both current
  commitments, and what is paid to us goes to the wallet or an allowlisted script, and to the
  script agreed at setup if there was one.
\<close>

theorem mutual_close_sound:
  assumes "decode_and_validate_mutual_close_tx lib p w setup est tx paths = Ok closing" "strict p"
  shows "tx = built_closing_tx lib (ct_to_holder_value_sat closing) (ct_to_counterparty_value_sat closing)
      (ct_holder_script closing) (ct_counterparty_script closing) (funding_outpoint setup)
    \<and> ct_funding_outpoint closing = funding_outpoint setup
    \<and> (\<exists>hscript path. (case hscript of Some s \<Rightarrow> s | None \<Rightarrow> []) = ct_holder_script closing
         \<and> (ct_to_holder_value_sat closing > 0 \<longrightarrow> path \<in> set paths)
         \<and> mutual_close_fair p w setup est (ct_to_holder_value_sat closing)
             (ct_to_counterparty_value_sat closing) hscript path)"
proof -
  let ?v = "\<lambda>(to_holder, to_cp, hscript, cscript, path).
    validate_mutual_close_tx lib p w setup est to_holder to_cp hscript cscript path"
  let ?choice = "\<lambda>likely unlikely. case ?v likely of
              Ok _ \<Rightarrow> Ok likely
            | Err e \<Rightarrow> (case ?v unlikely of Ok _ \<Rightarrow> Ok unlikely | Err _ \<Rightarrow> Err e | Panic \<Rightarrow> Panic)
            | Panic \<Rightarrow> Panic"
  have choice: "?v c = Ok () \<and> (c = likely \<or> c = unlikely)" if "?choice likely unlikely = Ok c" for likely unlikely c
    using that by (auto split: result.splits)
  obtain likely unlikely h c hs cs path where
    args: "mutual_close_args tx paths (option_gt (minimum_to_holder_value est (epsilon_sat p))
       (minimum_to_counterparty_value est (epsilon_sat p))) = (Ok (likely, unlikely) :: _ checked)" and
    ch: "?choice likely unlikely = Ok (h, c, hs, cs, path)" and
    eq: "closing = \<lparr>ct_to_holder_value_sat = h, ct_to_counterparty_value_sat = c,
                ct_holder_script = (case hs of Some s \<Rightarrow> s | None \<Rightarrow> []),
                ct_counterparty_script = (case cs of Some s \<Rightarrow> s | None \<Rightarrow> []),
                ct_funding_outpoint = funding_outpoint setup\<rparr>"
      "tx = built_closing_tx lib h c (ct_holder_script closing) (ct_counterparty_script closing)
         (funding_outpoint setup)"
    using assms unfolding decode_and_validate_mutual_close_tx_def Let_def
    by (auto simp: and_then_eq_Ok policy_simps)
  from choice [OF ch] have "mutual_close_fair p w setup est h c hs path"
    using validate_mutual_close_tx_fair assms(2) by fastforce
  moreover have "h > 0 \<Longrightarrow> path \<in> set paths"
    using choice [OF ch] mutual_close_args_path [OF args] by blast
  ultimately show ?thesis using eq by auto
qed

definition example_estate :: EnforcementState where
  "example_estate = (enforcement_new 0)\<lparr>current_holder_commit_info := Some (example_info False),
     current_counterparty_commit_info := Some (example_info True
       \<lparr>to_broadcaster_value_sat := 1000000, to_countersigner_value_sat := 1999000\<rparr>)\<rparr>"

definition example_closing_tx :: Transaction where
  "example_closing_tx = built_closing_tx example_tx_lib 1999200 1000000 [7] [9] (funding_outpoint example_setup)"

theorem mutual_close_sound_witness:
  "\<exists>closing. decode_and_validate_mutual_close_tx example_tx_lib (make_default_simple_policy Bitcoin)
     example_wallet example_setup example_estate example_closing_tx [[1], []] = Ok closing
   \<and> ct_to_holder_value_sat closing = 1999200 \<and> ct_funding_outpoint closing = funding_outpoint example_setup"
proof -
  let ?c = "\<lparr>ct_to_holder_value_sat = 1999200, ct_to_counterparty_value_sat = 1000000,
    ct_holder_script = [7], ct_counterparty_script = [9], ct_funding_outpoint = \<lparr>op_txid = 2, op_vout = 0\<rparr>\<rparr>"
  have "decode_and_validate_mutual_close_tx example_tx_lib (make_default_simple_policy Bitcoin)
     example_wallet example_setup example_estate example_closing_tx [[1], []] = Ok ?c" by code_simp
  with mutual_close_sound [OF this strict_default] show ?thesis by fastforce
qed

end
