(* ===== verification/Validators.thy ===== *)
theory Validators
  imports ValidatorSafety
begin

text \<open>
  The \<^verbatim>\<open>Validator\<close> trait of \<^verbatim>\<open>vls-core/src/policy/validator.rs\<close> as a record of its methods, the
  two implementations of it (\<^verbatim>\<open>simple_validator.rs\<close> and \<^verbatim>\<open>onchain_validator.rs\<close>) with their
  factories, and the default methods for invoices and blocks. What the channel operations rely
  on is the locale \<open>commitment_guard\<close>, which both implementations satisfy.
\<close>

section \<open>The trait and its implementations\<close>

record Validator =
  v_validate_setup_channel :: "Wallet \<Rightarrow> ChannelSetup \<Rightarrow> DerivationPath \<Rightarrow> unit checked"
  v_validate_channel_value :: "ChannelSetup \<Rightarrow> unit checked"
  v_validate_onchain_tx ::
    "Wallet \<Rightarrow> SlotView option list \<Rightarrow> Transaction \<Rightarrow> bool list \<Rightarrow> u64 list \<Rightarrow> DerivationPath list \<Rightarrow>
     nat \<Rightarrow> u64 checked"
  v_decode_commitment_tx ::
    "PublicKey \<Rightarrow> ChannelSetup \<Rightarrow> bool \<Rightarrow> Transaction \<Rightarrow> u8 list list \<Rightarrow> CommitmentInfo checked"
  v_validate_counterparty_commitment_tx ::
    "EnforcementState \<Rightarrow> u64 \<Rightarrow> PublicKey \<Rightarrow> ChannelSetup \<Rightarrow> ChainState \<Rightarrow> CommitmentInfo2 \<Rightarrow> unit checked"
  v_validate_holder_commitment_tx ::
    "EnforcementState \<Rightarrow> u64 \<Rightarrow> ChannelSetup \<Rightarrow> ChainState \<Rightarrow> CommitmentInfo2 \<Rightarrow> unit checked"
  v_validate_counterparty_revocation :: "EnforcementState \<Rightarrow> u64 \<Rightarrow> Secret \<Rightarrow> unit checked"
  v_validate_htlc_tx :: "ChannelSetup \<Rightarrow> HTLCOutputInCommitment \<Rightarrow> u32 \<Rightarrow> unit checked"
  v_decode_and_validate_mutual_close_tx ::
    "Wallet \<Rightarrow> ChannelSetup \<Rightarrow> EnforcementState \<Rightarrow> Transaction \<Rightarrow> DerivationPath list \<Rightarrow>
     ClosingTransaction checked"
  v_validate_mutual_close_tx ::
    "Wallet \<Rightarrow> ChannelSetup \<Rightarrow> EnforcementState \<Rightarrow> u64 \<Rightarrow> u64 \<Rightarrow> Script option \<Rightarrow> Script option \<Rightarrow>
     DerivationPath \<Rightarrow> unit checked"
  v_validate_delayed_sweep ::
    "Wallet \<Rightarrow> ChannelSetup \<Rightarrow> ChainState \<Rightarrow> Transaction \<Rightarrow> u64 \<Rightarrow> DerivationPath \<Rightarrow> unit checked"
  v_validate_counterparty_htlc_sweep ::
    "Wallet \<Rightarrow> ChannelSetup \<Rightarrow> ChainState \<Rightarrow> Transaction \<Rightarrow> Script \<Rightarrow> u64 \<Rightarrow> DerivationPath \<Rightarrow> unit checked"
  v_validate_justice_sweep ::
    "Wallet \<Rightarrow> ChannelSetup \<Rightarrow> ChainState \<Rightarrow> Transaction \<Rightarrow> u64 \<Rightarrow> DerivationPath \<Rightarrow> unit checked"
  v_validate_payment_balance :: "u64 \<Rightarrow> u64 \<Rightarrow> u64 option \<Rightarrow> unit checked"
  v_validate_payment_cltv :: "u32 \<Rightarrow> u32 \<Rightarrow> unit checked"
  v_enforce_balance :: bool
  v_minimum_initial_balance :: "u64 \<Rightarrow> u64"
  v_is_ready :: "ChainState \<Rightarrow> bool"
  v_filter :: PolicyFilter
  v_global_velocity_control :: VelocityControlSpec
  v_fee_velocity_control :: VelocityControlSpec
  v_max_channels :: nat
  v_max_invoices :: nat

definition simple_validator :: "('a TxLib_scheme) \<Rightarrow> SimplePolicy \<Rightarrow> Validator" where
  "simple_validator lib p =
     \<lparr>v_validate_setup_channel = validate_setup_channel p,
      v_validate_channel_value = validate_channel_value p,
      v_validate_onchain_tx = validate_onchain_tx lib p,
      v_decode_commitment_tx = simple_decode_commitment_tx lib p,
      v_validate_counterparty_commitment_tx = validate_counterparty_commitment_tx lib p,
      v_validate_holder_commitment_tx = validate_holder_commitment_tx lib p,
      v_validate_counterparty_revocation = validate_counterparty_revocation lib p,
      v_validate_htlc_tx = validate_htlc_tx p,
      v_decode_and_validate_mutual_close_tx = decode_and_validate_mutual_close_tx lib p,
      v_validate_mutual_close_tx = validate_mutual_close_tx lib p,
      v_validate_delayed_sweep = validate_delayed_sweep lib p,
      v_validate_counterparty_htlc_sweep = validate_counterparty_htlc_sweep lib p,
      v_validate_justice_sweep = (\<lambda>w setup. validate_justice_sweep lib p w),
      v_validate_payment_balance = validate_payment_balance p,
      v_validate_payment_cltv = validate_payment_cltv p,
      v_enforce_balance = enforce_balance p,
      v_minimum_initial_balance = simple_minimum_initial_balance,
      v_is_ready = simple_is_ready,
      v_filter = policy_filter p,
      v_global_velocity_control = global_velocity_control p,
      v_fee_velocity_control = fee_velocity_control p,
      v_max_channels = max_channels p,
      v_max_invoices = max_invoices p\<rparr>"

definition ensure_funding_buried_and_unspent :: "OnchainPolicy \<Rightarrow> u64 \<Rightarrow> ChainState \<Rightarrow> unit checked" where
  "ensure_funding_buried_and_unspent pol commit_num cstate =
     (if commit_num > 0 \<and> \<not> splice_pending cstate then
        checks
          [temporary_policy_err_if (onchain_filter pol) (funding_depth cstate < ucast (min_funding_depth pol))
             ''policy-commitment-spends-active-utxo'',
           policy_err_if (onchain_filter pol) (closing_depth cstate > 0)
             ''policy-commitment-spends-active-utxo'']
      else Ok ())"

text \<open>
  The methods that \<^verbatim>\<open>OnchainValidator\<close> does not define keep the default of the trait: the balance
  is not enforced, and the limits on channels and invoices are the built-in ones.
\<close>

definition onchain_validator :: "Validator \<Rightarrow> OnchainPolicy \<Rightarrow> Validator" where
  "onchain_validator inner pol = inner
     \<lparr>v_validate_counterparty_commitment_tx := (\<lambda>est commit_num point setup cstate info2.
        and_then (ensure_funding_buried_and_unspent pol commit_num cstate) (\<lambda>_.
        v_validate_counterparty_commitment_tx inner est commit_num point setup cstate info2)),
      v_validate_holder_commitment_tx := (\<lambda>est commit_num setup cstate info2.
        and_then (if next_holder_commit_num est \<le> commit_num
                  then ensure_funding_buried_and_unspent pol commit_num cstate else Ok ()) (\<lambda>_.
        v_validate_holder_commitment_tx inner est commit_num setup cstate info2)),
      v_enforce_balance := False,
      v_is_ready := (\<lambda>cstate. funding_depth cstate \<ge> ucast (min_funding_depth pol) \<and> closing_depth cstate = 0),
      v_filter := onchain_filter pol,
      v_global_velocity_control := UNLIMITED,
      v_fee_velocity_control := DEFAULT_FEE_VELOCITY_CONTROL,
      v_max_channels := MAX_CHANNELS,
      v_max_invoices := MAX_INVOICES\<rparr>"

definition simple_validator_factory ::
  "('a TxLib_scheme) \<Rightarrow> SimplePolicy option \<Rightarrow> Network \<Rightarrow> Validator" where
  "simple_validator_factory lib policy network =
     simple_validator lib (case policy of Some p \<Rightarrow> p | None \<Rightarrow> make_default_simple_policy network)"

definition onchain_validator_factory ::
  "('a TxLib_scheme) \<Rightarrow> SimplePolicy option \<Rightarrow> Network \<Rightarrow> Validator" where
  "onchain_validator_factory lib policy network =
     onchain_validator (simple_validator_factory lib policy network)
       (make_onchain_policy network (case policy of Some p \<Rightarrow> policy_filter p | None \<Rightarrow> filter_default))"

section \<open>Invoices and blocks\<close>

text \<open>A \<^verbatim>\<open>Duration\<close> is a number of nanoseconds; an addition beyond \<open>2 ^ 64\<close> seconds panics.\<close>

type_synonym Duration = nat

definition from_secs :: "nat \<Rightarrow> Duration" where "from_secs s = s * 1000000000"

definition duration_add :: "Duration \<Rightarrow> Duration \<Rightarrow> (Duration, 'e) result" where
  "duration_add a b = and_then (assert_that (a + b < from_secs (2 ^ 64))) (\<lambda>_. Ok (a + b))"

definition MIN_INVOICE_EXPIRY :: Duration where "MIN_INVOICE_EXPIRY = from_secs 60"
definition MAX_CLOCK_SKEW :: Duration where "MAX_CLOCK_SKEW = from_secs 60"

definition validate_invoice :: "PolicyFilter \<Rightarrow> Duration \<Rightarrow> Duration \<Rightarrow> Duration \<Rightarrow> unit checked" where
  "validate_invoice f created expiry now =
     and_then (duration_add now MAX_CLOCK_SKEW) (\<lambda>latest.
     and_then (policy_err_if f (latest < created) ''policy-invoice-not-expired'') (\<lambda>_.
     and_then (duration_add now MIN_INVOICE_EXPIRY) (\<lambda>soonest.
     and_then (duration_add created expiry) (\<lambda>expires.
     and_then (duration_add expires MAX_CLOCK_SKEW) (\<lambda>expires.
     policy_err_if f (soonest > expires) ''policy-invoice-not-expired'')))))"

datatype VerifyError = InvalidAttestation | OtherVerifyError

text \<open>
  The proof is checked by the \<^verbatim>\<open>txoo\<close> library; its outcome and the keys of its attestations are
  arguments.
\<close>

definition validate_block ::
  "PolicyFilter \<Rightarrow> (unit, VerifyError) result \<Rightarrow> PublicKey list \<Rightarrow> PublicKey list \<Rightarrow> unit checked" where
  "validate_block f verified attestations trusted_oracle_pubkeys =
     and_then
       (case verified of
          Ok _ \<Rightarrow> Ok ()
        | Err InvalidAttestation \<Rightarrow> policy_error_with_filter ''policy-chain-validated'' f
        | Err OtherVerifyError \<Rightarrow> policy_error_with_filter ''policy-chain-validated'' f
        | Panic \<Rightarrow> Panic) (\<lambda>_.
     let required_majority = (length trusted_oracle_pubkeys + 1) div 2;
         key_matches = length (filter (\<lambda>k. k \<in> set attestations) trusted_oracle_pubkeys)
     in policy_err_if f (key_matches < required_majority) ''policy-chain-validated'')"

section \<open>What the channel operations rely on\<close>

locale commitment_guard =
  fixes v :: Validator
    and point_of :: "Secret \<Rightarrow> PublicKey"
  assumes filter_strict: "enforced (v_filter v) tag"
    and counterparty_in_order:
      "v_validate_counterparty_commitment_tx v est n point setup cstate info = Ok () \<Longrightarrow>
       n \<le> next_counterparty_revoke_num est + 1"
    and counterparty_retry_same:
      "\<lbrakk>v_validate_counterparty_commitment_tx v est n point setup cstate info = Ok ();
        n + 1 = next_counterparty_commit_num est;
        counterparty_commitment_funding est = Some (funding_outpoint setup)\<rbrakk> \<Longrightarrow>
       current_counterparty_point est = Some point"
    and holder_not_revoked:
      "v_validate_holder_commitment_tx v est n setup cstate info = Ok () \<Longrightarrow>
       n + 1 = next_holder_commit_num est \<or> \<not> n + 2 \<le> next_holder_commit_num est"
    and holder_open:
      "\<lbrakk>v_validate_holder_commitment_tx v est n setup cstate info = Ok (); n = next_holder_commit_num est\<rbrakk> \<Longrightarrow>
       \<not> channel_closed est"
    and revocation_proves_point:
      "v_validate_counterparty_revocation v est n secret = Ok () \<Longrightarrow>
       (n = next_counterparty_revoke_num est \<or> n + 1 = next_counterparty_revoke_num est)
       \<and> get_previous_counterparty_point est n = Some (point_of secret)"

text \<open>A validator that also follows the chain.\<close>

locale buried_guard = commitment_guard +
  fixes depth :: u32
  assumes counterparty_buried:
      "\<lbrakk>v_validate_counterparty_commitment_tx v est n point setup cstate info = Ok ();
        n > 0; \<not> splice_pending cstate\<rbrakk> \<Longrightarrow>
       depth \<le> funding_depth cstate \<and> closing_depth cstate = 0"
    and holder_buried:
      "\<lbrakk>v_validate_holder_commitment_tx v est n setup cstate info = Ok ();
        n > 0; \<not> splice_pending cstate; next_holder_commit_num est \<le> n\<rbrakk> \<Longrightarrow>
       depth \<le> funding_depth cstate \<and> closing_depth cstate = 0"

lemma simple_validator_guard:
  assumes "strict p"
  shows "commitment_guard (simple_validator lib p) (public_key_of lib)"
proof
  fix est n view cstate info
  assume "v_validate_holder_commitment_tx (simple_validator lib p) est n view cstate info = Ok ()"
  then have *: "validate_holder_commitment_tx lib p est n view cstate info = Ok ()"
    by (simp add: simple_validator_def)
  from * show "n + 1 = next_holder_commit_num est \<or> \<not> n + 2 \<le> next_holder_commit_num est"
    using assms by (auto simp: validate_holder_commitment_tx_def Let_def result_simps policy_simps split: if_splits)
  from * show "\<not> channel_closed est" if "n = next_holder_commit_num est"
    using assms that by (auto simp: validate_holder_commitment_tx_def Let_def result_simps policy_simps split: if_splits)
next
  fix est n point view cstate info
  assume "v_validate_counterparty_commitment_tx (simple_validator lib p) est n point view cstate info = Ok ()"
  then have *: "validate_counterparty_commitment_tx lib p est n point view cstate info = Ok ()"
    by (simp add: simple_validator_def)
  from * show "n \<le> next_counterparty_revoke_num est + 1"
    using assms by (auto simp: validate_counterparty_commitment_tx_def Let_def result_simps policy_simps not_less)
  from * show "current_counterparty_point est = Some point" if "n + 1 = next_counterparty_commit_num est"
    "counterparty_commitment_funding est = Some (funding_outpoint view)"
    using assms that by (auto simp: validate_counterparty_commitment_tx_def Let_def result_simps policy_simps)
qed (use assms in \<open>auto simp: simple_validator_def validate_counterparty_revocation_def result_simps policy_simps\<close>)

lemma onchain_validator_guard:
  assumes "commitment_guard inner point_of" "\<And>tag. enforced (onchain_filter pol) tag"
  shows "buried_guard (onchain_validator inner pol) point_of (ucast (min_funding_depth pol))"
proof -
  have filter: "enforced (v_filter (onchain_validator inner pol)) tag" for tag
    using assms(2) by (simp add: onchain_validator_def)
  have cp: "v_validate_counterparty_commitment_tx inner est n point view cstate info = Ok ()"
    "n > 0 \<Longrightarrow> \<not> splice_pending cstate \<Longrightarrow>
       ucast (min_funding_depth pol) \<le> funding_depth cstate \<and> closing_depth cstate = 0"
    if "v_validate_counterparty_commitment_tx (onchain_validator inner pol) est n point view cstate info = Ok ()"
    for est n point view cstate info
    using that assms(2) by (auto simp: onchain_validator_def ensure_funding_buried_and_unspent_def
        result_simps policy_simps not_less word_gt_0)
  have holder: "v_validate_holder_commitment_tx inner est n view cstate info = Ok ()"
    "n > 0 \<Longrightarrow> \<not> splice_pending cstate \<Longrightarrow> next_holder_commit_num est \<le> n \<Longrightarrow>
       ucast (min_funding_depth pol) \<le> funding_depth cstate \<and> closing_depth cstate = 0"
    if "v_validate_holder_commitment_tx (onchain_validator inner pol) est n view cstate info = Ok ()"
    for est n view cstate info
    using that assms(2) by (auto simp: onchain_validator_def ensure_funding_buried_and_unspent_def
        result_simps policy_simps not_less word_gt_0 split: if_splits)
  have revocation: "v_validate_counterparty_revocation (onchain_validator inner pol) =
      v_validate_counterparty_revocation inner"
    by (simp add: onchain_validator_def)
  note law = commitment_guard.counterparty_in_order [OF assms(1)]
    commitment_guard.counterparty_retry_same [OF assms(1)]
    commitment_guard.holder_not_revoked [OF assms(1)] commitment_guard.holder_open [OF assms(1)]
    commitment_guard.revocation_proves_point [OF assms(1)]
  show ?thesis
  proof (unfold_locales, goal_cases)
    case (1 tag) show ?case by (rule filter)
  next
    case 2 show ?case by (rule law(1) [OF cp(1) [OF 2]])
  next
    case 3 show ?case by (rule law(2) [OF cp(1) [OF 3(1)] 3(2,3)])
  next
    case 4 show ?case by (rule law(3) [OF holder(1) [OF 4]])
  next
    case 5 show ?case by (rule law(4) [OF holder(1) [OF 5(1)] 5(2)])
  next
    case 6 show ?case by (rule law(5) [OF 6 [unfolded revocation]])
  next
    case 7 show ?case by (rule cp(2) [OF 7])
  next
    case 8 show ?case by (rule holder(2) [OF 8])
  qed
qed

text \<open>Both implementations with their default policies, on any network.\<close>

interpretation simple_default:
  commitment_guard "simple_validator_factory lib None network" "public_key_of lib" for lib network
  unfolding simple_validator_factory_def option.case
  by (rule simple_validator_guard) simp

interpretation onchain_default:
  buried_guard "onchain_validator_factory lib None network" "public_key_of lib" 1 for lib network
proof -
  have "buried_guard (onchain_validator_factory lib None network) (public_key_of lib)
      (ucast (min_funding_depth (make_onchain_policy network filter_default)))"
    unfolding onchain_validator_factory_def option.case
    by (rule onchain_validator_guard [OF simple_default.commitment_guard_axioms])
      (simp add: make_onchain_policy_def)
  then show "buried_guard (onchain_validator_factory lib None network) (public_key_of lib) 1"
    by (simp add: make_onchain_policy_def)
qed

section \<open>Properties\<close>



text \<open>
  Balance enforcement that a policy asks for is in force under the simple validator and never
  under the on-chain validator built from the same policy.
\<close>

theorem onchain_drops_balance_enforcement:
  "v_enforce_balance (simple_validator_factory lib (Some p) network) = enforce_balance p
   \<and> \<not> v_enforce_balance (onchain_validator_factory lib (Some p) network)"
  by (simp add: simple_validator_factory_def simple_validator_def onchain_validator_factory_def
      onchain_validator_def)

text \<open>
  A block is accepted exactly when its proof verifies and at least half of the trusted oracles
  attest it; with an even number of oracles half is enough, with none no attestation is needed.
\<close>

theorem validate_block_exact:
  assumes "enforced f ''policy-chain-validated''"
  shows "validate_block f verified attestations trusted = Ok () \<longleftrightarrow>
    verified = Ok () \<and> length trusted \<le> 2 * length (filter (\<lambda>k. k \<in> set attestations) trusted)"
proof -
  have half: "(n + 1) div 2 \<le> m \<longleftrightarrow> n \<le> 2 * m" for n m :: nat by presburger
  show ?thesis using assms
    by (cases verified; cases "\<exists>e. verified = Err e")
      (auto simp: validate_block_def Let_def result_simps policy_simps not_less half
        simp del: Suc_eq_plus1 split: VerifyError.splits)
qed

theorem validate_block_exact_witness:
  "validate_block filter_default (Ok ()) [5] [5, 6] = Ok ()"
  using validate_block_exact [of filter_default "Ok ()" "[5]" "[5, 6]"] by simp

end
