(* ===== verification/Payments.thy ===== *)
theory Payments
  imports Validators
begin

text \<open>
  The payment state of a node, \<^verbatim>\<open>NodeState\<close> and \<^verbatim>\<open>RoutedPayment\<close> of
  \<^verbatim>\<open>vls-core/src/node.rs\<close>: validating and applying the payments of a new commitment, preimages,
  invoices and keysends under the velocity limit, pruning, and what survives a restart. The
  log prefix and the last summary string are dropped; persistence always succeeds.
\<close>

section \<open>Routed payments\<close>

type_synonym PaymentPreimage = "u8 list"

record RoutedPayment =
  incoming :: "(ChannelId \<times> u64) list"
  outgoing :: "(ChannelId \<times> u64) list"
  incoming_cltv_min :: "u32 option"
  outgoing_cltv_max :: "u32 option"
  preimage :: "PaymentPreimage option"

definition routed_payment_new :: RoutedPayment where
  "routed_payment_new = \<lparr>incoming = [], outgoing = [], incoming_cltv_min = None,
     outgoing_cltv_max = None, preimage = None\<rparr>"

definition is_fulfilled_payment :: "RoutedPayment \<Rightarrow> bool" where
  "is_fulfilled_payment p \<longleftrightarrow> preimage p \<noteq> None"

definition map_sum :: "(ChannelId \<times> u64) list \<Rightarrow> u64" where
  "map_sum m = sum_list (map snd m)"

definition is_no_incoming :: "RoutedPayment \<Rightarrow> bool" where
  "is_no_incoming p \<longleftrightarrow> map_sum (incoming p) = 0"

definition is_no_outgoing :: "RoutedPayment \<Rightarrow> bool" where
  "is_no_outgoing p \<longleftrightarrow> map_sum (outgoing p) = 0"

definition updated_incoming_outgoing :: "RoutedPayment \<Rightarrow> ChannelId \<Rightarrow> u64 \<Rightarrow> u64 \<Rightarrow> u64 \<times> u64" where
  "updated_incoming_outgoing p channel_id incoming_sat outgoing_sat =
     (map_sum (incoming p) + incoming_sat - get_or 0 (incoming p) channel_id,
      map_sum (outgoing p) + outgoing_sat - get_or 0 (outgoing p) channel_id)"

definition incoming_outgoing :: "RoutedPayment \<Rightarrow> u64 \<times> u64" where
  "incoming_outgoing p = (map_sum (incoming p), map_sum (outgoing p))"

definition payment_apply ::
  "RoutedPayment \<Rightarrow> ChannelId \<Rightarrow> u64 \<Rightarrow> u64 \<Rightarrow> u32 option \<Rightarrow> u32 option \<Rightarrow> RoutedPayment" where
  "payment_apply p channel_id incoming_sat outgoing_sat incoming_cltv outgoing_cltv =
     p\<lparr>incoming := AList.update channel_id incoming_sat (incoming p),
       outgoing := AList.update channel_id outgoing_sat (outgoing p),
       incoming_cltv_min := (case incoming_cltv of
           None \<Rightarrow> incoming_cltv_min p
         | Some c \<Rightarrow> Some (case incoming_cltv_min p of None \<Rightarrow> c | Some e \<Rightarrow> min e c)),
       outgoing_cltv_max := (case outgoing_cltv of
           None \<Rightarrow> outgoing_cltv_max p
         | Some c \<Rightarrow> Some (case outgoing_cltv_max p of None \<Rightarrow> c | Some e \<Rightarrow> max e c))\<rparr>"

definition get_cltv_bounds :: "RoutedPayment \<Rightarrow> (u32 \<times> u32) option" where
  "get_cltv_bounds p =
     (case (incoming_cltv_min p, outgoing_cltv_max p) of
        (Some inc, Some out) \<Rightarrow> Some (inc, out)
      | _ \<Rightarrow> None)"

section \<open>The node state\<close>

datatype PaymentType = InvoicePayment | Keysend

record PaymentState =
  invoice_hash :: "256 word"
  amount_msat :: u64
  payee :: PublicKey
  duration_since_epoch :: Duration
  expiry_duration :: Duration
  is_fulfilled :: bool
  payment_type :: PaymentType

datatype Allowable = AllowScript Script | AllowXPub "u8 list" | AllowPayee PublicKey

record NodeState =
  invoices :: "(PaymentHash \<times> PaymentState) list"
  issued_invoices :: "(PaymentHash \<times> PaymentState) list"
  payments :: "(PaymentHash \<times> RoutedPayment) list"
  excess_amount :: u64
  velocity_control :: VelocityControl
  node_fee_velocity_control :: VelocityControl
  dbid_high_water_mark :: u64
  allowlist :: "Allowable list"

definition node_state_new :: "VelocityControl \<Rightarrow> VelocityControl \<Rightarrow> Allowable list \<Rightarrow> NodeState" where
  "node_state_new vc fee_vc allow =
     \<lparr>invoices = [], issued_invoices = [], payments = [], excess_amount = 0, velocity_control = vc,
      node_fee_velocity_control = fee_vc, dbid_high_water_mark = 0, allowlist = remdups allow\<rparr>"

definition node_state_restore ::
  "(PaymentPreimage \<Rightarrow> PaymentHash) \<Rightarrow> (PaymentHash \<times> PaymentState) list \<Rightarrow>
   (PaymentHash \<times> PaymentState) list \<Rightarrow> PaymentPreimage list \<Rightarrow> u64 \<Rightarrow> VelocityControl \<Rightarrow>
   VelocityControl \<Rightarrow> u64 \<Rightarrow> Allowable list \<Rightarrow> NodeState" where
  "node_state_restore sha invoices_v issued_v preimages excess vc fee_vc high_water allow =
     \<lparr>invoices = foldl (\<lambda>m (k, s). AList.update k s m) [] invoices_v,
      issued_invoices = foldl (\<lambda>m (k, s). AList.update k s m) [] issued_v,
      payments = foldl (\<lambda>m p. AList.update (sha p) (routed_payment_new\<lparr>preimage := Some p\<rparr>) m) [] preimages,
      excess_amount = excess, velocity_control = vc, node_fee_velocity_control = fee_vc,
      dbid_high_water_mark = high_water, allowlist = remdups allow\<rparr>"

text \<open>\<^verbatim>\<open>with_log_prefix\<close> keeps everything but the two velocity controls.\<close>

definition with_log_prefix :: "NodeState \<Rightarrow> VelocityControl \<Rightarrow> VelocityControl \<Rightarrow> NodeState" where
  "with_log_prefix ns vc fee_vc = ns\<lparr>velocity_control := vc, node_fee_velocity_control := fee_vc\<rparr>"

text \<open>The state part of \<^verbatim>\<open>Node::new_full\<close>, with the controls made from the policy.\<close>

definition new_full_state ::
  "NodeState \<Rightarrow> VelocityControlSpec \<Rightarrow> VelocityControlSpec \<Rightarrow> (NodeState, 'e) result" where
  "new_full_state ns global_spec fee_spec =
     and_then (velocity_new global_spec) (\<lambda>vc.
     and_then (velocity_new fee_spec) (\<lambda>fee_vc.
     Ok (with_log_prefix ns vc fee_vc)))"

text \<open>The state part of \<^verbatim>\<open>Node::restore_node\<close>, before the channels are restored.\<close>

definition restore_node_state ::
  "NodeState \<Rightarrow> Allowable list \<Rightarrow> VelocityControlSpec \<Rightarrow> VelocityControlSpec \<Rightarrow> (NodeState, 'e) result" where
  "restore_node_state ns allow global_spec fee_spec =
     (let ns = ns\<lparr>allowlist := remdups allow\<rparr>;
          ns = ns\<lparr>payments := foldl (\<lambda>m h. AList.update h routed_payment_new m) (payments ns)
                                (map fst (invoices ns))\<rparr>
      in new_full_state ns global_spec fee_spec)"

definition has_preimage :: "NodeState \<Rightarrow> PaymentHash \<Rightarrow> bool" where
  "has_preimage ns hash =
     (case map_of (payments ns) hash of Some p \<Rightarrow> preimage p \<noteq> None | None \<Rightarrow> False)"

section \<open>Payments of a new commitment\<close>

definition payment_hashes :: "payment_map \<Rightarrow> payment_map \<Rightarrow> PaymentHash list" where
  "payment_hashes inc out = remdups (map fst inc @ map fst out)"

text \<open>One hash of the preflight check: whether it makes the payment unbalanced.\<close>

definition validate_payment ::
  "NodeState \<Rightarrow> ChannelId \<Rightarrow> payment_map \<Rightarrow> payment_map \<Rightarrow> Validator \<Rightarrow> PaymentHash \<Rightarrow> bool checked" where
  "validate_payment ns channel_id inc out v hash =
     (let incoming_for_chan = get_or 0 inc hash; outgoing_for_chan = get_or 0 out hash;
          payment = map_of (payments ns) hash
      in and_then
           (case payment of
              Some p \<Rightarrow>
                and_then
                  (case get_cltv_bounds p of
                     Some (icltv, ocltv) \<Rightarrow> v_validate_payment_cltv v icltv ocltv
                   | None \<Rightarrow> Ok ()) (\<lambda>_.
                Ok (updated_incoming_outgoing p channel_id incoming_for_chan outgoing_for_chan))
            | None \<Rightarrow> Ok (incoming_for_chan, outgoing_for_chan)) (\<lambda>(incoming_sat, outgoing_sat).
         let invoiced = map_option amount_msat (map_of (invoices ns) hash)
         in case v_validate_payment_balance v (incoming_sat * 1000) (outgoing_sat * 1000) invoiced of
              Ok _ \<Rightarrow> Ok False
            | Err _ \<Rightarrow> Ok (\<not> (payment \<noteq> None \<and> invoiced = None))
            | Panic \<Rightarrow> Panic))"

fun unbalanced_payments ::
  "NodeState \<Rightarrow> ChannelId \<Rightarrow> payment_map \<Rightarrow> payment_map \<Rightarrow> Validator \<Rightarrow> PaymentHash list \<Rightarrow>
   PaymentHash list checked" where
  "unbalanced_payments ns channel_id inc out v [] = Ok []"
| "unbalanced_payments ns channel_id inc out v (hash # hashes) =
     and_then (validate_payment ns channel_id inc out v hash) (\<lambda>bad.
     and_then (unbalanced_payments ns channel_id inc out v hashes) (\<lambda>rest.
     Ok (if bad then hash # rest else rest)))"

definition adjusted_excess :: "u64 \<Rightarrow> u64 \<times> u64 \<Rightarrow> (u64 option, 'e) result" where
  "adjusted_excess excess delta =
     and_then (expect (checked_add excess (snd delta))) (\<lambda>s. Ok (checked_sub s (fst delta)))"

definition validate_payments ::
  "NodeState \<Rightarrow> ChannelId \<Rightarrow> payment_map \<Rightarrow> payment_map \<Rightarrow> u64 \<times> u64 \<Rightarrow> Validator \<Rightarrow> unit checked" where
  "validate_payments ns channel_id inc out balance_delta v =
     and_then (unbalanced_payments ns channel_id inc out v (payment_hashes inc out)) (\<lambda>unbalanced.
     and_then (policy_err_if (v_filter v) (unbalanced \<noteq> []) ''policy-commitment-htlc-routing-balance'') (\<lambda>_.
     if v_enforce_balance v then
       and_then (adjusted_excess (excess_amount ns) balance_delta) (\<lambda>adjusted.
       and_then (ok_or adjusted (policy_error ''policy-routing-balanced'')) (\<lambda>_. Ok ()))
     else Ok ()))"

fun list_min :: "u32 list \<Rightarrow> u32 option" where
  "list_min [] = None"
| "list_min (x # xs) = Some (case list_min xs of None \<Rightarrow> x | Some y \<Rightarrow> min x y)"

fun list_max :: "u32 list \<Rightarrow> u32 option" where
  "list_max [] = None"
| "list_max (x # xs) = Some (case list_max xs of None \<Rightarrow> x | Some y \<Rightarrow> max x y)"

definition cltvs_of :: "PaymentHash \<Rightarrow> HTLCInfo2 list \<Rightarrow> u32 list" where
  "cltvs_of hash htlcs = map cltv_expiry (filter (\<lambda>h. payment_hash h = hash) htlcs)"

definition commit_cltvs :: "CommitmentInfo2 option \<Rightarrow> PaymentHash \<Rightarrow> u32 option \<times> u32 option" where
  "commit_cltvs commit_info hash =
     (case commit_info of
        None \<Rightarrow> (None, None)
      | Some info \<Rightarrow>
          let (inc, out) = (if is_counterparty_broadcaster info
                            then (offered_htlcs info, received_htlcs info)
                            else (received_htlcs info, offered_htlcs info))
          in (list_min (cltvs_of hash inc), list_max (cltvs_of hash out)))"

text \<open>\<^verbatim>\<open>map.get_mut(k).expect(..)\<close> for every key of a list.\<close>

fun update_existing ::
  "('k \<Rightarrow> 'v \<Rightarrow> 'v) \<Rightarrow> 'k list \<Rightarrow> ('k \<times> 'v) list \<Rightarrow> (('k \<times> 'v) list, 'e) result" where
  "update_existing f [] m = Ok m"
| "update_existing f (k # ks) m =
     and_then (expect (map_of m k)) (\<lambda>x. update_existing f ks (AList.update k (f k x) m))"

definition fulfils_issued :: "NodeState \<Rightarrow> ChannelId \<Rightarrow> payment_map \<Rightarrow> payment_map \<Rightarrow> PaymentHash \<Rightarrow> bool" where
  "fulfils_issued ns channel_id inc out hash =
     (let payment = get_or routed_payment_new (payments ns) hash in
      case map_of (issued_invoices ns) hash of
        None \<Rightarrow> False
      | Some issued \<Rightarrow>
          \<not> is_fulfilled_payment payment \<and>
          (let (incoming_sat, outgoing_sat) = updated_incoming_outgoing payment channel_id
                 (get_or 0 inc hash) (get_or 0 out hash)
           in incoming_sat \<ge> outgoing_sat + amount_msat issued div 1000))"

definition mark_issued_fulfilled ::
  "PaymentHash list \<Rightarrow> (PaymentHash \<times> PaymentState) list \<Rightarrow> (PaymentHash \<times> PaymentState) list" where
  "mark_issued_fulfilled hashes m =
     foldl (\<lambda>m h. case map_of m h of Some i \<Rightarrow> AList.update h (i\<lparr>is_fulfilled := True\<rparr>) m | None \<Rightarrow> m) m hashes"

definition apply_payments ::
  "NodeState \<Rightarrow> ChannelId \<Rightarrow> payment_map \<Rightarrow> payment_map \<Rightarrow> u64 \<times> u64 \<Rightarrow> Validator \<Rightarrow>
   CommitmentInfo2 option \<Rightarrow> (NodeState, 'e) result" where
  "apply_payments ns channel_id inc out balance_delta v commit_info =
     (let hashes = payment_hashes inc out;
          ns = ns\<lparr>payments := foldl (\<lambda>m h. entry_or_insert routed_payment_new h m) (payments ns) hashes\<rparr>;
          fulfilled = filter (fulfils_issued ns channel_id inc out) hashes;
          ns = ns\<lparr>issued_invoices := mark_issued_fulfilled fulfilled (issued_invoices ns)\<rparr>
      in and_then
           (if v_enforce_balance v then
              and_then (adjusted_excess (excess_amount ns) balance_delta) (\<lambda>adjusted.
              and_then (expect adjusted) (\<lambda>excess.
              and_then (update_existing (\<lambda>_ p. p\<lparr>preimage := Some (replicate 32 0)\<rparr>) fulfilled (payments ns)) (\<lambda>ps.
              Ok (ns\<lparr>payments := ps, excess_amount := excess\<rparr>))))
            else Ok ns) (\<lambda>ns.
         and_then (update_existing (\<lambda>hash p.
             let (icltv, ocltv) = commit_cltvs commit_info hash
             in payment_apply p channel_id (get_or 0 inc hash) (get_or 0 out hash) icltv ocltv)
           hashes (payments ns)) (\<lambda>ps.
         Ok (ns\<lparr>payments := ps\<rparr>))))"

definition htlc_fulfilled ::
  "(PaymentPreimage \<Rightarrow> PaymentHash) \<Rightarrow> NodeState \<Rightarrow> PaymentPreimage \<Rightarrow> Validator \<Rightarrow>
   (NodeState \<times> bool, 'e) result" where
  "htlc_fulfilled sha ns pre v =
     (let hash = sha pre;
          (ns, fulfilled) =
            (case map_of (issued_invoices ns) hash of
               Some issued \<Rightarrow>
                 if \<not> is_fulfilled issued then
                   (ns\<lparr>issued_invoices := AList.update hash (issued\<lparr>is_fulfilled := True\<rparr>) (issued_invoices ns)\<rparr>, True)
                 else (ns, False)
             | None \<Rightarrow> (ns, False))
      in case map_of (payments ns) hash of
           None \<Rightarrow> Ok (ns, fulfilled)
         | Some payment \<Rightarrow>
             if preimage payment \<noteq> None then Ok (ns, fulfilled)
             else
               let (inc, out) = incoming_outgoing payment in
               and_then
                 (if map_of (invoices ns) hash = None \<and> v_enforce_balance v then
                    and_then (expect (checked_add (excess_amount ns) inc)) (\<lambda>excess.
                    expect (checked_sub excess out))
                  else Ok (excess_amount ns)) (\<lambda>excess.
               Ok (ns\<lparr>excess_amount := excess,
                      payments := AList.update hash (payment\<lparr>preimage := Some pre\<rparr>) (payments ns)\<rparr>, True)))"

fun htlcs_fulfilled ::
  "(PaymentPreimage \<Rightarrow> PaymentHash) \<Rightarrow> NodeState \<Rightarrow> PaymentPreimage list \<Rightarrow> Validator \<Rightarrow> (NodeState, 'e) result" where
  "htlcs_fulfilled sha ns [] v = Ok ns"
| "htlcs_fulfilled sha ns (pre # pres) v =
     and_then (htlc_fulfilled sha ns pre v) (\<lambda>(ns, _). htlcs_fulfilled sha ns pres v)"

section \<open>Pruning\<close>

definition INVOICE_PRUNE_TIME :: Duration where "INVOICE_PRUNE_TIME = from_secs (60 * 60 * 24)"
definition KEYSEND_PRUNE_TIME :: Duration where "KEYSEND_PRUNE_TIME = from_secs 0"

definition prune_time :: "PaymentState \<Rightarrow> Duration" where
  "prune_time ps = (case payment_type ps of InvoicePayment \<Rightarrow> INVOICE_PRUNE_TIME | Keysend \<Rightarrow> KEYSEND_PRUNE_TIME)"

definition prune_deadline :: "PaymentState \<Rightarrow> (Duration, 'e) result" where
  "prune_deadline ps =
     and_then (duration_add (duration_since_epoch ps) (expiry_duration ps)) (\<lambda>t.
     duration_add t (prune_time ps))"

text \<open>\<^verbatim>\<open>retain\<close> with a predicate that may panic.\<close>

fun retain :: "('k \<Rightarrow> 'v \<Rightarrow> (bool, 'e) result) \<Rightarrow> ('k \<times> 'v) list \<Rightarrow> (('k \<times> 'v) list, 'e) result" where
  "retain keep [] = Ok []"
| "retain keep ((k, x) # m) =
     and_then (keep k x) (\<lambda>b. and_then (retain keep m) (\<lambda>m'. Ok (if b then (k, x) # m' else m')))"

definition prune_issued_invoices :: "NodeState \<Rightarrow> Duration \<Rightarrow> (NodeState \<times> bool, 'e) result" where
  "prune_issued_invoices ns now =
     and_then (retain (\<lambda>_ issued. and_then (prune_deadline issued) (\<lambda>t. Ok (t > now))) (issued_invoices ns)) (\<lambda>kept.
     Ok (ns\<lparr>issued_invoices := kept\<rparr>, length kept < length (issued_invoices ns)))"

definition is_invoice_prunable :: "Duration \<Rightarrow> PaymentState \<Rightarrow> RoutedPayment \<Rightarrow> (bool, 'e) result" where
  "is_invoice_prunable now ps payment =
     (let complete = is_fulfilled_payment payment \<or> is_no_outgoing payment in
      and_then (prune_deadline ps) (\<lambda>t. Ok (now > t \<and> complete)))"

definition prune_invoices :: "NodeState \<Rightarrow> Duration \<Rightarrow> (NodeState \<times> bool, 'e) result" where
  "prune_invoices ns now =
     and_then (retain (\<lambda>hash ps. and_then (expect (map_of (payments ns) hash)) (is_invoice_prunable now ps))
         (invoices ns)) (\<lambda>prune.
     let invoices' = filter (\<lambda>(h, _). h \<notin> fst ` set prune) (invoices ns);
         payments' = filter (\<lambda>(h, _). h \<notin> fst ` set prune) (payments ns)
     in Ok (ns\<lparr>invoices := invoices', payments := payments'\<rparr>,
            length invoices' < length (invoices ns) \<or> length payments' < length (payments ns)))"

definition is_forwarded_payment_prunable :: "NodeState \<Rightarrow> PaymentHash \<Rightarrow> RoutedPayment \<Rightarrow> bool" where
  "is_forwarded_payment_prunable ns hash payment \<longleftrightarrow>
     map_of (invoices ns) hash = None \<and> map_of (issued_invoices ns) hash = None
     \<and> is_no_incoming payment \<and> is_no_outgoing payment"

definition prune_forwarded_payments :: "NodeState \<Rightarrow> NodeState \<times> bool" where
  "prune_forwarded_payments ns =
     (let payments' = filter (\<lambda>(h, p). \<not> is_forwarded_payment_prunable ns h p) (payments ns)
      in (ns\<lparr>payments := payments'\<rparr>, length payments' < length (payments ns)))"

text \<open>The pruning that \<^verbatim>\<open>Node::get_heartbeat\<close> does.\<close>

definition heartbeat_prune :: "NodeState \<Rightarrow> Duration \<Rightarrow> (NodeState \<times> bool, 'e) result" where
  "heartbeat_prune ns now =
     and_then (prune_invoices ns now) (\<lambda>(ns, pruned1).
     and_then (prune_issued_invoices ns now) (\<lambda>(ns, pruned2).
     let (ns, pruned3) = prune_forwarded_payments ns
     in Ok (ns, pruned1 \<or> pruned2 \<or> pruned3)))"

section \<open>Invoices and keysends\<close>

text \<open>What the code reads of an invoice (\<^verbatim>\<open>InvoiceAttributes\<close> of \<^verbatim>\<open>vls-core/src/invoice.rs\<close>).\<close>

record Invoice =
  inv_invoice_hash :: "256 word"
  inv_payment_hash :: PaymentHash
  inv_amount_milli_satoshis :: u64
  inv_payee_pub_key :: PublicKey
  inv_duration_since_epoch :: Duration
  inv_expiry_duration :: Duration

definition payment_state_from_invoice :: "Invoice \<Rightarrow> PaymentHash \<times> PaymentState \<times> 256 word" where
  "payment_state_from_invoice invoice =
     (inv_payment_hash invoice,
      \<lparr>invoice_hash = inv_invoice_hash invoice, amount_msat = inv_amount_milli_satoshis invoice,
       payee = inv_payee_pub_key invoice, duration_since_epoch = inv_duration_since_epoch invoice,
       expiry_duration = inv_expiry_duration invoice, is_fulfilled = False,
       payment_type = InvoicePayment\<rparr>,
      inv_invoice_hash invoice)"

definition payment_state_from_keysend ::
  "PublicKey \<Rightarrow> PaymentHash \<Rightarrow> u64 \<Rightarrow> Duration \<Rightarrow> PaymentState \<times> 256 word" where
  "payment_state_from_keysend payee_key hash amount now =
     (\<lparr>invoice_hash = hash, amount_msat = amount, payee = payee_key, duration_since_epoch = now,
       expiry_duration = from_secs 60, is_fulfilled = False, payment_type = Keysend\<rparr>, hash)"

definition as_secs :: "Duration \<Rightarrow> u64" where "as_secs d = of_nat (d div 1000000000)"

text \<open>The common tail of \<^verbatim>\<open>add_invoice\<close> and \<^verbatim>\<open>add_keysend\<close>.\<close>

definition add_payment ::
  "NodeState \<Rightarrow> nat \<Rightarrow> Duration \<Rightarrow> PaymentHash \<Rightarrow> PaymentState \<Rightarrow> (NodeState \<times> bool, Status) result" where
  "add_payment ns max_inv now hash ps =
     and_then (err_if (length (invoices ns) \<ge> max_inv) FailedPrecondition) (\<lambda>_.
     case map_of (invoices ns) hash of
       Some existing \<Rightarrow>
         if invoice_hash existing = invoice_hash ps then Ok (ns, True) else Err FailedPrecondition
     | None \<Rightarrow>
         and_then (velocity_insert (velocity_control ns) (as_secs now) (amount_msat ps)) (\<lambda>(vc, accepted).
         let ns = ns\<lparr>velocity_control := vc\<rparr> in
         if \<not> accepted then Ok (ns, False)
         else Ok (ns\<lparr>invoices := AList.update hash ps (invoices ns),
                     payments := entry_or_insert routed_payment_new hash (payments ns)\<rparr>, True)))"

definition add_invoice ::
  "Validator \<Rightarrow> NodeState \<Rightarrow> Duration \<Rightarrow> Invoice \<Rightarrow> (NodeState \<times> bool, Status) result" where
  "add_invoice v ns now invoice =
     and_then (map_err status_of_validation_error
         (validate_invoice (v_filter v) (inv_duration_since_epoch invoice) (inv_expiry_duration invoice) now)) (\<lambda>_.
     let (hash, ps, _) = payment_state_from_invoice invoice
     in add_payment ns (v_max_invoices v) now hash ps)"

definition add_keysend ::
  "Validator \<Rightarrow> NodeState \<Rightarrow> Duration \<Rightarrow> PublicKey \<Rightarrow> PaymentHash \<Rightarrow> u64 \<Rightarrow>
   (NodeState \<times> bool, Status) result" where
  "add_keysend v ns now payee_key hash amount =
     (let (ps, _) = payment_state_from_keysend payee_key hash amount now
      in add_payment ns (v_max_invoices v) now hash ps)"

definition has_payment :: "NodeState \<Rightarrow> PaymentHash \<Rightarrow> 256 word \<Rightarrow> (bool, Status) result" where
  "has_payment ns hash inv_hash =
     (case map_of (invoices ns) hash of
        Some ps \<Rightarrow> if invoice_hash ps = inv_hash then Ok True else Err FailedPrecondition
      | None \<Rightarrow> Ok False)"

text \<open>The bookkeeping of \<^verbatim>\<open>sign_bolt11_invoice\<close>; the signature itself is not modelled.\<close>

definition track_issued_invoice :: "NodeState \<Rightarrow> nat \<Rightarrow> Invoice \<Rightarrow> (NodeState, Status) result" where
  "track_issued_invoice ns max_inv invoice =
     (let (hash, ps, inv_hash) = payment_state_from_invoice invoice in
      and_then (err_if (length (issued_invoices ns) \<ge> max_inv) FailedPrecondition) (\<lambda>_.
      case map_of (issued_invoices ns) hash of
        Some existing \<Rightarrow> if invoice_hash existing = inv_hash then Ok ns else Err FailedPrecondition
      | None \<Rightarrow>
          Ok (if amount_msat ps > 0
              then ns\<lparr>issued_invoices := AList.update hash ps (issued_invoices ns)\<rparr> else ns)))"

definition update_velocity_controls ::
  "NodeState \<Rightarrow> VelocityControlSpec \<Rightarrow> VelocityControlSpec \<Rightarrow> NodeState" where
  "update_velocity_controls ns global_spec fee_spec =
     ns\<lparr>velocity_control := update_spec (velocity_control ns) global_spec,
        node_fee_velocity_control := update_spec (node_fee_velocity_control ns) fee_spec\<rparr>"

end
