(* ===== verification/PaymentSafety.thy ===== *)
theory PaymentSafety
  imports Payments
begin

text \<open>
  What holds of the payment state over whole runs: the records stay consistent, an accepted
  commitment keeps every invoiced payment within its invoice, and approvals respect the velocity
  limit. The last section shows what a restart forgets.
\<close>

section \<open>Updating the maps\<close>

text \<open>Lookups stay lookups: they are not rewritten to membership in the association list.\<close>

declare map_of_eq_Some_iff [simp del] Some_eq_map_of_iff [simp del]

lemma get_or_Nil [simp]: "get_or d [] k = d"
  by (simp add: get_or_def)

lemma map_sum_update:
  "wf_map m \<Longrightarrow> map_sum (AList.update k x m) = map_sum m + x - get_or 0 m k"
proof (induction m)
  case (Cons kv m)
  obtain k' x' where kv: "kv = (k', x')" by force
  with Cons show ?case by (auto simp: map_sum_def get_or_def)
qed (simp add: map_sum_def)

lemma payment_apply_totals:
  "\<lbrakk>wf_map (incoming p); wf_map (outgoing p)\<rbrakk> \<Longrightarrow>
   incoming_outgoing (payment_apply p c i out ic oc) = updated_incoming_outgoing p c i out"
  by (simp add: incoming_outgoing_def payment_apply_def updated_incoming_outgoing_def map_sum_update)

lemma update_existing_Ok:
  assumes "set ks \<subseteq> fst ` set m" "distinct ks"
  obtains m' where "update_existing f ks m = Ok m'"
    "\<And>k. map_of m' k = (if k \<in> set ks then map_option (f k) (map_of m k) else map_of m k)"
    "wf_map m \<Longrightarrow> wf_map m'" "fst ` set m' = fst ` set m"
proof -
  have "\<exists>m'. update_existing f ks m = Ok m'
      \<and> (\<forall>k. map_of m' k = (if k \<in> set ks then map_option (f k) (map_of m k) else map_of m k))
      \<and> (wf_map m \<longrightarrow> wf_map m') \<and> fst ` set m' = fst ` set m"
    using assms
  proof (induction ks arbitrary: m)
    case (Cons k ks)
    then obtain x where x: "map_of m k = Some x"
      by (metis insert_subset list.simps(15) map_of_eq_None_iff not_Some_eq)
    have dom: "fst ` set (AList.update k (f k x) m) = fst ` set m"
      using x by (metis dom_fun_upd dom_map_of_conv_image_fst insert_absorb domI map_of_update_alist option.distinct(1))
    from Cons.IH [of "AList.update k (f k x) m"] Cons.prems dom x show ?case by fastforce
  qed simp
  with that show thesis by blast
qed

lemma map_of_ensure:
  "map_of (foldl (\<lambda>m h. entry_or_insert d h m) m hs) k =
     (case map_of m k of Some x \<Rightarrow> Some x | None \<Rightarrow> if k \<in> set hs then Some d else None)"
  by (induction hs arbitrary: m) (auto simp: map_of_entry_or_insert split: option.splits)

lemma wf_map_ensure: "wf_map m \<Longrightarrow> wf_map (foldl (\<lambda>m h. entry_or_insert d h m) m hs)"
  by (rule wf_map_foldl) auto

lemma map_of_reset:
  "map_of (foldl (\<lambda>m h. AList.update h d m) m hs) k = (if k \<in> set hs then Some d else map_of m k)"
  by (induction hs arbitrary: m) auto

section \<open>Consistent records\<close>

definition payment_wf :: "RoutedPayment \<Rightarrow> bool" where
  "payment_wf p \<longleftrightarrow> wf_map (incoming p) \<and> wf_map (outgoing p)"

definition node_state_ok :: "NodeState \<Rightarrow> bool" where
  "node_state_ok ns \<longleftrightarrow>
     wf_map (invoices ns) \<and> wf_map (issued_invoices ns) \<and> wf_map (payments ns)
     \<and> (\<forall>h p. map_of (payments ns) h = Some p \<longrightarrow> payment_wf p)
     \<and> (\<forall>h. map_of (invoices ns) h \<noteq> None \<longrightarrow> map_of (payments ns) h \<noteq> None)"

lemma payment_wf_new [simp]: "payment_wf routed_payment_new"
  by (simp add: payment_wf_def routed_payment_new_def)

lemma payment_wf_apply: "payment_wf p \<Longrightarrow> payment_wf (payment_apply p c i out ic oc)"
  by (simp add: payment_wf_def payment_apply_def)

lemma wf_map_mark_issued: "wf_map m \<Longrightarrow> wf_map (mark_issued_fulfilled hs m)"
  unfolding mark_issued_fulfilled_def by (rule wf_map_foldl) (auto split: option.splits)

lemma apply_payments_Ok:
  assumes ok: "node_state_ok ns"
    and excess: "v_enforce_balance v \<Longrightarrow> adjusted_excess (excess_amount ns) delta = (Ok (Some e) :: (_, 'e) result)"
  obtains ns' where "apply_payments ns c inc out delta v info = (Ok ns' :: (_, 'e) result)"
    "node_state_ok ns'" "invoices ns' = invoices ns"
    "excess_amount ns' = (if v_enforce_balance v then e else excess_amount ns)"
    "velocity_control ns' = velocity_control ns"
    "\<And>h. h \<notin> set (payment_hashes inc out) \<Longrightarrow> map_of (payments ns') h = map_of (payments ns) h"
    "\<And>h. h \<in> set (payment_hashes inc out) \<Longrightarrow> \<exists>p'. map_of (payments ns') h = Some p'
       \<and> incoming_outgoing p' = updated_incoming_outgoing
           (get_or routed_payment_new (payments ns) h) c (get_or 0 inc h) (get_or 0 out h)"
proof -
  let ?hs = "payment_hashes inc out"
  define m0 where "m0 = foldl (\<lambda>m h. entry_or_insert routed_payment_new h m) (payments ns) ?hs"
  define ns1 where "ns1 = ns\<lparr>payments := m0\<rparr>"
  define ful where "ful = filter (fulfils_issued ns1 c inc out) ?hs"
  let ?mark = "\<lambda>(_ :: PaymentHash) p. p\<lparr>preimage := Some (replicate 32 0)\<rparr> :: RoutedPayment"
  let ?app = "\<lambda>h p. let (icltv, ocltv) = commit_cltvs info h
     in payment_apply p c (get_or 0 inc h) (get_or 0 out h) icltv ocltv"
  have m0: "map_of m0 h = (case map_of (payments ns) h of Some x \<Rightarrow> Some x
      | None \<Rightarrow> if h \<in> set ?hs then Some routed_payment_new else None)" for h
    by (simp add: m0_def map_of_ensure)
  have wf0: "wf_map m0" using ok by (simp add: m0_def wf_map_ensure node_state_ok_def)
  have dom0: "set ?hs \<subseteq> fst ` set m0"
    by (auto simp: m0 dom_map_of_conv_image_fst [symmetric] domIff split: option.splits)
  have dist: "distinct ?hs" "distinct ful" by (simp_all add: payment_hashes_def ful_def)
  obtain m1 where m1: "update_existing ?mark ful m0 = (Ok m1 :: (_, 'e) result)"
    "\<And>k. map_of m1 k = (if k \<in> set ful then map_option (?mark k) (map_of m0 k) else map_of m0 k)"
    "wf_map m1" "fst ` set m1 = fst ` set m0"
    using update_existing_Ok [of ful m0 ?mark] dom0 dist wf0 by (auto simp: ful_def)
  define m2 where "m2 = (if v_enforce_balance v then m1 else m0)"
  have m2: "wf_map m2" "set ?hs \<subseteq> fst ` set m2" using m1(3,4) wf0 dom0 by (auto simp: m2_def)
  have m2_old: "\<exists>q. map_of m0 k = Some q \<and> incoming p = incoming q \<and> outgoing p = outgoing q"
    if "map_of m2 k = Some p" for k p
    using that m1(2) [of k] by (cases "map_of m0 k") (auto simp: m2_def split: if_splits)
  have m2_frame: "map_of m2 k = map_of m0 k" if "k \<notin> set ?hs" for k
    using that m1(2) [of k] by (simp add: m2_def ful_def)
  obtain m3 where m3: "update_existing ?app ?hs m2 = (Ok m3 :: (_, 'e) result)"
    "\<And>k. map_of m3 k = (if k \<in> set ?hs then map_option (?app k) (map_of m2 k) else map_of m2 k)"
    "wf_map m3" "fst ` set m3 = fst ` set m2"
    using update_existing_Ok [of ?hs m2 ?app] m2(1,2) dist by auto
  define ns' where "ns' = ns\<lparr>issued_invoices := mark_issued_fulfilled ful (issued_invoices ns),
      excess_amount := (if v_enforce_balance v then e else excess_amount ns), payments := m3\<rparr>"
  have run: "apply_payments ns c inc out delta v info = (Ok ns' :: (_, 'e) result)"
    using excess m1(1) m3(1)
    by (simp add: apply_payments_def Let_def m0_def [symmetric] ns1_def [symmetric] ful_def [symmetric]
        ns'_def m2_def)
      (simp add: ns1_def m2_def split: if_splits)
  have old_wf: "payment_wf (get_or routed_payment_new (payments ns) h)" for h
    using ok by (auto simp: node_state_ok_def get_or_def split: option.splits)
  have hit: "\<exists>q p'. map_of m2 h = Some q \<and> map_of m3 h = Some p' \<and> payment_wf p'
      \<and> incoming_outgoing p' = updated_incoming_outgoing
           (get_or routed_payment_new (payments ns) h) c (get_or 0 inc h) (get_or 0 out h)"
    if h: "h \<in> set ?hs" for h
  proof -
    obtain q where q: "map_of m2 h = Some q" using m2(2) h by (metis map_of_eq_None_iff not_Some_eq subsetD)
    with m2_old [of h q] have same: "incoming q = incoming (get_or routed_payment_new (payments ns) h)"
      "outgoing q = outgoing (get_or routed_payment_new (payments ns) h)"
      using h by (auto simp: m0 get_or_def split: option.splits)
    with old_wf [of h] have "payment_wf q" by (simp add: payment_wf_def)
    then show ?thesis
      using q h same m3(2) [of h]
      by (auto simp: payment_wf_apply payment_apply_totals payment_wf_def [of q] updated_incoming_outgoing_def
          split: prod.splits)
  qed
  have miss: "map_of m3 h = map_of (payments ns) h" if "h \<notin> set ?hs" for h
    using that m3(2) [of h] m2_frame [of h] m0 [of h] by (simp split: option.splits)
  have "node_state_ok ns'"
    unfolding node_state_ok_def
  proof (intro conjI allI impI)
    show "wf_map (invoices ns')" "wf_map (issued_invoices ns')" "wf_map (payments ns')"
      using ok m3(3) by (simp_all add: ns'_def node_state_ok_def wf_map_mark_issued)
  next
    fix h p assume "map_of (payments ns') h = Some p"
    then show "payment_wf p"
      using hit [of h] miss [of h] ok by (cases "h \<in> set ?hs") (auto simp: ns'_def node_state_ok_def)
  next
    fix h assume "map_of (invoices ns') h \<noteq> None"
    then show "map_of (payments ns') h \<noteq> None"
      using hit [of h] miss [of h] ok by (cases "h \<in> set ?hs") (auto simp: ns'_def node_state_ok_def)
  qed
  with that [OF run] hit miss show thesis by (fastforce simp: ns'_def)
qed

lemma apply_payments_OkD:
  assumes "apply_payments ns c inc out delta v info = (Ok ns' :: (_, 'e) result)" "node_state_ok ns"
  shows "node_state_ok ns'" "invoices ns' = invoices ns" "velocity_control ns' = velocity_control ns"
proof -
  obtain e where e: "v_enforce_balance v \<Longrightarrow> adjusted_excess (excess_amount ns) delta = (Ok (Some e) :: (_, 'e) result)"
    using assms(1) by (cases "v_enforce_balance v") (auto simp: apply_payments_def Let_def result_simps)
  obtain ns'' where "apply_payments ns c inc out delta v info = (Ok ns'' :: (_, 'e) result)"
    "node_state_ok ns''" "invoices ns'' = invoices ns" "velocity_control ns'' = velocity_control ns"
    by (rule apply_payments_Ok [OF assms(2) e, where c = c and inc = inc and out = out and info = info])
  with assms(1) show "node_state_ok ns'" "invoices ns' = invoices ns" "velocity_control ns' = velocity_control ns"
    by simp_all
qed

section \<open>Preimages, pruning and approvals keep the records consistent\<close>

lemma htlc_fulfilled_OkD:
  assumes "htlc_fulfilled sha ns pre v = Ok (ns', b)" "node_state_ok ns"
  shows "node_state_ok ns'" "invoices ns' = invoices ns" "velocity_control ns' = velocity_control ns"
proof -
  let ?h = "sha pre"
  note def = assms(1) [unfolded htlc_fulfilled_def Let_def]
  show "invoices ns' = invoices ns" and "velocity_control ns' = velocity_control ns"
    using def by (auto simp: result_simps split: option.splits if_splits prod.splits)
  have "wf_map (issued_invoices ns')"
    using def assms(2) by (auto simp: result_simps node_state_ok_def split: option.splits if_splits prod.splits)
  moreover have "payments ns' = payments ns \<or> (\<exists>p. map_of (payments ns) ?h = Some p
      \<and> payments ns' = AList.update ?h (p\<lparr>preimage := Some pre\<rparr>) (payments ns))"
    using def by (auto simp: result_simps split: option.splits if_splits prod.splits)
  ultimately show "node_state_ok ns'"
    using assms(2) \<open>invoices ns' = invoices ns\<close>
    by (auto simp: node_state_ok_def payment_wf_def split: if_splits)
qed

lemma htlcs_fulfilled_OkD:
  "\<lbrakk>htlcs_fulfilled sha ns pres v = (Ok ns' :: (_, 'e) result); node_state_ok ns\<rbrakk> \<Longrightarrow>
   node_state_ok ns' \<and> invoices ns' = invoices ns \<and> velocity_control ns' = velocity_control ns"
proof (induction pres arbitrary: ns)
  case (Cons pre pres)
  then obtain ns1 b where 1: "htlc_fulfilled sha ns pre v = (Ok (ns1, b) :: (_, 'e) result)"
    and 2: "htlcs_fulfilled sha ns1 pres v = (Ok ns' :: (_, 'e) result)"
    by (auto simp: result_simps)
  from Cons.IH [OF 2] htlc_fulfilled_OkD [OF 1 Cons.prems(2)] show ?case by simp
qed simp

lemma retain_eq_Ok:
  "retain keep m = Ok m' \<longleftrightarrow>
   (\<forall>(k, x)\<in>set m. \<exists>b. keep k x = Ok b) \<and> m' = filter (\<lambda>(k, x). keep k x = Ok True) m"
proof (induction m arbitrary: m')
  case (Cons kx m)
  obtain k x where "kx = (k, x)" by force
  then show ?case
    by (cases "keep k x") (auto simp: and_then_eq_Ok Cons.IH)
qed auto

lemma prune_invoices_OkD:
  assumes "prune_invoices ns now = (Ok (ns', b) :: (_, 'e) result)" "node_state_ok ns"
  shows "node_state_ok ns'" "velocity_control ns' = velocity_control ns"
    "\<And>h ps. map_of (invoices ns) h = Some ps \<Longrightarrow> map_of (invoices ns') h = Some ps
       \<or> map_of (invoices ns') h = None \<and> (\<exists>p. map_of (payments ns) h = Some p \<and> (is_fulfilled_payment p \<or> is_no_outgoing p))"
proof -
  obtain prune where prune: "retain (\<lambda>hash ps. and_then (expect (map_of (payments ns) hash)) (is_invoice_prunable now ps))
      (invoices ns) = (Ok prune :: (_, 'e) result)"
    and ns': "ns' = ns\<lparr>invoices := filter (\<lambda>(h, _). h \<notin> fst ` set prune) (invoices ns),
      payments := filter (\<lambda>(h, _). h \<notin> fst ` set prune) (payments ns)\<rparr>"
    using assms(1) by (auto simp: prune_invoices_def Let_def result_simps)
  have complete: "\<exists>p. map_of (payments ns) h = Some p \<and> (is_fulfilled_payment p \<or> is_no_outgoing p)"
    if "h \<in> fst ` set prune" for h
    using that prune by (auto simp: retain_eq_Ok is_invoice_prunable_def Let_def result_simps)
  show "node_state_ok ns'" "velocity_control ns' = velocity_control ns"
    using assms(2) by (auto simp: ns' node_state_ok_def map_of_filter_key split: if_splits)
  show "map_of (invoices ns') h = Some ps
       \<or> map_of (invoices ns') h = None \<and> (\<exists>p. map_of (payments ns) h = Some p \<and> (is_fulfilled_payment p \<or> is_no_outgoing p))"
    if "map_of (invoices ns) h = Some ps" for h ps
    using that complete by (auto simp: ns' map_of_filter_key)
qed

lemma heartbeat_prune_OkD:
  assumes "heartbeat_prune ns now = (Ok (ns', b) :: (_, 'e) result)" "node_state_ok ns"
  shows "node_state_ok ns'" "velocity_control ns' = velocity_control ns"
    "\<And>h ps. map_of (invoices ns) h = Some ps \<Longrightarrow> map_of (invoices ns') h = Some ps
       \<or> map_of (invoices ns') h = None \<and> (\<exists>p. map_of (payments ns) h = Some p \<and> (is_fulfilled_payment p \<or> is_no_outgoing p))"
proof -
  obtain ns1 b1 ns2 b2 where ns1: "prune_invoices ns now = (Ok (ns1, b1) :: (_, 'e) result)"
    and ns2: "prune_issued_invoices ns1 now = (Ok (ns2, b2) :: (_, 'e) result)"
    and fwd: "ns' = fst (prune_forwarded_payments ns2)"
    using assms(1) by (auto simp: heartbeat_prune_def result_simps Let_def split_beta)
  obtain kept where kept: "retain (\<lambda>_ issued. and_then (prune_deadline issued) (\<lambda>t. Ok (t > now))) (issued_invoices ns1)
        = (Ok kept :: (_, 'e) result)" and "ns2 = ns1\<lparr>issued_invoices := kept\<rparr>"
    using ns2 by (auto simp: prune_issued_invoices_def result_simps)
  then have ns': "ns' = fst (prune_forwarded_payments (ns1\<lparr>issued_invoices := kept\<rparr>))" using fwd by simp
  have same: "invoices ns' = invoices ns1" "velocity_control ns' = velocity_control ns1"
    by (simp_all add: ns' prune_forwarded_payments_def Let_def)
  have "wf_map kept" using kept prune_invoices_OkD(1) [OF ns1 assms(2)] by (auto simp: retain_eq_Ok node_state_ok_def)
  then show "node_state_ok ns'"
    using prune_invoices_OkD(1) [OF ns1 assms(2)]
    by (auto simp: ns' prune_forwarded_payments_def Let_def node_state_ok_def map_of_filter_wf
        is_forwarded_payment_prunable_def split: option.splits if_splits)
  show "velocity_control ns' = velocity_control ns" using same prune_invoices_OkD(2) [OF ns1 assms(2)] by simp
  show "map_of (invoices ns') h = Some ps
       \<or> map_of (invoices ns') h = None \<and> (\<exists>p. map_of (payments ns) h = Some p \<and> (is_fulfilled_payment p \<or> is_no_outgoing p))"
    if "map_of (invoices ns) h = Some ps" for h ps
    using that same prune_invoices_OkD(3) [OF ns1 assms(2)] by simp
qed

lemma add_payment_OkD:
  assumes "add_payment ns max_inv now hash ps = Ok (ns', b)" "node_state_ok ns"
  shows "node_state_ok ns'" "map_of (invoices ns) h = Some ps' \<Longrightarrow> map_of (invoices ns') h = Some ps'"
  using assms
  by (auto simp: add_payment_def result_simps Let_def node_state_ok_def map_of_entry_or_insert
      split: option.splits if_splits)

section \<open>Runs of the node\<close>

text \<open>One rule per operation that changes the payment state.\<close>

inductive payment_step ::
  "(PaymentPreimage \<Rightarrow> PaymentHash) \<Rightarrow> Validator \<Rightarrow> NodeState \<Rightarrow> NodeState \<Rightarrow> bool" for sha v where
  step_commit: "apply_payments ns c inc out delta v info = (Ok ns' :: (_, unit) result) \<Longrightarrow> payment_step sha v ns ns'"
| step_fulfil: "htlcs_fulfilled sha ns pres v = (Ok ns' :: (_, unit) result) \<Longrightarrow> payment_step sha v ns ns'"
| step_heartbeat: "heartbeat_prune ns now = (Ok (ns', b) :: (_, unit) result) \<Longrightarrow> payment_step sha v ns ns'"
| step_invoice: "add_invoice v ns now invoice = Ok (ns', b) \<Longrightarrow> payment_step sha v ns ns'"
| step_keysend: "add_keysend v ns now key hash amount = Ok (ns', b) \<Longrightarrow> payment_step sha v ns ns'"
| step_issue: "track_issued_invoice ns max_inv invoice = Ok ns' \<Longrightarrow> payment_step sha v ns ns'"
| step_velocity: "payment_step sha v ns (update_velocity_controls ns global_spec fee_spec)"

text \<open>A node starts new, or restored from what was persisted of a consistent state.\<close>

inductive payment_init :: "NodeState \<Rightarrow> bool" where
  init_new: "payment_init (node_state_new vc fee_vc allow)"
| init_restored:
    "restore_node_state (node_state_restore sha invs issued pres excess vc fee_vc high_water allow)
       allow' global_spec fee_spec = (Ok ns :: (_, unit) result) \<Longrightarrow> payment_init ns"

lemma track_issued_invoice_OkD:
  "\<lbrakk>track_issued_invoice ns max_inv invoice = Ok ns'; node_state_ok ns\<rbrakk> \<Longrightarrow>
   node_state_ok ns' \<and> invoices ns' = invoices ns"
  by (auto simp: track_issued_invoice_def Let_def result_simps node_state_ok_def
      split: prod.splits option.splits if_splits)

lemma approvals_add_payment:
  "add_invoice v ns now invoice = Ok r \<Longrightarrow>
   add_payment ns (v_max_invoices v) now (inv_payment_hash invoice)
     (fst (snd (payment_state_from_invoice invoice))) = Ok r"
  "add_keysend v ns now key hash amount =
   add_payment ns (v_max_invoices v) now hash (fst (payment_state_from_keysend key hash amount now))"
  by (auto simp: add_invoice_def add_keysend_def payment_state_from_invoice_def
      payment_state_from_keysend_def result_simps)

lemma approvals_OkD:
  assumes "add_invoice v ns now invoice = Ok (ns', b) \<or> add_keysend v ns now key hash amount = Ok (ns', b)"
    and "node_state_ok ns"
  shows "node_state_ok ns'" "map_of (invoices ns) h = Some ps \<Longrightarrow> map_of (invoices ns') h = Some ps"
  using assms add_payment_OkD approvals_add_payment by metis+

lemma payment_step_ok: "\<lbrakk>payment_step sha v ns ns'; node_state_ok ns\<rbrakk> \<Longrightarrow> node_state_ok ns'"
proof (induction rule: payment_step.induct)
  case (step_velocity ns global_spec fee_spec)
  then show ?case by (simp add: update_velocity_controls_def node_state_ok_def)
qed (blast intro: apply_payments_OkD(1) htlcs_fulfilled_OkD [THEN conjunct1] heartbeat_prune_OkD(1)
      approvals_OkD(1) track_issued_invoice_OkD [THEN conjunct1])+

lemma payment_init_ok: "payment_init ns \<Longrightarrow> node_state_ok ns"
proof (induction rule: payment_init.induct)
  case (init_new vc fee_vc allow)
  show ?case by (simp add: node_state_new_def node_state_ok_def)
next
  case (init_restored sha invs issued pres excess vc fee_vc high_water allow allow' global_spec fee_spec ns)
  let ?r = "node_state_restore sha invs issued pres excess vc fee_vc high_water allow"
  from init_restored have ns: "invoices ns = invoices ?r" "issued_invoices ns = issued_invoices ?r"
    "payments ns = foldl (\<lambda>m h. AList.update h routed_payment_new m) (payments ?r) (map fst (invoices ?r))"
    by (auto simp: restore_node_state_def new_full_state_def with_log_prefix_def Let_def result_simps)
  have wf: "wf_map (invoices ?r)" "wf_map (issued_invoices ?r)" "wf_map (payments ?r)"
    unfolding node_state_restore_def NodeState.simps by (rule wf_map_foldl; auto)+
  have "wf_map (payments ns)" unfolding ns by (rule wf_map_foldl [OF _ wf(3)]) auto
  moreover have "payment_wf p" if "map_of (payments ns) h = Some p" for h p
  proof -
    have "payment_wf p \<or> map_of m h = Some p"
      if "map_of (foldl (\<lambda>m p. AList.update (sha p) (routed_payment_new\<lparr>preimage := Some p\<rparr>) m) m ps) h = Some p" for m ps
      using that
    proof (induction ps arbitrary: m)
      case (Cons q ps)
      from Cons.IH [of "AList.update (sha q) (routed_payment_new\<lparr>preimage := Some q\<rparr>) m"] Cons.prems
      show ?case by (auto simp: payment_wf_def routed_payment_new_def split: if_splits)
    qed simp
    from this [of "[]" pres] that show ?thesis
      by (auto simp: ns map_of_reset node_state_restore_def split: if_splits)
  qed
  moreover have "map_of (payments ns) h \<noteq> None" if "map_of (invoices ns) h \<noteq> None" for h
  proof -
    have "h \<in> set (map fst (invoices ?r))" using that ns(1) by (simp add: map_of_eq_None_iff)
    then show ?thesis unfolding ns(3) map_of_reset by simp
  qed
  ultimately show ?case using wf(1,2) by (simp add: node_state_ok_def ns(1,2))
qed

interpretation node: transition_system payment_init "payment_step sha v" for sha v .

lemma reachable_node_ok: "node.reachable sha v ns \<Longrightarrow> node_state_ok ns"
  by (erule node.reachable_invariant) (auto intro: payment_init_ok payment_step_ok)

lemma heartbeat_prune_total:
  assumes "node_state_ok ns"
    and "\<And>ps. ps \<in> snd ` set (invoices ns) \<union> snd ` set (issued_invoices ns) \<Longrightarrow>
      duration_since_epoch ps + expiry_duration ps + INVOICE_PRUNE_TIME < from_secs (2 ^ 64)"
  shows "\<exists>ns' b. heartbeat_prune ns now = (Ok (ns', b) :: (_, 'e) result)"
proof -
  have deadline: "\<exists>t. prune_deadline ps = (Ok t :: (_, 'e) result)" if "ps \<in> snd ` set (invoices ns) \<union> snd ` set (issued_invoices ns)" for ps
  proof -
    have "prune_time ps \<le> INVOICE_PRUNE_TIME"
      by (simp add: prune_time_def KEYSEND_PRUNE_TIME_def from_secs_def split: PaymentType.split)
    with assms(2) [OF that] show ?thesis
      by (simp add: prune_deadline_def duration_add_def result_simps)
  qed
  have "\<exists>b. and_then (expect (map_of (payments ns) h)) (is_invoice_prunable now ps) = (Ok b :: (_, 'e) result)"
    if h: "(h, ps) \<in> set (invoices ns)" for h ps
  proof -
    have "map_of (invoices ns) h \<noteq> None" using h by (metis map_of_eq_None_iff fst_conv image_eqI)
    then obtain p where "map_of (payments ns) h = Some p" using assms(1) by (auto simp: node_state_ok_def)
    moreover obtain t where "prune_deadline ps = (Ok t :: (_, 'e) result)" using deadline [of ps] h by force
    ultimately show ?thesis by (simp add: is_invoice_prunable_def Let_def)
  qed
  then obtain ns1 b1 where 1: "prune_invoices ns now = (Ok (ns1, b1) :: (_, 'e) result)" "issued_invoices ns1 = issued_invoices ns"
    by (auto simp: prune_invoices_def Let_def and_then_eq_Ok retain_eq_Ok) 
  have "\<exists>b. and_then (prune_deadline ps) (\<lambda>t. Ok (t > now)) = (Ok b :: (_, 'e) result)" if "(h, ps) \<in> set (issued_invoices ns)" for h ps
    using deadline [of ps] that by force
  with 1 show ?thesis
    by (auto simp: heartbeat_prune_def prune_issued_invoices_def Let_def and_then_eq_Ok retain_eq_Ok split_beta)
qed

section \<open>Accepted payments\<close>

lemma unbalanced_payments_Nil:
  "\<lbrakk>unbalanced_payments ns c inc out v hs = Ok []; h \<in> set hs\<rbrakk> \<Longrightarrow>
   validate_payment ns c inc out v h = Ok False"
  by (induction hs) (auto simp: result_simps split: if_splits)

lemma validate_payment_False:
  assumes "validate_payment ns c inc out v h = Ok False" "map_of (invoices ns) h = Some ps"
  defines "p \<equiv> get_or routed_payment_new (payments ns) h"
  shows "case updated_incoming_outgoing p c (get_or 0 inc h) (get_or 0 out h) of
    (i, j) \<Rightarrow> v_validate_payment_balance v (i * 1000) (j * 1000) (Some (amount_msat ps)) = Ok ()"
  using assms(1,2)
  by (cases "map_of (payments ns) h")
    (auto simp: validate_payment_def Let_def p_def get_or_def routed_payment_new_def result_simps
      updated_incoming_outgoing_def map_sum_def split: result.splits option.splits prod.splits)

lemma validate_payments_OkD:
  assumes "validate_payments ns c inc out delta v = Ok ()" "\<And>tag. enforced (v_filter v) tag"
  shows "h \<in> set (payment_hashes inc out) \<Longrightarrow> validate_payment ns c inc out v h = Ok False"
    and "v_enforce_balance v \<Longrightarrow> \<exists>e. adjusted_excess (excess_amount ns) delta = (Ok (Some e) :: (_, 'e) result)
      \<and> unat e + unat (fst delta) = unat (excess_amount ns) + unat (snd delta)"
proof -
  have nil: "unbalanced_payments ns c inc out v (payment_hashes inc out) = Ok []"
    using assms by (auto simp: validate_payments_def result_simps policy_simps)
  then show "h \<in> set (payment_hashes inc out) \<Longrightarrow> validate_payment ns c inc out v h = Ok False"
    by (rule unbalanced_payments_Nil)
  show "\<exists>e. adjusted_excess (excess_amount ns) delta = (Ok (Some e) :: (_, 'e) result)
      \<and> unat e + unat (fst delta) = unat (excess_amount ns) + unat (snd delta)" if eb: "v_enforce_balance v"
  proof -
    obtain a e where a: "checked_add (excess_amount ns) (snd delta) = Some a" "checked_sub a (fst delta) = Some e"
      using assms eb nil by (auto simp: validate_payments_def adjusted_excess_def result_simps policy_simps)
    then have "adjusted_excess (excess_amount ns) delta = (Ok (Some e) :: (_, 'e) result)"
      by (simp add: adjusted_excess_def)
    with a show ?thesis by (auto simp: arith_simps)
  qed
qed


definition example_node :: NodeState where
  "example_node = (node_state_new \<lparr>start_sec = 0, bucket_interval = 300, buckets = replicate 12 0, limit = 1000\<rparr>
     \<lparr>start_sec = 0, bucket_interval = 300, buckets = replicate 12 0, limit = 1000\<rparr> [])
     \<lparr>invoices := [(9, \<lparr>invoice_hash = 1, amount_msat = 100000, payee = 3, duration_since_epoch = 0,
        expiry_duration = 0, is_fulfilled = False, payment_type = InvoicePayment\<rparr>)],
      payments := [(9, routed_payment_new)]\<rparr>"

lemma example_node_ok: "node_state_ok example_node"
  by (simp add: example_node_def node_state_new_def node_state_ok_def)



definition example_fresh_node :: NodeState where
  "example_fresh_node = (let c = \<lparr>start_sec = 0, bucket_interval = 300, buckets = replicate 12 0, limit = 1000\<rparr>
     in node_state_new c c [])"




section \<open>Approvals under the velocity limit\<close>

datatype Approval = ApproveInvoice Duration Invoice | ApproveKeysend Duration PublicKey PaymentHash u64

fun approval_secs :: "Approval \<Rightarrow> nat" where
  "approval_secs (ApproveInvoice now invoice) = unat (as_secs now)"
| "approval_secs (ApproveKeysend now key hash amount) = unat (as_secs now)"

fun approval_hash :: "Approval \<Rightarrow> PaymentHash" where
  "approval_hash (ApproveInvoice now invoice) = inv_payment_hash invoice"
| "approval_hash (ApproveKeysend now key hash amount) = hash"

fun approval_amount :: "Approval \<Rightarrow> nat" where
  "approval_amount (ApproveInvoice now invoice) = unat (inv_amount_milli_satoshis invoice)"
| "approval_amount (ApproveKeysend now key hash amount) = unat amount"

fun approve :: "Validator \<Rightarrow> NodeState \<Rightarrow> Approval \<Rightarrow> (NodeState \<times> bool, Status) result" where
  "approve v ns (ApproveInvoice now invoice) = add_invoice v ns now invoice"
| "approve v ns (ApproveKeysend now key hash amount) = add_keysend v ns now key hash amount"

text \<open>
  A run of requests with the log of the newly approved ones. A refused request changes nothing;
  a request that panics ends the run.
\<close>

fun approve_all :: "Validator \<Rightarrow> NodeState \<Rightarrow> Approval list \<Rightarrow> payment_log \<Rightarrow> NodeState \<times> payment_log" where
  "approve_all v ns [] log = (ns, log)"
| "approve_all v ns (a # as) log =
     (case approve v ns a of
        Ok (ns', _) \<Rightarrow>
          approve_all v ns' as
            (if map_of (invoices ns) (approval_hash a) = None \<and> map_of (invoices ns') (approval_hash a) \<noteq> None
             then (approval_secs a, approval_amount a) # log else log)
      | Err _ \<Rightarrow> approve_all v ns as log
      | Panic \<Rightarrow> (ns, log))"

lemma add_payment_velocity:
  assumes "add_payment ns max_inv now hash ps = Ok (ns', b)"
  shows "map_of (invoices ns) hash \<noteq> None \<and> ns' = ns
    \<or> map_of (invoices ns) hash = None
      \<and> velocity_insert (velocity_control ns) (as_secs now) (amount_msat ps)
          = (Ok (velocity_control ns', map_of (invoices ns') hash \<noteq> None) :: (_, Status) result)"
  using assms
  by (auto simp: add_payment_def result_simps Let_def split: option.splits if_splits)

lemma approve_velocity:
  assumes "approve v ns a = Ok (ns', b)"
  shows "map_of (invoices ns) (approval_hash a) \<noteq> None \<and> ns' = ns
    \<or> map_of (invoices ns) (approval_hash a) = None
      \<and> (\<exists>t x. unat t = approval_secs a \<and> unat x = approval_amount a
          \<and> velocity_insert (velocity_control ns) t x
              = (Ok (velocity_control ns', map_of (invoices ns') (approval_hash a) \<noteq> None) :: (_, Status) result))"
proof (cases a)
  case (ApproveInvoice now invoice)
  with add_payment_velocity [OF approvals_add_payment(1) [of v ns now invoice "(ns', b)"]] assms show ?thesis
    by (auto simp: payment_state_from_invoice_def)
next
  case (ApproveKeysend now key hash amount)
  with assms have add: "add_payment ns (v_max_invoices v) now hash
      (fst (payment_state_from_keysend key hash amount now)) = Ok (ns', b)"
    by (simp add: approvals_add_payment(2))
  from add_payment_velocity [OF add] ApproveKeysend show ?thesis
    by (auto simp: payment_state_from_keysend_def)
qed

lemma approve_all_bounded:
  assumes "logs_to (velocity_control ns) log" "unat (start_sec (velocity_control ns)) \<le> n"
    and "sorted (n # map approval_secs as)" "limit (velocity_control ns) = lim"
    and "guarded_span (velocity_control ns) = sp" "\<And>from. in_window log sp from \<le> unat lim"
  shows "in_window (snd (approve_all v ns as log)) sp from \<le> unat lim"
  using assms
proof (induction as arbitrary: ns log n)
  case (Cons a as)
  show ?case
  proof (cases "approve v ns a")
    case (Ok r)
    obtain ns' b where r: "r = (ns', b)" by force
    consider "map_of (invoices ns) (approval_hash a) \<noteq> None" "ns' = ns"
      | t x where "map_of (invoices ns) (approval_hash a) = None" "unat t = approval_secs a" "unat x = approval_amount a"
        "velocity_insert (velocity_control ns) t x
          = (Ok (velocity_control ns', map_of (invoices ns') (approval_hash a) \<noteq> None) :: (_, Status) result)"
      using approve_velocity [of v ns a ns' b] Ok r by blast
    then show ?thesis
    proof cases
      case 1
      with Cons.IH [of ns log n] Cons.prems Ok r show ?thesis by auto
    next
      case (2 t x)
      let ?b = "map_of (invoices ns') (approval_hash a) \<noteq> None"
      let ?log = "if ?b then (unat t, unat x) # log else log"
      have le: "unat (start_sec (velocity_control ns)) \<le> unat t" using Cons.prems(2,3) 2(2) by simp
      note step = vel.insert_logs [OF Cons.prems(1) le 2(4)]
      have win: "in_window ?log sp from \<le> unat lim" for "from"
        by (rule vel.window_step)
          (use Cons.prems(4-6) vel.insert_accepts [OF Cons.prems(1) le 2(4)] in auto)
      have "in_window (snd (approve_all v ns' as ?log)) sp from \<le> unat lim"
        by (rule Cons.IH [of _ _ "unat t"])
          (use step Cons.prems(3-5) win 2(2) in \<open>auto simp: word_unat_eq_iff\<close>)
      with Ok r 2 show ?thesis by (auto split: if_splits)
    qed
  next
    case (Err e)
    with Cons.IH [of ns log n] Cons.prems show ?thesis by simp
  next
    case Panic
    with Cons.prems show ?thesis by simp
  qed
qed simp

text \<open>
  C15: Starting from a fresh velocity control with a finite limit, whatever sequence of invoices and
  keysends is presented for approval at times that never decrease, the amounts newly approved
  within any window of all buckets but one total at most the limit of the policy.
\<close>

theorem approvals_within_velocity:
  assumes "velocity_new spec = (Ok (velocity_control ns) :: (_, unit) result)" "\<not> is_unlimited (velocity_control ns)"
    and "sorted (map approval_secs as)"
  shows "in_window (snd (approve_all v ns as [])) (guarded_span (velocity_control ns)) from
    \<le> unat (limit (velocity_control ns))"
proof (rule approve_all_bounded [where n = 0])
  show "logs_to (velocity_control ns) []"
    using assms(1,2) velocity_new_logs_to by (simp add: is_unlimited_def)
  show "unat (start_sec (velocity_control ns)) \<le> 0"
    using assms(1) by (cases "velocity_control ns")
      (auto simp: velocity_new_def new_with_intervals_def result_simps split: prod.splits)
qed (use assms(3) in \<open>auto simp: in_window_def\<close>)

theorem approvals_within_velocity_witness:
  "in_window (snd (approve_all (simple_validator example_tx_lib (make_default_simple_policy Bitcoin))
     example_node [ApproveKeysend (from_secs 600) 3 7 700, ApproveKeysend (from_secs 900) 3 8 400] []))
     (guarded_span (velocity_control example_node)) 0 \<le> 1000"
proof -
  have new: "velocity_new \<lparr>limit_msat = 1000, interval_type = Hourly\<rparr>
      = (Ok (velocity_control example_node) :: (_, unit) result)"
    by (simp add: velocity_new_def spec_to_triple_def new_with_intervals_def example_node_def node_state_new_def
        assert_that_def)
  have lim: "limit (velocity_control example_node) = 1000" "\<not> is_unlimited (velocity_control example_node)"
    by (simp_all add: example_node_def node_state_new_def is_unlimited_def)
  have "sorted (map approval_secs [ApproveKeysend (from_secs 600) 3 7 700, ApproveKeysend (from_secs 900) 3 8 400])"
    by (simp add: as_secs_def from_secs_def)
  from approvals_within_velocity [OF new lim(2) this] lim(1) show ?thesis
    by (simp del: approve_all.simps)
qed

section \<open>What a restart forgets\<close>

text \<open>
  C38: A restart replaces both velocity controls by fresh ones made from the policy, whatever was
  persisted, so that amounts approved before the restart no longer count against the limit.
\<close>

theorem restart_resets_velocity:
  assumes "restore_node_state ns allow global_spec fee_spec = (Ok ns' :: (_, unit) result)"
  shows "velocity_new global_spec = (Ok (velocity_control ns') :: (_, unit) result)
    \<and> velocity (velocity_control ns') = 0 \<and> velocity (node_fee_velocity_control ns') = 0"
proof -
  have zero: "velocity c = 0" if h: "velocity_new spec = (Ok c :: (_, unit) result)" for spec c
  proof -
    obtain n where "buckets c = replicate n 0"
      using h by (auto simp: velocity_new_def new_with_intervals_def result_simps split: prod.splits)
    moreover have "foldl saturating_add (0 :: u64) (replicate n 0) = 0" for n
      by (induction n) (simp_all add: saturating_add_def)
    ultimately show ?thesis by (simp add: velocity_def)
  qed
  from assms obtain vc fee_vc where new: "velocity_new global_spec = (Ok vc :: (_, unit) result)"
    "velocity_new fee_spec = (Ok fee_vc :: (_, unit) result)"
    and "velocity_control ns' = vc" "node_fee_velocity_control ns' = fee_vc"
    by (auto simp: restore_node_state_def new_full_state_def with_log_prefix_def Let_def result_simps)
  then show ?thesis using zero by blast
qed

theorem restart_resets_velocity_witness:
  "velocity (velocity_control (example_node\<lparr>velocity_control :=
      \<lparr>start_sec = 0, bucket_interval = 300, buckets = 900 # replicate 11 0, limit = 1000\<rparr>\<rparr>)) = 900
   \<and> (\<exists>ns'. restore_node_state (example_node\<lparr>velocity_control :=
      \<lparr>start_sec = 0, bucket_interval = 300, buckets = 900 # replicate 11 0, limit = 1000\<rparr>\<rparr>) []
      \<lparr>limit_msat = 1000, interval_type = Hourly\<rparr> UNLIMITED = (Ok ns' :: (_, unit) result)
      \<and> velocity (velocity_control ns') = 0)"
proof (rule conjI, code_simp)
  let ?ns = "example_node\<lparr>velocity_control :=
      \<lparr>start_sec = 0, bucket_interval = 300, buckets = 900 # replicate 11 0, limit = 1000\<rparr>\<rparr>"
  obtain ns' where "restore_node_state ?ns [] \<lparr>limit_msat = 1000, interval_type = Hourly\<rparr> UNLIMITED
      = (Ok ns' :: (_, unit) result)"
    by (auto simp: restore_node_state_def new_full_state_def velocity_new_def spec_to_triple_def
        new_with_intervals_def UNLIMITED_def assert_that_def Let_def)
  with restart_resets_velocity [OF this]
  show "\<exists>ns'. restore_node_state ?ns [] \<lparr>limit_msat = 1000, interval_type = Hourly\<rparr> UNLIMITED
      = (Ok ns' :: (_, unit) result) \<and> velocity (velocity_control ns') = 0" by blast
qed

text \<open>
  A restart forgets the preimage of every payment that has an approved invoice: after it the
  payment counts as unpaid, also when its preimage was known and persisted.
\<close>

theorem restart_forgets_invoice_preimages:
  assumes "restore_node_state ns allow global_spec fee_spec = (Ok ns' :: (_, unit) result)"
    and "map_of (invoices ns) h \<noteq> None"
  shows "map_of (payments ns') h = Some routed_payment_new \<and> \<not> has_preimage ns' h"
proof -
  have "payments ns' = foldl (\<lambda>m h. AList.update h routed_payment_new m) (payments ns) (map fst (invoices ns))"
    using assms(1) by (auto simp: restore_node_state_def new_full_state_def with_log_prefix_def Let_def result_simps)
  moreover have "h \<in> set (map fst (invoices ns))" using assms(2) by (simp add: map_of_eq_None_iff)
  ultimately have "map_of (payments ns') h = Some routed_payment_new" by (simp only: map_of_reset if_True)
  then show ?thesis by (simp add: has_preimage_def routed_payment_new_def)
qed

theorem restart_forgets_invoice_preimages_witness:
  "has_preimage (example_node\<lparr>payments := [(9, routed_payment_new\<lparr>preimage := Some [1]\<rparr>)]\<rparr>) 9
   \<and> (\<exists>ns'. restore_node_state (example_node\<lparr>payments := [(9, routed_payment_new\<lparr>preimage := Some [1]\<rparr>)]\<rparr>)
        [] UNLIMITED UNLIMITED = (Ok ns' :: (_, unit) result) \<and> \<not> has_preimage ns' 9)"
proof (rule conjI, code_simp)
  let ?ns = "example_node\<lparr>payments := [(9, routed_payment_new\<lparr>preimage := Some [1]\<rparr>)]\<rparr>"
  obtain ns' where r: "restore_node_state ?ns [] UNLIMITED UNLIMITED = (Ok ns' :: (_, unit) result)"
    by (auto simp: restore_node_state_def new_full_state_def velocity_new_def spec_to_triple_def
        new_with_intervals_def UNLIMITED_def assert_that_def Let_def)
  have "map_of (invoices ?ns) 9 \<noteq> None" by (simp add: example_node_def)
  from restart_forgets_invoice_preimages [OF r this] r
  show "\<exists>ns'. restore_node_state ?ns [] UNLIMITED UNLIMITED = (Ok ns' :: (_, unit) result)
      \<and> \<not> has_preimage ns' 9" by blast
qed

end
