(* ===== verification/Signer.thy ===== *)
theory Signer
  imports PaymentSafety
begin

text \<open>
  The per-channel signer of \<^verbatim>\<open>vls-core/src/signer/vls_channel_signer.rs\<close>, with the two signing
  helpers of \<^verbatim>\<open>vls-core/src/util/crypto_utils.rs\<close>. Elliptic curve operations, signature hashes and
  the transactions that the lightning library builds are parameters (\<open>CryptoLib\<close>); a
  \<^verbatim>\<open>CommitmentTransaction\<close> is the record of the arguments it is built from.
\<close>

section \<open>What the libraries provide\<close>

type_synonym Sighash = "256 word"

datatype EcdsaSighashType = SighashAll | SinglePlusAnyoneCanPay

record CommitmentTransaction =
  cmt_number :: u64
  cmt_point :: PublicKey
  cmt_to_broadcaster_value_sat :: u64
  cmt_to_countersignatory_value_sat :: u64
  cmt_feerate_per_kw :: u32
  cmt_htlcs :: "HTLCOutputInCommitment list"
  cmt_parameters :: ChannelTransactionParameters
  cmt_holder_broadcasts :: bool
  cmt_non_zero_fee_anchors :: bool

record CryptoLib = TxLib +
  secret_key_ok :: "Secret \<Rightarrow> bool"
  build_commitment_secret :: "Secret \<Rightarrow> u64 \<Rightarrow> Secret"
  make_funding_redeemscript :: "PublicKey \<Rightarrow> PublicKey \<Rightarrow> Script"
  get_keyed_anchor_redeemscript :: "PublicKey \<Rightarrow> Script"
  get_htlc_redeemscript :: "HTLCOutputInCommitment \<Rightarrow> ChannelTypeFeatures \<Rightarrow> TxCreationKeys \<Rightarrow> Script"
  build_htlc_transaction ::
    "Txid \<Rightarrow> u32 \<Rightarrow> u16 \<Rightarrow> HTLCOutputInCommitment \<Rightarrow> ChannelTypeFeatures \<Rightarrow> PublicKey \<Rightarrow> PublicKey \<Rightarrow> Transaction"
  built_transaction :: "CommitmentTransaction \<Rightarrow> Transaction"
  nondust_htlcs :: "CommitmentTransaction \<Rightarrow> HTLCOutputInCommitment list"
  trusted_keys :: "CommitmentTransaction \<Rightarrow> TxCreationKeys"
  compute_txid :: "Transaction \<Rightarrow> Txid"
  p2wsh_signature_hash :: "Transaction \<Rightarrow> nat \<Rightarrow> Script \<Rightarrow> u64 \<Rightarrow> EcdsaSighashType \<Rightarrow> Sighash option"
  derive_public_key :: "PublicKey \<Rightarrow> PublicKey \<Rightarrow> PublicKey option"
  derive_private_key :: "PublicKey \<Rightarrow> Secret \<Rightarrow> Secret"
  derive_private_revocation_key :: "Secret \<Rightarrow> Secret \<Rightarrow> Secret"
  sign_ecdsa :: "Sighash \<Rightarrow> Secret \<Rightarrow> Signature"
  sign_ecdsa_low_r :: "Sighash \<Rightarrow> Secret \<Rightarrow> Signature"
  sign_ecdsa_with_noncedata :: "Secret \<Rightarrow> Sighash \<Rightarrow> Secret \<Rightarrow> Signature"
  verify_ecdsa :: "Sighash \<Rightarrow> Signature \<Rightarrow> PublicKey \<Rightarrow> bool"

section \<open>Signing\<close>

definition sign :: "('a CryptoLib_scheme) \<Rightarrow> Sighash \<Rightarrow> Secret \<Rightarrow> Signature" where
  "sign lib msg sk = sign_ecdsa_low_r lib msg sk"

text \<open>The first byte of the compact serialization of a signature.\<close>

definition is_low_r :: "Signature \<Rightarrow> bool" where
  "is_low_r sig \<longleftrightarrow> drop_bit 504 sig < 0x80"

text \<open>
  The entropy source is a sequence of draws; the loop starts at draw \<open>n\<close> and returns the signature
  and the number of the next draw. A loop that does not end is \<^const>\<open>None\<close>.
\<close>

partial_function (option) sign_with_aux_rand ::
  "('a CryptoLib_scheme) \<Rightarrow> (nat \<Rightarrow> Secret) \<Rightarrow> nat \<Rightarrow> Sighash \<Rightarrow> Secret \<Rightarrow> (Signature \<times> nat) option" where
  [code]: "sign_with_aux_rand lib entropy n msg sk =
     (let sig = sign_ecdsa_with_noncedata lib (entropy n) msg sk
      in if is_low_r sig then Some (sig, n + 1) else sign_with_aux_rand lib entropy (n + 1) msg sk)"

section \<open>The channel signer\<close>

record VlsChannelSigner =
  sk_funding_key :: Secret
  sk_revocation_base_key :: Secret
  sk_payment_key :: Secret
  sk_delayed_payment_base_key :: Secret
  sk_htlc_base_key :: Secret
  sk_commitment_seed :: Secret
  sk_channel_keys_id :: "u8 list"
  sk_holder_pubkeys :: ChannelPublicKeys

definition channel_signer_new ::
  "('a CryptoLib_scheme) \<Rightarrow> Secret \<Rightarrow> Secret \<Rightarrow> Secret \<Rightarrow> Secret \<Rightarrow> Secret \<Rightarrow> Secret \<Rightarrow> u8 list \<Rightarrow> VlsChannelSigner" where
  "channel_signer_new lib funding revocation payment delayed htlc seed keys_id =
     \<lparr>sk_funding_key = funding, sk_revocation_base_key = revocation, sk_payment_key = payment,
      sk_delayed_payment_base_key = delayed, sk_htlc_base_key = htlc, sk_commitment_seed = seed,
      sk_channel_keys_id = keys_id,
      sk_holder_pubkeys =
        \<lparr>funding_pubkey = public_key_of lib funding, revocation_basepoint = public_key_of lib revocation,
         payment_point = public_key_of lib payment, delayed_payment_basepoint = public_key_of lib delayed,
         htlc_basepoint = public_key_of lib htlc\<rparr>\<rparr>"

definition signer_per_commitment_point ::
  "('a CryptoLib_scheme) \<Rightarrow> VlsChannelSigner \<Rightarrow> u64 \<Rightarrow> PublicKey option" where
  "signer_per_commitment_point lib sk idx =
     (let secret = build_commitment_secret lib (sk_commitment_seed sk) idx
      in if secret_key_ok lib secret then Some (public_key_of lib secret) else None)"

definition signer_release_commitment_secret ::
  "('a CryptoLib_scheme) \<Rightarrow> VlsChannelSigner \<Rightarrow> u64 \<Rightarrow> Secret" where
  "signer_release_commitment_secret lib sk idx = build_commitment_secret lib (sk_commitment_seed sk) idx"

definition sign_counterparty_htlc ::
  "('a CryptoLib_scheme) \<Rightarrow> VlsChannelSigner \<Rightarrow> ChannelTransactionParameters \<Rightarrow> CommitmentTransaction \<Rightarrow>
   HTLCOutputInCommitment \<Rightarrow> Signature option" where
  "sign_counterparty_htlc lib sk params ctx htlc =
     (let tk = trusted_keys lib ctx;
          fs = channel_type_features params;
          htlc_tx = build_htlc_transaction lib (compute_txid lib (built_transaction lib ctx)) (cmt_feerate_per_kw ctx)
            (params_holder_selected_contest_delay params) htlc fs
            (broadcaster_delayed_payment_key tk) (revocation_key tk);
          sighash_type = (if anchors_zero_fee_htlc_tx_optional fs then SinglePlusAnyoneCanPay else SighashAll)
      in case p2wsh_signature_hash lib htlc_tx 0 (get_htlc_redeemscript lib htlc fs tk)
                (htlc_amount_msat htlc div 1000) sighash_type of
           None \<Rightarrow> None
         | Some sighash \<Rightarrow>
             Some (sign lib sighash (derive_private_key lib (tk_per_commitment_point tk) (sk_htlc_base_key sk))))"

fun all_some :: "'a option list \<Rightarrow> 'a list option" where
  "all_some [] = Some []"
| "all_some (None # xs) = None"
| "all_some (Some x # xs) = map_option ((#) x) (all_some xs)"

text \<open>
  The signature on the commitment of the other side, and one on each of its HTLC transactions. The
  feature of zero-fee commitments, which would also select the anchor signature type, is never set
  by \<^const>\<open>features\<close>.
\<close>

definition sign_counterparty_commitment ::
  "('a CryptoLib_scheme) \<Rightarrow> VlsChannelSigner \<Rightarrow> ChannelTransactionParameters \<Rightarrow> CommitmentTransaction \<Rightarrow>
   (Signature \<times> Signature list) option" where
  "sign_counterparty_commitment lib sk params ctx =
     (case counterparty_parameters params of
        None \<Rightarrow> None
      | Some cp \<Rightarrow>
          let redeemscript = make_funding_redeemscript lib (public_key_of lib (sk_funding_key sk))
                               (funding_pubkey (cp_pubkeys cp))
          in case p2wsh_signature_hash lib (built_transaction lib ctx) 0 redeemscript
                    (channel_value_satoshis params) SighashAll of
               None \<Rightarrow> None
             | Some sighash \<Rightarrow>
                 map_option (Pair (sign lib sighash (sk_funding_key sk)))
                   (all_some (map (sign_counterparty_htlc lib sk params ctx) (nondust_htlcs lib ctx))))"

text \<open>
  The signatures that use auxiliary randomness are made by a function \<open>aux\<close> of the message and the
  key, which stands for the signature that \<^const>\<open>sign_with_aux_rand\<close> ends with.
\<close>

definition sign_holder_commitment ::
  "('a CryptoLib_scheme) \<Rightarrow> (Sighash \<Rightarrow> Secret \<Rightarrow> Signature) \<Rightarrow> VlsChannelSigner \<Rightarrow> ChannelTransactionParameters \<Rightarrow>
   CommitmentTransaction \<Rightarrow> Signature option" where
  "sign_holder_commitment lib aux sk params ctx =
     (case counterparty_parameters params of
        None \<Rightarrow> None
      | Some cp \<Rightarrow>
          let redeemscript = make_funding_redeemscript lib (public_key_of lib (sk_funding_key sk))
                               (funding_pubkey (cp_pubkeys cp))
          in map_option (\<lambda>sighash. aux sighash (sk_funding_key sk))
               (p2wsh_signature_hash lib (built_transaction lib ctx) 0 redeemscript
                  (channel_value_satoshis params) SighashAll))"

definition sign_closing_transaction ::
  "('a CryptoLib_scheme) \<Rightarrow> VlsChannelSigner \<Rightarrow> ChannelTransactionParameters \<Rightarrow> ClosingTransaction \<Rightarrow>
   Signature option" where
  "sign_closing_transaction lib sk params ct =
     (case counterparty_parameters params of
        None \<Rightarrow> None
      | Some cp \<Rightarrow>
          let redeemscript = make_funding_redeemscript lib (public_key_of lib (sk_funding_key sk))
                               (funding_pubkey (cp_pubkeys cp));
              tx = built_closing_tx lib (ct_to_holder_value_sat ct) (ct_to_counterparty_value_sat ct)
                     (ct_holder_script ct) (ct_counterparty_script ct) (ct_funding_outpoint ct)
          in map_option (\<lambda>sighash. sign lib sighash (sk_funding_key sk))
               (p2wsh_signature_hash lib tx 0 redeemscript (channel_value_satoshis params) SighashAll))"

definition sign_holder_keyed_anchor_input ::
  "('a CryptoLib_scheme) \<Rightarrow> (Sighash \<Rightarrow> Secret \<Rightarrow> Signature) \<Rightarrow> VlsChannelSigner \<Rightarrow> ChannelTransactionParameters \<Rightarrow>
   Transaction \<Rightarrow> nat \<Rightarrow> Signature option" where
  "sign_holder_keyed_anchor_input lib aux sk params anchor_tx input =
     map_option (\<lambda>sighash. aux sighash (sk_funding_key sk))
       (p2wsh_signature_hash lib anchor_tx input
          (get_keyed_anchor_redeemscript lib (funding_pubkey (holder_pubkeys params)))
          ANCHOR_OUTPUT_VALUE_SATOSHI SighashAll)"

section \<open>The grinding loop\<close>

lemma sign_with_aux_rand_first:
  assumes "is_low_r (sign_ecdsa_with_noncedata lib (entropy (n + k)) msg sk)"
    and "\<And>j. j < k \<Longrightarrow> \<not> is_low_r (sign_ecdsa_with_noncedata lib (entropy (n + j)) msg sk)"
  shows "sign_with_aux_rand lib entropy n msg sk
    = Some (sign_ecdsa_with_noncedata lib (entropy (n + k)) msg sk, n + k + 1)"
  using assms
proof (induction k arbitrary: n)
  case 0
  then show ?case by (subst sign_with_aux_rand.simps) (simp add: Let_def)
next
  case (Suc k)
  have "sign_with_aux_rand lib entropy (n + 1) msg sk
      = Some (sign_ecdsa_with_noncedata lib (entropy (n + 1 + k)) msg sk, n + 1 + k + 1)"
    using Suc.prems(1) Suc.prems(2) [of "Suc _"] by (intro Suc.IH) simp_all
  moreover have "\<not> is_low_r (sign_ecdsa_with_noncedata lib (entropy n) msg sk)"
    using Suc.prems(2) [of 0] by simp
  ultimately show ?case by (subst sign_with_aux_rand.simps) (simp add: Let_def)
qed

lemma sign_with_aux_rand_SomeD:
  "sign_with_aux_rand lib entropy n msg sk = Some r \<Longrightarrow>
   \<exists>k \<ge> n. is_low_r (sign_ecdsa_with_noncedata lib (entropy k) msg sk)"
proof (induction rule: sign_with_aux_rand.raw_induct [rotated, consumes 1])
  case (1 f lib entropy n msg sk r)
  show ?case
  proof (cases "is_low_r (sign_ecdsa_with_noncedata lib (entropy n) msg sk)")
    case False
    with "1"(2) have "f lib entropy (n + 1) msg sk = Some r" by (simp add: Let_def)
    from "1"(1) [OF this] show ?thesis by (auto intro: Suc_leD)
  qed auto
qed

text \<open>
  C30: Signing with auxiliary randomness returns exactly when some draw of the entropy source gives
  a signature with a small first byte, and what it returns is such a signature.
\<close>

theorem aux_rand_signing_terminates:
  "(\<exists>sig m. sign_with_aux_rand lib entropy n msg sk = Some (sig, m) \<and> is_low_r sig)
   \<longleftrightarrow> (\<exists>k \<ge> n. is_low_r (sign_ecdsa_with_noncedata lib (entropy k) msg sk))"
proof
  let ?k = "LEAST k. is_low_r (sign_ecdsa_with_noncedata lib (entropy (n + k)) msg sk)"
  assume "\<exists>k \<ge> n. is_low_r (sign_ecdsa_with_noncedata lib (entropy k) msg sk)"
  then obtain j where "is_low_r (sign_ecdsa_with_noncedata lib (entropy (n + j)) msg sk)"
    by (auto simp: le_iff_add)
  then have "is_low_r (sign_ecdsa_with_noncedata lib (entropy (n + ?k)) msg sk)" by (rule LeastI)
  moreover have "\<not> is_low_r (sign_ecdsa_with_noncedata lib (entropy (n + i)) msg sk)" if "i < ?k" for i
    using that by (rule not_less_Least)
  ultimately show "\<exists>sig m. sign_with_aux_rand lib entropy n msg sk = Some (sig, m) \<and> is_low_r sig"
    using sign_with_aux_rand_first [of lib entropy n ?k msg sk] by blast
qed (use sign_with_aux_rand_SomeD in blast)

end
