(* ===== verification/Channel.thy ===== *)
theory Channel
  imports Signer
begin

text \<open>
  The channel operations of \<^verbatim>\<open>vls-core/src/channel.rs\<close>. A channel is the record of the fields of
  \<^verbatim>\<open>Channel\<close>; the operations that the source declares on \<^verbatim>\<open>&mut self\<close> also change the payments of
  the node, so they work on a pair of the channel and the node state and return the pair also on
  an error. The chain state the monitor reports, the persister, the wallet, the validator and the
  libraries are the environment of a call.
\<close>

section \<open>The channel and its environment\<close>

definition INITIAL_COMMITMENT_NUMBER :: u64 where "INITIAL_COMMITMENT_NUMBER = 2 ^ 48 - 1"

record ChannelStub =
  stub_keys :: VlsChannelSigner
  stub_payment_key :: Secret
  stub_id0 :: ChannelId
  blockheight :: u32

record Channel =
  chan_keys :: VlsChannelSigner
  chan_payment_key :: Secret
  enforcement_state :: EnforcementState
  chan_setup :: ChannelSetup
  id0 :: ChannelId
  permanent_id :: "ChannelId option"
  prev_setup :: "ChannelSetup option"
  prev_prev_setup :: "ChannelSetup option"
  funding_locked :: "OutPoint option"

type_synonym ChanWorld = "Channel \<times> NodeState"

record Env =
  env_lib :: CryptoLib
  env_validator :: Validator
  env_wallet :: Wallet
  env_chain :: ChainState
  env_persist :: "Channel \<Rightarrow> (unit, Status) result"
  env_aux :: "Sighash \<Rightarrow> Secret \<Rightarrow> Signature"
  env_sha :: Sha256
  env_payment_hash :: "PaymentPreimage \<Rightarrow> PaymentHash"

definition to_status :: "'a checked \<Rightarrow> ('a, Status) result" where
  "to_status = map_err status_of_validation_error"

definition channel_id_of :: "Channel \<Rightarrow> ChannelId" where
  "channel_id_of ch = (case permanent_id ch of Some i \<Rightarrow> i | None \<Rightarrow> id0 ch)"

definition get_chain_state :: "Env \<Rightarrow> Channel \<Rightarrow> ChainState" where
  "get_chain_state env ch = (env_chain env)\<lparr>splice_pending := prev_setup ch \<noteq> None\<rparr>"

section \<open>Commitment points and secrets\<close>

definition stub_get_per_commitment_point :: "CryptoLib \<Rightarrow> ChannelStub \<Rightarrow> u64 \<Rightarrow> (PublicKey, Status) result" where
  "stub_get_per_commitment_point lib stub commitment_number =
     (if commitment_number \<notin> {0, 1, 2} then Err FailedPrecondition
      else expect (signer_per_commitment_point lib (stub_keys stub) (INITIAL_COMMITMENT_NUMBER - commitment_number)))"

definition stub_get_per_commitment_secret :: "ChannelStub \<Rightarrow> u64 \<Rightarrow> (Secret, Status) result" where
  "stub_get_per_commitment_secret stub commitment_number = Err FailedPrecondition"

definition get_per_commitment_point_unchecked :: "CryptoLib \<Rightarrow> Channel \<Rightarrow> u64 \<Rightarrow> (PublicKey, 'e) result" where
  "get_per_commitment_point_unchecked lib ch commitment_number =
     expect (signer_per_commitment_point lib (chan_keys ch) (INITIAL_COMMITMENT_NUMBER - commitment_number))"

definition get_per_commitment_point :: "CryptoLib \<Rightarrow> Channel \<Rightarrow> u64 \<Rightarrow> (PublicKey, Status) result" where
  "get_per_commitment_point lib ch commitment_number =
     (if commitment_number > next_holder_commit_num (enforcement_state ch) + 1 then Err FailedPrecondition
      else get_per_commitment_point_unchecked lib ch commitment_number)"

definition get_per_commitment_secret :: "CryptoLib \<Rightarrow> Validator \<Rightarrow> Channel \<Rightarrow> u64 \<Rightarrow> (Secret, Status) result" where
  "get_per_commitment_secret lib v ch commitment_number =
     and_then (to_status (policy_err_if (v_filter v)
         (commitment_number + 2 > next_holder_commit_num (enforcement_state ch))
         ''policy-revoke-new-commitment-signed'')) (\<lambda>_.
     let secret = signer_release_commitment_secret lib (chan_keys ch) (INITIAL_COMMITMENT_NUMBER - commitment_number)
     in and_then (assert_that (secret_key_ok lib secret)) (\<lambda>_. Ok secret))"

definition get_per_commitment_secret_or_none :: "CryptoLib \<Rightarrow> Channel \<Rightarrow> u64 \<Rightarrow> (Secret option, 'e) result" where
  "get_per_commitment_secret_or_none lib ch commitment_number =
     (if commitment_number + 2 > next_holder_commit_num (enforcement_state ch) then Ok None
      else
        let secret = signer_release_commitment_secret lib (chan_keys ch) (INITIAL_COMMITMENT_NUMBER - commitment_number)
        in and_then (assert_that (secret_key_ok lib secret)) (\<lambda>_. Ok (Some secret)))"

definition check_future_secret :: "CryptoLib \<Rightarrow> VlsChannelSigner \<Rightarrow> u64 \<Rightarrow> Secret \<Rightarrow> bool" where
  "check_future_secret lib keys commitment_number suggested \<longleftrightarrow>
     suggested = signer_release_commitment_secret lib keys (INITIAL_COMMITMENT_NUMBER - commitment_number)"

definition get_counterparty_commitment_point ::
  "CryptoLib \<Rightarrow> Sha256 \<Rightarrow> Channel \<Rightarrow> u64 \<Rightarrow> (PublicKey option, 'e) result" where
  "get_counterparty_commitment_point lib sha ch commitment_number =
     (let est = enforcement_state ch; next_commit_num = next_counterparty_commit_num est in
      if next_commit_num < commitment_number + 1 then Ok None
      else if next_commit_num = commitment_number + 1 then Ok (current_counterparty_point est)
      else if next_commit_num = commitment_number then Ok (previous_counterparty_point est)
      else
        case counterparty_secrets est of
          None \<Rightarrow> Ok None
        | Some secrets \<Rightarrow>
            and_then (get_secret sha secrets (INITIAL_COMMITMENT_NUMBER - commitment_number)) (\<lambda>secret.
            case secret of
              None \<Rightarrow> Ok None
            | Some s \<Rightarrow> and_then (assert_that (secret_key_ok lib s)) (\<lambda>_. Ok (Some (public_key_of lib s)))))"

section \<open>Funding views\<close>

definition setup_for_tx :: "Channel \<Rightarrow> Transaction \<Rightarrow> ChannelSetup" where
  "setup_for_tx ch tx =
     (let spends = (\<lambda>input view. previous_output input = funding_outpoint view);
          matching = (\<lambda>input.
            if spends input (chan_setup ch) then Some (chan_setup ch)
            else case prev_setup ch of
                   Some prev \<Rightarrow>
                     if spends input prev then Some prev
                     else (case prev_prev_setup ch of
                             Some pp \<Rightarrow> if spends input pp then Some pp else None
                           | None \<Rightarrow> None)
                 | None \<Rightarrow>
                     (case prev_prev_setup ch of
                        Some pp \<Rightarrow> if spends input pp then Some pp else None
                      | None \<Rightarrow> None))
      in case find (\<lambda>input. matching input \<noteq> None) (tx_input tx) of
           Some input \<Rightarrow> the (matching input)
         | None \<Rightarrow> chan_setup ch)"

definition setup_for_outpoint :: "Channel \<Rightarrow> OutPoint \<Rightarrow> (ChannelSetup, Status) result" where
  "setup_for_outpoint ch outpoint =
     (if outpoint = funding_outpoint (chan_setup ch) then Ok (chan_setup ch)
      else
        let try_prev_prev =
              (case prev_prev_setup ch of
                 Some pp \<Rightarrow> if outpoint = funding_outpoint pp then Ok pp else Err FailedPrecondition
               | None \<Rightarrow> Err FailedPrecondition)
        in case prev_setup ch of
             Some prev \<Rightarrow> if outpoint = funding_outpoint prev then Ok prev else try_prev_prev
           | None \<Rightarrow> try_prev_prev)"

definition is_splice_compatible :: "Channel \<Rightarrow> ChannelSetup \<Rightarrow> bool" where
  "is_splice_compatible ch new_setup =
     (let view = chan_setup ch;
          other = new_setup\<lparr>counterparty_points := (counterparty_points new_setup)
                     \<lparr>funding_pubkey := funding_pubkey (counterparty_points view)\<rparr>\<rparr>;
          other = (if holder_shutdown_script view = None then other\<lparr>holder_shutdown_script := None\<rparr> else other);
          other = (if counterparty_shutdown_script view = None
                   then other\<lparr>counterparty_shutdown_script := None\<rparr> else other);
          funding_changed = (funding_outpoint other \<noteq> funding_outpoint view);
          other = other\<lparr>funding_outpoint := funding_outpoint view, channel_value_sat := channel_value_sat view,
                        push_value_msat := push_value_msat view\<rparr>
      in other = view \<and> funding_changed)"

section \<open>Building transactions\<close>

definition make_channel_parameters_with_setup :: "Channel \<Rightarrow> ChannelSetup \<Rightarrow> ChannelTransactionParameters" where
  "make_channel_parameters_with_setup ch view =
     \<lparr>holder_pubkeys = sk_holder_pubkeys (chan_keys ch),
      params_holder_selected_contest_delay = holder_selected_contest_delay view,
      is_outbound_from_holder = is_outbound view,
      counterparty_parameters = Some
        \<lparr>cp_pubkeys = counterparty_points view, selected_contest_delay = counterparty_selected_contest_delay view\<rparr>,
      params_funding_outpoint = Some
        \<lparr>op_txid = op_txid (funding_outpoint view),
         op_vout = ucast (ucast (op_vout (funding_outpoint view)) :: u16)\<rparr>,
      channel_type_features = features view,
      channel_value_satoshis = channel_value_sat view\<rparr>"

definition make_channel_parameters :: "Channel \<Rightarrow> ChannelTransactionParameters" where
  "make_channel_parameters ch = make_channel_parameters_with_setup ch (chan_setup ch)"

definition make_tx_keys ::
  "CryptoLib \<Rightarrow> PublicKey \<Rightarrow> ChannelPublicKeys \<Rightarrow> ChannelPublicKeys \<Rightarrow> TxCreationKeys" where
  "make_tx_keys lib point a b =
     derive_new lib point (delayed_payment_basepoint a) (htlc_basepoint a) (revocation_basepoint b) (htlc_basepoint b)"

definition make_counterparty_tx_keys :: "CryptoLib \<Rightarrow> Channel \<Rightarrow> PublicKey \<Rightarrow> TxCreationKeys" where
  "make_counterparty_tx_keys lib ch point =
     make_tx_keys lib point (counterparty_points (chan_setup ch)) (sk_holder_pubkeys (chan_keys ch))"

definition make_holder_tx_keys :: "CryptoLib \<Rightarrow> Channel \<Rightarrow> PublicKey \<Rightarrow> TxCreationKeys" where
  "make_holder_tx_keys lib ch point =
     make_tx_keys lib point (sk_holder_pubkeys (chan_keys ch)) (counterparty_points (chan_setup ch))"

definition make_counterparty_commitment_tx_with_setup ::
  "Channel \<Rightarrow> ChannelSetup \<Rightarrow> PublicKey \<Rightarrow> u64 \<Rightarrow> u32 \<Rightarrow> u64 \<Rightarrow> u64 \<Rightarrow> HTLCOutputInCommitment list \<Rightarrow>
   CommitmentTransaction" where
  "make_counterparty_commitment_tx_with_setup ch view point n feerate to_holder to_counterparty htlcs =
     \<lparr>cmt_number = INITIAL_COMMITMENT_NUMBER - n, cmt_point = point,
      cmt_to_broadcaster_value_sat = to_counterparty, cmt_to_countersignatory_value_sat = to_holder,
      cmt_feerate_per_kw = feerate, cmt_htlcs = htlcs,
      cmt_parameters = make_channel_parameters_with_setup ch view, cmt_holder_broadcasts = False,
      cmt_non_zero_fee_anchors = False\<rparr>"

definition make_holder_commitment_tx_with_setup ::
  "Channel \<Rightarrow> ChannelSetup \<Rightarrow> u64 \<Rightarrow> PublicKey \<Rightarrow> u32 \<Rightarrow> u64 \<Rightarrow> u64 \<Rightarrow> HTLCOutputInCommitment list \<Rightarrow>
   CommitmentTransaction" where
  "make_holder_commitment_tx_with_setup ch view n point feerate to_holder to_counterparty htlcs =
     \<lparr>cmt_number = INITIAL_COMMITMENT_NUMBER - n, cmt_point = point,
      cmt_to_broadcaster_value_sat = to_holder, cmt_to_countersignatory_value_sat = to_counterparty,
      cmt_feerate_per_kw = feerate, cmt_htlcs = htlcs,
      cmt_parameters = make_channel_parameters_with_setup ch view, cmt_holder_broadcasts = True,
      cmt_non_zero_fee_anchors = is_anchors view\<rparr>"

definition make_holder_commitment_tx ::
  "Channel \<Rightarrow> u64 \<Rightarrow> PublicKey \<Rightarrow> u32 \<Rightarrow> u64 \<Rightarrow> u64 \<Rightarrow> HTLCOutputInCommitment list \<Rightarrow> CommitmentTransaction" where
  "make_holder_commitment_tx ch = make_holder_commitment_tx_with_setup ch (chan_setup ch)"

definition htlcs_info2_to_oic :: "HTLCInfo2 list \<Rightarrow> HTLCInfo2 list \<Rightarrow> HTLCOutputInCommitment list" where
  "htlcs_info2_to_oic offered received =
     (let oic = (\<lambda>is_offered htlc. \<lparr>htlc_is_offered = is_offered, htlc_amount_msat = value_sat htlc * 1000,
            htlc_cltv_expiry = cltv_expiry htlc, htlc_payment_hash = payment_hash htlc,
            transaction_output_index = None\<rparr>)
      in map (oic True) offered @ map (oic False) received)"

definition build_counterparty_commitment_info ::
  "u64 \<Rightarrow> u64 \<Rightarrow> HTLCInfo2 list \<Rightarrow> HTLCInfo2 list \<Rightarrow> u32 \<Rightarrow> CommitmentInfo2" where
  "build_counterparty_commitment_info to_holder to_counterparty offered received feerate =
     commitment_info2_new True to_holder to_counterparty offered received feerate"

definition build_holder_commitment_info ::
  "u64 \<Rightarrow> u64 \<Rightarrow> HTLCInfo2 list \<Rightarrow> HTLCInfo2 list \<Rightarrow> u32 \<Rightarrow> CommitmentInfo2" where
  "build_holder_commitment_info to_holder to_counterparty offered received feerate =
     commitment_info2_new False to_counterparty to_holder offered received feerate"

section \<open>Checking the counterparty's signatures\<close>

text \<open>
  The signature on the \<open>ndx\<close>-th HTLC transaction of a holder commitment; a missing signature is an
  index out of bounds.
\<close>

definition check_htlc_signature ::
  "CryptoLib \<Rightarrow> Channel \<Rightarrow> CommitmentTransaction \<Rightarrow> TxCreationKeys \<Rightarrow> u32 \<Rightarrow> PublicKey \<Rightarrow> Signature list \<Rightarrow>
   nat \<times> HTLCOutputInCommitment \<Rightarrow> (unit, Status) result" where
  "check_htlc_signature lib ch ctx txkeys build_feerate htlc_pubkey htlc_sigs = (\<lambda>(ndx, htlc).
     let view = chan_setup ch; fs = features view;
         redeemscript = get_htlc_redeemscript lib htlc fs txkeys;
         htlc_tx = build_htlc_transaction lib (compute_txid lib (built_transaction lib ctx)) build_feerate
           (counterparty_selected_contest_delay view) htlc fs
           (broadcaster_delayed_payment_key txkeys) (revocation_key txkeys);
         sighash_type = (if is_anchors view then SinglePlusAnyoneCanPay else SighashAll)
     in and_then (expect (p2wsh_signature_hash lib htlc_tx 0 redeemscript (htlc_amount_msat htlc div 1000)
                    sighash_type)) (\<lambda>sighash.
        and_then (assert_that (ndx < length htlc_sigs)) (\<lambda>_.
        err_if (\<not> verify_ecdsa lib sighash (htlc_sigs ! ndx) htlc_pubkey) FailedPrecondition)))"

fun check_all :: "('a \<Rightarrow> (unit, 'e) result) \<Rightarrow> 'a list \<Rightarrow> (unit, 'e) result" where
  "check_all f [] = Ok ()"
| "check_all f (x # xs) = and_then (f x) (\<lambda>_. check_all f xs)"

definition check_holder_tx_signatures ::
  "CryptoLib \<Rightarrow> Channel \<Rightarrow> ChannelSetup \<Rightarrow> PublicKey \<Rightarrow> TxCreationKeys \<Rightarrow> u32 \<Rightarrow> Signature \<Rightarrow> Signature list \<Rightarrow>
   CommitmentTransaction \<Rightarrow> (unit, Status) result" where
  "check_holder_tx_signatures lib ch view point txkeys feerate commit_sig htlc_sigs ctx =
     (let redeemscript = make_funding_redeemscript lib (funding_pubkey (sk_holder_pubkeys (chan_keys ch)))
                           (funding_pubkey (counterparty_points view))
      in and_then (expect (p2wsh_signature_hash lib (built_transaction lib ctx) 0 redeemscript
                     (channel_value_sat view) SighashAll)) (\<lambda>sighash.
         and_then (err_if (\<not> verify_ecdsa lib sighash commit_sig
                       (funding_pubkey (counterparty_points (chan_setup ch)))) FailedPrecondition) (\<lambda>_.
         and_then (ok_or (derive_public_key lib point (htlc_basepoint (counterparty_points (chan_setup ch))))
                     Internal) (\<lambda>htlc_pubkey.
         let build_feerate = (if is_zero_fee_htlc (chan_setup ch) then 0 else feerate)
         in check_all (check_htlc_signature lib ch ctx txkeys build_feerate htlc_pubkey htlc_sigs)
              (enumerate 0 (nondust_htlcs lib ctx))))))"

section \<open>Signing the counterparty's commitment\<close>

definition is_funding_changed :: "EnforcementState \<Rightarrow> ChannelSetup \<Rightarrow> bool" where
  "is_funding_changed est view =
     (case counterparty_commitment_funding est of None \<Rightarrow> False | Some f \<Rightarrow> f \<noteq> funding_outpoint view)"

text \<open>The tail that both forms of the request share: the state advances only when nothing went wrong.\<close>

definition advance_counterparty_state ::
  "Env \<Rightarrow> ChannelSetup \<Rightarrow> u64 \<Rightarrow> PublicKey \<Rightarrow> CommitmentInfo2 \<Rightarrow> payment_map \<Rightarrow> payment_map \<Rightarrow> u64 \<times> u64 \<Rightarrow>
   ChanWorld \<Rightarrow> (ChanWorld, unit, Status) outcome" where
  "advance_counterparty_state env view commitment_number point info2 inc out delta = (\<lambda>(ch, ns).
     let est = enforcement_state ch; v = env_validator env
     in attempt (to_status (set_next_counterparty_commit_num (v_filter v) est (commitment_number + 1) point info2
                   (is_funding_changed est view))) (ch, ns) (\<lambda>est.
        let ch = ch\<lparr>enforcement_state := est\<lparr>counterparty_commitment_funding := Some (funding_outpoint view)\<rparr>\<rparr>
        in attempt (apply_payments ns (id0 ch) inc out delta v (Some info2)) (ch, ns) (\<lambda>ns.
           attempt (env_persist env ch) (ch, ns) (\<lambda>_. (Ok (), (ch, ns))))))"

definition sign_counterparty_commitment_tx_phase2 ::
  "Env \<Rightarrow> OutPoint \<Rightarrow> PublicKey \<Rightarrow> u64 \<Rightarrow> u32 \<Rightarrow> u64 \<Rightarrow> u64 \<Rightarrow> HTLCInfo2 list \<Rightarrow> HTLCInfo2 list \<Rightarrow>
   ChanWorld \<Rightarrow> (ChanWorld, Signature \<times> Signature list, Status) outcome" where
  "sign_counterparty_commitment_tx_phase2 env outpoint point commitment_number feerate to_holder to_counterparty
     offered received = (\<lambda>(ch, ns).
     let est = enforcement_state ch; v = env_validator env; w = (ch, ns)
     in attempt (setup_for_outpoint ch outpoint) w (\<lambda>view.
        attempt (to_status (v_validate_channel_value v view)) w (\<lambda>_.
        let info2 = build_counterparty_commitment_info to_holder to_counterparty offered received feerate
        in attempt (claimable_balances est (has_preimage ns) None (Some info2) view (prev_setup ch)) w (\<lambda>delta.
           let inc = incoming_payments_summary est None (Some info2)
           in attempt (to_status (v_validate_counterparty_commitment_tx v est commitment_number point view
                         (get_chain_state env ch) info2)) w (\<lambda>_.
              let htlcs = htlcs_info2_to_oic (offered_htlcs info2) (received_htlcs info2);
                  ctx = make_counterparty_commitment_tx_with_setup ch view point commitment_number feerate
                    to_holder to_counterparty htlcs
              in attempt (ok_or (sign_counterparty_commitment (env_lib env) (chan_keys ch)
                            (make_channel_parameters_with_setup ch view) ctx) Internal) w (\<lambda>sigs.
                 let out = payments_summary est None (Some info2)
                 in attempt (to_status (validate_payments ns (id0 ch) inc out delta v)) w (\<lambda>_.
                    attempt_op (advance_counterparty_state env view commitment_number point info2
                                  inc out delta w) (\<lambda>_ w.
                    (Ok sigs, w)))))))))"

text \<open>
  The form that carries the transaction. It is rebuilt from the decoded values; when it differs
  and the policy lets that pass, the host's transaction is signed without advancing the state.
\<close>

definition sign_counterparty_commitment_tx ::
  "Env \<Rightarrow> Transaction \<Rightarrow> u8 list list \<Rightarrow> PublicKey \<Rightarrow> u64 \<Rightarrow> u32 \<Rightarrow> HTLCInfo2 list \<Rightarrow> HTLCInfo2 list \<Rightarrow>
   ChanWorld \<Rightarrow> (ChanWorld, Signature, Status) outcome" where
  "sign_counterparty_commitment_tx env tx witscripts point commitment_number feerate offered received = (\<lambda>(ch, ns).
     let est = enforcement_state ch; v = env_validator env; lib = env_lib env; w = (ch, ns);
         funding_pub = funding_pubkey (sk_holder_pubkeys (chan_keys ch))
     in attempt (err_if (length (tx_output tx) \<noteq> length witscripts) InvalidArgument) w (\<lambda>_.
        attempt (to_status (v_validate_channel_value v (chan_setup ch))) w (\<lambda>_.
        attempt (to_status (v_decode_commitment_tx v funding_pub (chan_setup ch) True tx witscripts)) w (\<lambda>info.
        let info2 = build_counterparty_commitment_info (ci_to_countersigner_value_sat info)
                      (ci_to_broadcaster_value_sat info) offered received feerate;
            view = setup_for_tx ch tx
        in attempt (claimable_balances est (has_preimage ns) None (Some info2) view (prev_setup ch)) w (\<lambda>delta.
           let inc = incoming_payments_summary est None (Some info2)
           in attempt (to_status (v_validate_counterparty_commitment_tx v est commitment_number point view
                         (get_chain_state env ch) info2)) w (\<lambda>_.
              let htlcs = htlcs_info2_to_oic (offered_htlcs info2) (received_htlcs info2);
                  ctx = make_counterparty_commitment_tx_with_setup ch view point commitment_number feerate
                    (to_countersigner_value_sat info2) (to_broadcaster_value_sat info2) htlcs;
                  redeemscript = make_funding_redeemscript lib funding_pub (funding_pubkey (counterparty_points view));
                  sign_funding = (\<lambda>signed t. map_option (\<lambda>sighash. signed sighash (sk_funding_key (chan_keys ch)))
                    (p2wsh_signature_hash lib t 0 redeemscript (channel_value_sat view) SighashAll))
              in if built_transaction lib ctx \<noteq> tx then
                   attempt (to_status (policy_error_with_filter ''policy-commitment'' (v_filter v))) w (\<lambda>_.
                   attempt (ok_or (sign_funding (sign_ecdsa lib) tx) Internal) w (\<lambda>sig. (Ok sig, w)))
                 else
                   attempt (ok_or (sign_funding (sign lib) (built_transaction lib ctx)) Internal) w (\<lambda>sig.
                   let out = payments_summary est None (Some info2)
                   in attempt (to_status (validate_payments ns (id0 ch) inc out delta v)) w (\<lambda>_.
                      attempt_op (advance_counterparty_state env view
                                    (INITIAL_COMMITMENT_NUMBER - cmt_number ctx) (cmt_point ctx) info2
                                    inc out delta w) (\<lambda>_ w.
                      (Ok sig, w))))))))))"

section \<open>Validating the holder's commitment\<close>

text \<open>
  Storing a validated holder commitment. The two forms differ in when an older funding's commitment
  goes to the snapshot: \<open>straggler\<close> is that condition.
\<close>

definition store_holder_commitment ::
  "Env \<Rightarrow> ChannelSetup \<Rightarrow> bool \<Rightarrow> u64 \<Rightarrow> CommitmentInfo2 \<Rightarrow> CommitmentSignatures \<Rightarrow>
   ChanWorld \<Rightarrow> (ChanWorld, unit, Status) outcome" where
  "store_holder_commitment env view straggler commitment_number info2 sigs = (\<lambda>(ch, ns).
     let est = enforcement_state ch;
         est' = (if commitment_number = next_holder_commit_num est then
                   est\<lparr>next_holder_commit_info := Some (info2, sigs),
                       holder_commitment_funding := Some (funding_outpoint view)\<rparr>
                 else if prev_funding_commitment est \<noteq> None
                   \<and> commitment_number + 1 = next_holder_commit_num est \<and> straggler then
                   est\<lparr>prev_funding_commitment :=
                         map_option (\<lambda>p. p\<lparr>pf_next_holder_info := Some (info2, sigs)\<rparr>) (prev_funding_commitment est)\<rparr>
                 else est);
         ch = ch\<lparr>enforcement_state := est'\<rparr>
     in attempt (env_persist env ch) (ch, ns) (\<lambda>_. (Ok (), (ch, ns))))"

definition validate_holder_commitment_tx_phase2 ::
  "Env \<Rightarrow> OutPoint \<Rightarrow> u64 \<Rightarrow> u32 \<Rightarrow> u64 \<Rightarrow> u64 \<Rightarrow> HTLCInfo2 list \<Rightarrow> HTLCInfo2 list \<Rightarrow> CommitmentSignatures \<Rightarrow>
   ChanWorld \<Rightarrow> (ChanWorld, unit, Status) outcome" where
  "validate_holder_commitment_tx_phase2 env outpoint commitment_number feerate to_holder to_counterparty
     offered received sigs = (\<lambda>(ch, ns).
     let est = enforcement_state ch; v = env_validator env; lib = env_lib env; w = (ch, ns)
     in attempt (setup_for_outpoint ch outpoint) w (\<lambda>view.
        attempt (get_per_commitment_point lib ch commitment_number) w (\<lambda>point.
        let info2 = build_holder_commitment_info to_holder to_counterparty offered received feerate
        in attempt (claimable_balances est (has_preimage ns) (Some info2) None view (prev_setup ch)) w (\<lambda>delta.
           let inc = incoming_payments_summary est (Some info2) None
           in attempt (to_status (v_validate_holder_commitment_tx v est commitment_number view
                         (get_chain_state env ch) info2)) w (\<lambda>_.
              let htlcs = htlcs_info2_to_oic (offered_htlcs info2) (received_htlcs info2);
                  ctx = make_holder_commitment_tx_with_setup ch view commitment_number point feerate
                    to_holder to_counterparty htlcs
              in attempt (check_holder_tx_signatures lib ch view point (make_holder_tx_keys lib ch point) feerate
                            (fst sigs) (snd sigs) ctx) w (\<lambda>_.
                 let out = payments_summary est (Some info2) None
                 in attempt (to_status (validate_payments ns (id0 ch) inc out delta v)) w (\<lambda>_.
                    store_holder_commitment env view
                      (holder_commitment_funding est \<noteq> Some (funding_outpoint view))
                      commitment_number info2 sigs w)))))))"

definition make_validated_recomposed_holder_commitment_tx ::
  "Env \<Rightarrow> Channel \<Rightarrow> Transaction \<Rightarrow> u8 list list \<Rightarrow> u64 \<Rightarrow> PublicKey \<Rightarrow> u32 \<Rightarrow> HTLCInfo2 list \<Rightarrow> HTLCInfo2 list \<Rightarrow>
   (CommitmentTransaction \<times> CommitmentInfo2 \<times> payment_map, Status) result" where
  "make_validated_recomposed_holder_commitment_tx env ch tx witscripts commitment_number point feerate
     offered received =
     (let est = enforcement_state ch; v = env_validator env; lib = env_lib env; view = setup_for_tx ch tx in
      and_then (err_if (length (tx_output tx) \<noteq> length witscripts) InvalidArgument) (\<lambda>_.
      and_then (to_status (v_validate_channel_value v view)) (\<lambda>_.
      and_then (to_status (v_decode_commitment_tx v (funding_pubkey (sk_holder_pubkeys (chan_keys ch)))
                  view False tx witscripts)) (\<lambda>info.
      let info2 = build_holder_commitment_info (ci_to_broadcaster_value_sat info)
                    (ci_to_countersigner_value_sat info) offered received feerate
      in and_then (to_status (v_validate_holder_commitment_tx v est commitment_number view
                     (get_chain_state env ch) info2)) (\<lambda>_.
         let htlcs = htlcs_info2_to_oic (offered_htlcs info2) (received_htlcs info2);
             ctx = make_holder_commitment_tx_with_setup ch view commitment_number point feerate
               (ci_to_broadcaster_value_sat info) (ci_to_countersigner_value_sat info) htlcs
         in and_then (to_status (policy_err_if (v_filter v) (built_transaction lib ctx \<noteq> tx)
                        ''policy-commitment'')) (\<lambda>_.
            Ok (ctx, info2, incoming_payments_summary est (Some info2) None)))))))"

definition validate_holder_commitment_tx_phase1 ::
  "Env \<Rightarrow> Transaction \<Rightarrow> u8 list list \<Rightarrow> u64 \<Rightarrow> u32 \<Rightarrow> HTLCInfo2 list \<Rightarrow> HTLCInfo2 list \<Rightarrow> CommitmentSignatures \<Rightarrow>
   ChanWorld \<Rightarrow> (ChanWorld, unit, Status) outcome" where
  "validate_holder_commitment_tx_phase1 env tx witscripts commitment_number feerate offered received sigs =
     (\<lambda>(ch, ns).
     let est = enforcement_state ch; v = env_validator env; lib = env_lib env; w = (ch, ns)
     in attempt (get_per_commitment_point lib ch commitment_number) w (\<lambda>point.
        attempt (make_validated_recomposed_holder_commitment_tx env ch tx witscripts commitment_number point
                   feerate offered received) w (\<lambda>(ctx, info2, inc).
        let view = setup_for_tx ch tx
        in attempt (claimable_balances est (has_preimage ns) (Some info2) None view (prev_setup ch)) w (\<lambda>delta.
           attempt (check_holder_tx_signatures lib ch view point (make_holder_tx_keys lib ch point) feerate
                      (fst sigs) (snd sigs) ctx) w (\<lambda>_.
           let out = payments_summary est (Some info2) None
           in attempt (to_status (validate_payments ns (id0 ch) inc out delta v)) w (\<lambda>_.
              store_holder_commitment env view
                (funding_outpoint view \<noteq> funding_outpoint (chan_setup ch)) commitment_number info2 sigs w))))))"

section \<open>Revoking the holder's previous commitment\<close>

definition release_commitment_secret ::
  "Env \<Rightarrow> Channel \<Rightarrow> u64 \<Rightarrow> (PublicKey \<times> Secret option, Status) result" where
  "release_commitment_secret env ch commitment_number =
     and_then (get_per_commitment_point (env_lib env) ch (commitment_number + 1)) (\<lambda>next_point.
     if commitment_number \<ge> 1 then
       and_then (get_per_commitment_secret (env_lib env) (env_validator env) ch (commitment_number - 1)) (\<lambda>secret.
       Ok (next_point, Some secret))
     else Ok (next_point, None))"

definition advance_holder_commitment_state ::
  "Env \<Rightarrow> u64 \<Rightarrow> CommitmentInfo2 \<Rightarrow> CommitmentSignatures \<Rightarrow> ChanWorld \<Rightarrow>
   (ChanWorld, PublicKey \<times> Secret option, Status) outcome" where
  "advance_holder_commitment_state env new_number info2 sigs = (\<lambda>(ch, ns).
     attempt (to_status (set_next_holder_commit_num (v_filter (env_validator env)) (enforcement_state ch)
                (new_number + 1) info2 sigs)) (ch, ns) (\<lambda>est.
     let ch = ch\<lparr>enforcement_state := est\<rparr>
     in attempt (release_commitment_secret env ch new_number) (ch, ns) (\<lambda>released. (Ok released, (ch, ns)))))"

text \<open>
  A number other than the next one only releases. Otherwise the pending commitment is taken out of
  the state first, so that a failure of a later step leaves the state without it.
\<close>

definition revoke_previous_holder_commitment ::
  "Env \<Rightarrow> u64 \<Rightarrow> ChanWorld \<Rightarrow> (ChanWorld, PublicKey \<times> Secret option, Status) outcome" where
  "revoke_previous_holder_commitment env new_number = (\<lambda>(ch, ns).
     let est = enforcement_state ch; v = env_validator env; lib = env_lib env; w = (ch, ns)
     in if new_number \<noteq> next_holder_commit_num est then
          attempt (release_commitment_secret env ch new_number) w (\<lambda>released. (Ok released, w))
        else
          case next_holder_commit_info est of
            None \<Rightarrow>
              attempt (to_status (policy_error_with_filter ''policy-revoke-new-commitment-signed'' (v_filter v))) w (\<lambda>_.
              attempt (get_per_commitment_point lib ch new_number) w (\<lambda>point. (Ok (point, None), w)))
          | Some (info2, sigs) \<Rightarrow>
              let est = est\<lparr>next_holder_commit_info := None\<rparr>;
                  ch = ch\<lparr>enforcement_state := est\<rparr>;
                  inc = incoming_payments_summary est (Some info2) None;
                  out = payments_summary est (Some info2) None
              in attempt (claimable_balances est (has_preimage ns) (Some info2) None (chan_setup ch) (prev_setup ch))
                   (ch, ns) (\<lambda>delta.
                 attempt_op (advance_holder_commitment_state env new_number info2 sigs (ch, ns)) (\<lambda>released (ch, ns).
                 attempt (apply_payments ns (id0 ch) inc out delta v (Some info2)) (ch, ns) (\<lambda>ns.
                 attempt (env_persist env ch) (ch, ns) (\<lambda>_. (Ok released, (ch, ns)))))))"

text \<open>Commitment 0 has no predecessor, so it is made current explicitly.\<close>

definition activate_initial_commitment :: "Env \<Rightarrow> ChanWorld \<Rightarrow> (ChanWorld, PublicKey, Status) outcome" where
  "activate_initial_commitment env = (\<lambda>(ch, ns).
     let est = enforcement_state ch; w = (ch, ns)
     in attempt (err_if (next_holder_commit_num est > 1
                   \<or> next_holder_commit_num est = 1 \<and> prev_funding_commitment est = None) InvalidArgument) w (\<lambda>_.
        case next_holder_commit_info est of
          None \<Rightarrow> (Err InvalidArgument, w)
        | Some (info2, sigs) \<Rightarrow>
            let est = est\<lparr>next_holder_commit_info := None\<rparr>
            in attempt
                 (if next_holder_commit_num est = 0 then estate_set_next_holder_commit_num est 1 info2 sigs
                  else Ok (est\<lparr>current_holder_commit_info := Some info2,
                               current_counterparty_signatures := Some sigs\<rparr>)) w (\<lambda>est.
               let ch = ch\<lparr>enforcement_state := est\<rparr>
               in attempt (env_persist env ch) (ch, ns) (\<lambda>_.
                  attempt (get_per_commitment_point_unchecked (env_lib env) ch 1) (ch, ns) (\<lambda>point.
                  (Ok point, (ch, ns)))))))"

section \<open>The counterparty's revocation\<close>

definition validate_revocation ::
  "Env \<Rightarrow> u64 \<Rightarrow> Secret \<Rightarrow> ChanWorld \<Rightarrow> (ChanWorld, unit, Status) outcome" where
  "validate_revocation env revoke_num old_secret = (\<lambda>(ch, ns).
     let est = enforcement_state ch; v = env_validator env; w = (ch, ns)
     in attempt (to_status (v_validate_counterparty_revocation v est revoke_num old_secret)) w (\<lambda>_.
        attempt
          (case counterparty_secrets est of
             None \<Rightarrow> Ok est
           | Some secrets \<Rightarrow>
               (case provide_secret (env_sha env) secrets (INITIAL_COMMITMENT_NUMBER - revoke_num) old_secret of
                  Ok secrets' \<Rightarrow> Ok (est\<lparr>counterparty_secrets := Some secrets'\<rparr>)
                | Err _ \<Rightarrow>
                    and_then (to_status (policy_error_with_filter ''policy-commitment-previous-revoked'' (v_filter v)))
                      (\<lambda>_. Ok est)
                | Panic \<Rightarrow> Panic)) w (\<lambda>est.
        let ch = ch\<lparr>enforcement_state := est\<rparr>
        in attempt (to_status (set_next_counterparty_revoke_num (v_filter v) est (revoke_num + 1))) (ch, ns) (\<lambda>est.
           let ch = ch\<lparr>enforcement_state := est\<rparr>
           in attempt (env_persist env ch) (ch, ns) (\<lambda>_. (Ok (), (ch, ns)))))))"

section \<open>Closing\<close>

record ClosableHolderCommitment =
  close_commitment_number :: u64
  close_info :: CommitmentInfo2
  close_counterparty_signatures :: CommitmentSignatures

definition get_holder_commitment_for_close ::
  "Env \<Rightarrow> Channel \<Rightarrow> u64 \<Rightarrow> (ClosableHolderCommitment, Status) result" where
  "get_holder_commitment_for_close env ch commitment_number =
     (let est = enforcement_state ch;
          current =
            and_then (to_status (get_current_holder_commitment_info (v_filter (env_validator env)) est
                        commitment_number)) (\<lambda>info.
            and_then (ok_or (current_counterparty_signatures est) Internal) (\<lambda>sigs.
            Ok \<lparr>close_commitment_number = commitment_number, close_info = info,
                close_counterparty_signatures = sigs\<rparr>))
      in if commitment_number = next_holder_commit_num est then
           case next_holder_commit_info est of
             Some (info, sigs) \<Rightarrow> Ok \<lparr>close_commitment_number = commitment_number, close_info = info,
                                     close_counterparty_signatures = sigs\<rparr>
           | None \<Rightarrow> current
         else current)"

definition get_latest_holder_commitment_for_close :: "Env \<Rightarrow> Channel \<Rightarrow> (ClosableHolderCommitment, Status) result" where
  "get_latest_holder_commitment_for_close env ch =
     (let est = enforcement_state ch in
      and_then
        (if next_holder_commit_info est \<noteq> None then Ok (next_holder_commit_num est)
         else ok_or (checked_sub (next_holder_commit_num est) 1) Internal)
        (get_holder_commitment_for_close env ch))"

definition recompose_holder_commitment_tx ::
  "Env \<Rightarrow> Channel \<Rightarrow> u64 \<Rightarrow> CommitmentInfo2 \<Rightarrow> (CommitmentTransaction \<times> PublicKey \<times> TxCreationKeys, Status) result" where
  "recompose_holder_commitment_tx env ch commitment_number info2 =
     (let htlcs = htlcs_info2_to_oic (offered_htlcs info2) (received_htlcs info2) in
      and_then (get_per_commitment_point (env_lib env) ch commitment_number) (\<lambda>point.
      let build_feerate = (if is_zero_fee_htlc (chan_setup ch) then 0 else feerate_per_kw info2)
      in Ok (make_holder_commitment_tx ch commitment_number point build_feerate
               (to_broadcaster_value_sat info2) (to_countersigner_value_sat info2) htlcs,
             point, make_holder_tx_keys (env_lib env) ch point)))"

definition mark_closed :: "Env \<Rightarrow> 'a \<Rightarrow> ChanWorld \<Rightarrow> (ChanWorld, 'a, Status) outcome" where
  "mark_closed env sig = (\<lambda>(ch, ns).
     let ch = ch\<lparr>enforcement_state := (enforcement_state ch)\<lparr>channel_closed := True\<rparr>\<rparr>
     in attempt (env_persist env ch) (ch, ns) (\<lambda>_. (Ok sig, (ch, ns))))"

definition sign_holder_commitment_tx_phase2 ::
  "Env \<Rightarrow> u64 \<Rightarrow> ChanWorld \<Rightarrow> (ChanWorld, Signature, Status) outcome" where
  "sign_holder_commitment_tx_phase2 env commitment_number = (\<lambda>(ch, ns).
     attempt (get_holder_commitment_for_close env ch commitment_number) (ch, ns) (\<lambda>hc.
     attempt (recompose_holder_commitment_tx env ch (close_commitment_number hc) (close_info hc)) (ch, ns) (\<lambda>(ctx, _, _).
     attempt (ok_or (sign_holder_commitment (env_lib env) (env_aux env) (chan_keys ch)
                (make_channel_parameters ch) ctx) Internal) (ch, ns) (\<lambda>sig.
     mark_closed env sig (ch, ns)))))"

definition get_current_holder_commitment_transaction ::
  "Env \<Rightarrow> Channel \<Rightarrow> (CommitmentTransaction, Status) result" where
  "get_current_holder_commitment_transaction env ch =
     and_then (ok_or (current_holder_commit_info (enforcement_state ch)) Internal) (\<lambda>info2.
     and_then (recompose_holder_commitment_tx env ch (next_holder_commit_num (enforcement_state ch) - 1) info2)
       (\<lambda>(ctx, _, _). Ok ctx))"

definition sign_mutual_close_tx_phase2 ::
  "Env \<Rightarrow> u64 \<Rightarrow> u64 \<Rightarrow> Script option \<Rightarrow> Script option \<Rightarrow> DerivationPath \<Rightarrow> ChanWorld \<Rightarrow>
   (ChanWorld, Signature, Status) outcome" where
  "sign_mutual_close_tx_phase2 env to_holder to_counterparty holder_script counterparty_script path = (\<lambda>(ch, ns).
     let or_empty = (\<lambda>s. case s of None \<Rightarrow> [] | Some s \<Rightarrow> s) in
     attempt (to_status (v_validate_mutual_close_tx (env_validator env) (env_wallet env) (chan_setup ch)
                (enforcement_state ch) to_holder to_counterparty holder_script counterparty_script path)) (ch, ns) (\<lambda>_.
     attempt (ok_or (sign_closing_transaction (env_lib env) (chan_keys ch) (make_channel_parameters ch)
                \<lparr>ct_to_holder_value_sat = to_holder, ct_to_counterparty_value_sat = to_counterparty,
                 ct_holder_script = or_empty holder_script, ct_counterparty_script = or_empty counterparty_script,
                 ct_funding_outpoint = funding_outpoint (chan_setup ch)\<rparr>) Internal) (ch, ns) (\<lambda>sig.
     mark_closed env sig (ch, ns))))"

definition sign_mutual_close_tx ::
  "Env \<Rightarrow> Transaction \<Rightarrow> DerivationPath list \<Rightarrow> ChanWorld \<Rightarrow> (ChanWorld, Signature, Status) outcome" where
  "sign_mutual_close_tx env tx opaths = (\<lambda>(ch, ns).
     attempt (err_if (length opaths \<noteq> length (tx_output tx)) InvalidArgument) (ch, ns) (\<lambda>_.
     attempt (to_status (v_decode_and_validate_mutual_close_tx (env_validator env) (env_wallet env) (chan_setup ch)
                (enforcement_state ch) tx opaths)) (ch, ns) (\<lambda>ct.
     attempt (ok_or (sign_closing_transaction (env_lib env) (chan_keys ch) (make_channel_parameters ch) ct)
                Internal) (ch, ns) (\<lambda>sig.
     mark_closed env sig (ch, ns)))))"

section \<open>Splices\<close>

definition sign_splice_tx ::
  "Env \<Rightarrow> Channel \<Rightarrow> Transaction \<Rightarrow> u32 \<Rightarrow> PublicKey \<Rightarrow> u64 option \<Rightarrow> (Signature, Status) result" where
  "sign_splice_tx env ch tx input_index remote_funding_key input_amount_sat =
     (let lib = env_lib env; ndx = unat input_index in
      and_then (err_if (\<not> ndx < length (tx_input tx)) InvalidArgument) (\<lambda>_.
      let spent = previous_output (tx_input tx ! ndx) in
      and_then
        (if spent = funding_outpoint (chan_setup ch) then Ok (chan_setup ch)
         else case prev_setup ch of
                Some prev \<Rightarrow>
                  if spent = funding_outpoint prev then Ok prev
                  else (case prev_prev_setup ch of
                          Some pp \<Rightarrow> if spent = funding_outpoint pp then Ok pp else Err InvalidArgument
                        | None \<Rightarrow> Err InvalidArgument)
              | None \<Rightarrow> Err InvalidArgument) (\<lambda>view.
      and_then (err_if (remote_funding_key \<noteq> funding_pubkey (counterparty_points view)) InvalidArgument) (\<lambda>_.
      let amount = (case input_amount_sat of Some a \<Rightarrow> a | None \<Rightarrow> channel_value_sat view) in
      and_then (err_if (amount \<noteq> channel_value_sat view) InvalidArgument) (\<lambda>_.
      let funding_key = sk_funding_key (chan_keys ch);
          redeemscript = make_funding_redeemscript lib (public_key_of lib funding_key) remote_funding_key
      in and_then (ok_or (p2wsh_signature_hash lib tx ndx redeemscript amount SighashAll) Internal) (\<lambda>sighash.
         Ok (sign_ecdsa lib sighash funding_key)))))))"

text \<open>
  The lock of the current funding retires the previous ones. After a splice the commitments are
  replaced by a baseline made from the setup.
\<close>

definition confirm_funding_locked :: "Env \<Rightarrow> OutPoint \<Rightarrow> ChanWorld \<Rightarrow> (ChanWorld, unit, Status) outcome" where
  "confirm_funding_locked env outpoint = (\<lambda>(ch, ns).
     if funding_locked ch = Some outpoint then (Ok (), (ch, ns))
     else if outpoint \<noteq> funding_outpoint (chan_setup ch) then (Err InvalidArgument, (ch, ns))
     else
       let was_splice = (prev_setup ch \<noteq> None \<or> prev_prev_setup ch \<noteq> None);
           view = chan_setup ch;
           est = retire_prev_funding (enforcement_state ch);
           push_sat = push_value_msat view div 1000;
           (to_holder, to_cp) =
             (if push_value_msat view \<le> 2 ^ 63 - 1 then (saturating_sub (channel_value_sat view) push_sat, push_sat)
              else (initial_holder_value est, saturating_sub (channel_value_sat view) (initial_holder_value est)));
           est = (if was_splice then
                    est\<lparr>current_holder_commit_info := Some (commitment_info2_new False to_cp to_holder [] [] 0),
                        current_counterparty_commit_info := Some (commitment_info2_new True to_holder to_cp [] [] 0)\<rparr>
                  else est);
           ch = ch\<lparr>funding_locked := Some outpoint, prev_setup := None, prev_prev_setup := None,
                   enforcement_state := est\<rparr>
       in attempt (env_persist env ch) (ch, ns) (\<lambda>_. (Ok (), (ch, ns))))"

section \<open>Sweeps\<close>

definition sign_delayed_sweep ::
  "Env \<Rightarrow> Channel \<Rightarrow> Transaction \<Rightarrow> nat \<Rightarrow> u64 \<Rightarrow> Script \<Rightarrow> u64 \<Rightarrow> DerivationPath \<Rightarrow> (Signature, Status) result" where
  "sign_delayed_sweep env ch tx input commitment_number redeemscript amount_sat path =
     (let lib = env_lib env in
      and_then (err_if (input \<ge> length (tx_input tx)) InvalidArgument) (\<lambda>_.
      and_then (get_per_commitment_point lib ch commitment_number) (\<lambda>point.
      and_then (to_status (v_validate_delayed_sweep (env_validator env) (env_wallet env) (chan_setup ch)
                  (get_chain_state env ch) tx amount_sat path)) (\<lambda>_.
      and_then (expect (p2wsh_signature_hash lib tx input redeemscript amount_sat SighashAll)) (\<lambda>sighash.
      Ok (sign_ecdsa lib sighash
            (derive_private_key lib point (sk_delayed_payment_base_key (chan_keys ch)))))))))"

definition sign_counterparty_htlc_sweep ::
  "Env \<Rightarrow> Channel \<Rightarrow> Transaction \<Rightarrow> nat \<Rightarrow> PublicKey \<Rightarrow> Script \<Rightarrow> u64 \<Rightarrow> DerivationPath \<Rightarrow> (Signature, Status) result" where
  "sign_counterparty_htlc_sweep env ch tx input remote_point redeemscript amount_sat path =
     (let lib = env_lib env in
      and_then (err_if (input \<ge> length (tx_input tx)) InvalidArgument) (\<lambda>_.
      and_then (to_status (v_validate_counterparty_htlc_sweep (env_validator env) (env_wallet env) (chan_setup ch)
                  (get_chain_state env ch) tx redeemscript amount_sat path)) (\<lambda>_.
      and_then (expect (p2wsh_signature_hash lib tx input redeemscript amount_sat SighashAll)) (\<lambda>sighash.
      Ok (sign_ecdsa lib sighash (derive_private_key lib remote_point (sk_htlc_base_key (chan_keys ch))))))))"

definition sign_justice_sweep ::
  "Env \<Rightarrow> Channel \<Rightarrow> Transaction \<Rightarrow> nat \<Rightarrow> Secret \<Rightarrow> Script \<Rightarrow> u64 \<Rightarrow> DerivationPath \<Rightarrow> (Signature, Status) result" where
  "sign_justice_sweep env ch tx input revocation_secret redeemscript amount_sat path =
     (let lib = env_lib env in
      and_then (err_if (input \<ge> length (tx_input tx)) InvalidArgument) (\<lambda>_.
      and_then (to_status (v_validate_justice_sweep (env_validator env) (env_wallet env) (chan_setup ch)
                  (get_chain_state env ch) tx amount_sat path)) (\<lambda>_.
      and_then (expect (p2wsh_signature_hash lib tx input redeemscript amount_sat SighashAll)) (\<lambda>sighash.
      Ok (sign_ecdsa lib sighash
            (derive_private_revocation_key lib revocation_secret (sk_revocation_base_key (chan_keys ch))))))))"

definition sign_holder_htlc_tx_phase2 ::
  "Env \<Rightarrow> Channel \<Rightarrow> Transaction \<Rightarrow> u32 \<Rightarrow> u64 \<Rightarrow> bool \<Rightarrow> u32 \<Rightarrow> u64 \<Rightarrow> PaymentHash \<Rightarrow>
   (Signature \<times> EcdsaSighashType, Status) result" where
  "sign_holder_htlc_tx_phase2 env ch tx input commitment_number is_offered cltv htlc_msat hash =
     (let lib = env_lib env in
      and_then (get_per_commitment_point lib ch commitment_number) (\<lambda>point.
      let htlc = \<lparr>htlc_is_offered = is_offered, htlc_amount_msat = htlc_msat, htlc_cltv_expiry = cltv,
                  htlc_payment_hash = hash, transaction_output_index = None\<rparr>;
          script = get_htlc_redeemscript lib htlc (features (chan_setup ch)) (make_holder_tx_keys lib ch point)
      in and_then (expect (p2wsh_signature_hash lib tx (unat input) script (htlc_msat div 1000) SighashAll)) (\<lambda>sighash.
         Ok (sign_ecdsa lib sighash (derive_private_key lib point (sk_htlc_base_key (chan_keys ch))), SighashAll))))"

section \<open>Payments of a channel\<close>

definition channel_htlcs_fulfilled :: "Env \<Rightarrow> PaymentPreimage list \<Rightarrow> ChanWorld \<Rightarrow> (ChanWorld, unit, Status) outcome" where
  "channel_htlcs_fulfilled env preimages = (\<lambda>(ch, ns).
     attempt (htlcs_fulfilled (env_payment_hash env) ns preimages (env_validator env)) (ch, ns) (\<lambda>ns.
     (Ok (), (ch, ns))))"

definition or_else :: "'a option \<Rightarrow> 'a option \<Rightarrow> 'a option" where
  "or_else a b = (case a of None \<Rightarrow> b | Some _ \<Rightarrow> a)"

definition restore_payments :: "Channel \<Rightarrow> NodeState \<Rightarrow> NodeState" where
  "restore_payments ch ns =
     (let est = enforcement_state ch;
          inc = incoming_payments_summary est None None; out = payments_summary est None None;
          holder = current_holder_commit_info est; cp = current_counterparty_commit_info est;
          cltv = (\<lambda>pick side tx hash. case tx of None \<Rightarrow> None | Some info \<Rightarrow> pick (cltvs_of hash (side info)));
          restore = (\<lambda>ps hash.
            AList.update hash
              (payment_apply (get_or routed_payment_new ps hash) (id0 ch) (get_or 0 inc hash) (get_or 0 out hash)
                 (or_else (cltv list_min received_htlcs holder hash) (cltv list_min offered_htlcs cp hash))
                 (or_else (cltv list_max offered_htlcs holder hash) (cltv list_max received_htlcs cp hash))) ps)
      in ns\<lparr>payments := foldl restore (payments ns) (payment_hashes inc out)\<rparr>)"

definition balance_of_channel :: "Env \<Rightarrow> Channel \<Rightarrow> NodeState \<Rightarrow> (ChannelBalance, 'e) result" where
  "balance_of_channel env ch ns =
     channel_balance (enforcement_state ch) (has_preimage ns) (chan_setup ch)
       (v_is_ready (env_validator env) (get_chain_state env ch))"

section \<open>Commitments seen on chain\<close>

definition is_holder_commitment ::
  "Env \<Rightarrow> Channel \<Rightarrow> Transaction \<Rightarrow> u64 \<Rightarrow> CommitmentInfo2 \<Rightarrow> (bool, Status) result" where
  "is_holder_commitment env ch tx commitment_number info =
     (let lib = env_lib env in
      and_then (get_per_commitment_point lib ch commitment_number) (\<lambda>point.
      let ctx = make_holder_commitment_tx ch commitment_number point (feerate_per_kw info)
                  (to_broadcaster_value_sat info) (to_countersigner_value_sat info)
                  (htlcs_info2_to_oic (offered_htlcs info) (received_htlcs info))
      in Ok (compute_txid lib (built_transaction lib ctx) = compute_txid lib tx)))"

definition get_commitment_info ::
  "Env \<Rightarrow> Channel \<Rightarrow> Transaction \<Rightarrow> u64 \<Rightarrow> (bool \<times> CommitmentInfo2, Status) result" where
  "get_commitment_info env ch tx commitment_number =
     (let est = enforcement_state ch;
          counterparty =
            (case get_previous_counterparty_commit_info est commitment_number of
               Some info \<Rightarrow> Ok (True, info)
             | None \<Rightarrow> Err InvalidArgument);
          candidate =
            (if commitment_number = saturating_sub (next_holder_commit_num est) 1 then current_holder_commit_info est
             else if commitment_number = next_holder_commit_num est then map_option fst (next_holder_commit_info est)
             else None)
      in case candidate of
           None \<Rightarrow> counterparty
         | Some info \<Rightarrow>
             and_then (is_holder_commitment env ch tx commitment_number info) (\<lambda>same.
             if same then Ok (False, info) else counterparty))"

definition get_spendable_htlc_indices ::
  "Env \<Rightarrow> Channel \<Rightarrow> NodeState \<Rightarrow> Transaction \<Rightarrow> u64 \<Rightarrow> (u32 list, Status) result" where
  "get_spendable_htlc_indices env ch ns tx commitment_number =
     (let lib = env_lib env in
      and_then (get_commitment_info env ch tx commitment_number) (\<lambda>(is_counterparty_tx, info).
      and_then
        (if is_counterparty_tx then
           and_then (get_counterparty_commitment_point lib (env_sha env) ch commitment_number) expect
         else
           (case get_per_commitment_point lib ch commitment_number of Ok p \<Rightarrow> Ok p | _ \<Rightarrow> Panic)) (\<lambda>point.
      let txkeys = (if is_counterparty_tx then make_counterparty_tx_keys lib ch point
                    else make_holder_tx_keys lib ch point);
          can_spend_htlc = (\<lambda>htlc.
            if htlc_is_offered htlc = is_counterparty_tx then has_preimage ns (htlc_payment_hash htlc) else True);
          scripts = map (\<lambda>htlc. to_p2wsh lib (get_htlc_redeemscript lib htlc (features (chan_setup ch)) txkeys))
            (filter can_spend_htlc (htlcs_info2_to_oic (offered_htlcs info) (received_htlcs info)))
      in Ok (map (\<lambda>(i, _). of_nat i)
               (filter (\<lambda>(_, out). script_pubkey out \<in> set scripts) (enumerate 0 (tx_output tx)))))))"

end
