(* ===== verification/Protocol.thy ===== *)
theory Protocol
  imports Prelude Secrets
begin

text \<open>
  The commitment protocol that a channel promises to follow, without transactions, policies and
  errors: two counters for the commitments of the two sides, the commitment that waits to replace
  the current one, the points of the counterparty and the secrets it revealed. The signer's
  answers are observations that a state allows; every change of the state is silent. The channel
  operations of \<^verbatim>\<open>vls-core/src/channel.rs\<close> are shown to refine it in \<open>ChannelSafety\<close>.
\<close>

section \<open>The machine\<close>

record Proto =
  p_holder :: nat
  p_pending :: bool
  p_closed :: bool
  p_cp :: nat
  p_revoked :: nat
  p_current :: "PublicKey option"
  p_previous :: "PublicKey option"
  p_revealed :: "Secret list"

datatype Observation =
    Tau
  | ESignCp nat PublicKey
  | ERelease nat
  | ESignHolder nat

definition proto_start :: "Proto \<Rightarrow> bool" where
  "proto_start s \<longleftrightarrow> s = \<lparr>p_holder = 0, p_pending = False, p_closed = False, p_cp = 0, p_revoked = 0,
     p_current = None, p_previous = None, p_revealed = []\<rparr>"

text \<open>The point of a counterparty commitment that is still known.\<close>

definition p_point :: "Proto \<Rightarrow> nat \<Rightarrow> PublicKey option" where
  "p_point s n = (if n + 1 = p_cp s then p_current s else if n + 2 = p_cp s then p_previous s else None)"

inductive proto_step :: "(Secret \<Rightarrow> PublicKey) \<Rightarrow> Observation \<Rightarrow> Proto \<Rightarrow> Proto \<Rightarrow> bool" for point_of where
  next_counterparty:
    "p_cp s \<le> p_revoked s + 1 \<Longrightarrow>
     proto_step point_of Tau s (s\<lparr>p_previous := p_current s, p_current := Some point, p_cp := p_cp s + 1\<rparr>)"
| accept_holder: "\<not> p_closed s \<Longrightarrow> proto_step point_of Tau s (s\<lparr>p_pending := True\<rparr>)"
| drop_holder: "proto_step point_of Tau s (s\<lparr>p_pending := False\<rparr>)"
| advance_holder:
    "p_pending s \<Longrightarrow> proto_step point_of Tau s (s\<lparr>p_pending := False, p_holder := p_holder s + 1\<rparr>)"
| close: "proto_step point_of Tau s (s\<lparr>p_closed := True\<rparr>)"
| reveal:
    "\<lbrakk>length (p_revealed s) = p_revoked s; p_point s (p_revoked s) = Some (point_of secret)\<rbrakk> \<Longrightarrow>
     proto_step point_of Tau s (s\<lparr>p_revealed := p_revealed s @ [secret]\<rparr>)"
| revoke:
    "\<lbrakk>p_revoked s < length (p_revealed s); p_revoked s + 2 \<le> p_cp s\<rbrakk> \<Longrightarrow>
     proto_step point_of Tau s (s\<lparr>p_revoked := p_revoked s + 1\<rparr>)"
| sign_counterparty:
    "\<lbrakk>p_cp s = n + 1; p_current s = Some point\<rbrakk> \<Longrightarrow> proto_step point_of (ESignCp n point) s s"
| release: "k + 2 \<le> p_holder s \<Longrightarrow> proto_step point_of (ERelease k) s s"
| sign_holder:
    "\<lbrakk>p_closed s; p_holder s = m + 1 \<or> p_pending s \<and> p_holder s = m\<rbrakk> \<Longrightarrow>
     proto_step point_of (ESignHolder m) s s"

inductive_cases sign_counterpartyE: "proto_step point_of (ESignCp n point) s t"
inductive_cases releaseE: "proto_step point_of (ERelease k) s t"
inductive_cases sign_holderE: "proto_step point_of (ESignHolder m) s t"

interpretation proto: labelled_system proto_start "proto_step point_of" for point_of .

section \<open>The counters\<close>

text \<open>
  A secret may have been revealed for the commitment that is revoked next, and then it is a secret
  of its point.
\<close>

definition proto_ok :: "(Secret \<Rightarrow> PublicKey) \<Rightarrow> Proto \<Rightarrow> bool" where
  "proto_ok point_of s \<longleftrightarrow>
     (p_cp s = 0 \<and> p_revoked s = 0 \<and> p_revealed s = [] \<or> p_revoked s + 1 \<le> p_cp s \<and> p_cp s \<le> p_revoked s + 2)
     \<and> p_revoked s \<le> length (p_revealed s) \<and> length (p_revealed s) \<le> p_revoked s + 1
     \<and> (p_revoked s < length (p_revealed s) \<longrightarrow>
          p_point s (p_revoked s) = Some (point_of (p_revealed s ! p_revoked s)))
     \<and> (p_cp s = 0 \<longrightarrow> p_current s = None) \<and> (p_cp s \<le> 1 \<longrightarrow> p_previous s = None)"

lemma proto_ok_start: "proto_start s \<Longrightarrow> proto_ok point_of s"
  by (simp add: proto_start_def proto_ok_def)

lemma proto_ok_step: "\<lbrakk>proto_step point_of e s t; proto_ok point_of s\<rbrakk> \<Longrightarrow> proto_ok point_of t"
proof (induction rule: proto_step.induct)
  case (reveal s secret)
  then have "(p_revealed s @ [secret]) ! p_revoked s = secret" by (metis nth_append_length)
  with reveal show ?case by (auto simp: proto_ok_def p_point_def split: if_splits)
qed (auto simp: proto_ok_def p_point_def split: if_splits)

lemma proto_ok_trace: "\<lbrakk>proto.trace point_of s es t; proto_ok point_of s\<rbrakk> \<Longrightarrow> proto_ok point_of t"
  by (induction rule: proto.trace.induct) (auto intro: proto_ok_step)

lemma holder_monotone: "proto.trace point_of s es t \<Longrightarrow> p_holder s \<le> p_holder t"
proof (induction rule: proto.trace.induct)
  case (trace_snoc es t e u)
  from trace_snoc.hyps(2) have "p_holder t \<le> p_holder u" by cases simp_all
  with trace_snoc.IH show ?case by simp
qed simp

section \<open>The holder's side\<close>

lemma released_before_signed:
  assumes "proto.trace point_of s (es @ ERelease k # es') t" "ESignHolder m \<in> set es'"
  shows "k < m"
proof -
  obtain xs ys where "es' = xs @ ESignHolder m # ys" using assms(2) by (auto dest: split_list)
  with assms(1) obtain u u' v v' where "proto_step point_of (ERelease k) u u'" "proto.trace point_of u' xs v"
    "proto_step point_of (ESignHolder m) v v'"
    using proto.trace_split by metis
  with holder_monotone [of point_of u' xs v] show ?thesis by (auto elim!: releaseE sign_holderE)
qed

text \<open>Once the channel is closed with nothing pending, the holder's commitment does not change.\<close>

lemma closed_stays:
  assumes "proto.trace point_of s es t" "p_closed s" "\<not> p_pending s"
  shows "p_closed t \<and> \<not> p_pending t \<and> p_holder t = p_holder s"
  using assms
proof (induction rule: proto.trace.induct)
  case (trace_snoc es t e u)
  from trace_snoc.hyps(2) trace_snoc.IH trace_snoc.prems show ?case by cases simp_all
qed simp

lemma closed_releases_older:
  assumes "proto.trace point_of s es t" "p_closed s" "\<not> p_pending s" "ERelease k \<in> set es"
  shows "k + 2 \<le> p_holder s"
proof -
  obtain xs ys where "es = xs @ ERelease k # ys" using assms(4) by (auto dest: split_list)
  with assms(1) obtain u u' where "proto.trace point_of s xs u" "proto_step point_of (ERelease k) u u'"
    using proto.trace_split by metis
  with closed_stays [of point_of s xs u] assms(2,3) show ?thesis by (auto elim: releaseE)
qed

section \<open>The counterparty's side\<close>

text \<open>
  For a commitment that was signed, the state knows its point as long as it is not revoked, and a
  secret of that point once one was revealed for it.
\<close>

definition accounted :: "(Secret \<Rightarrow> PublicKey) \<Rightarrow> Proto \<Rightarrow> nat \<Rightarrow> PublicKey \<Rightarrow> bool" where
  "accounted point_of s n point \<longleftrightarrow>
     n < p_cp s \<and> (p_revoked s \<le> n \<longrightarrow> p_point s n = Some point)
     \<and> (n < length (p_revealed s) \<longrightarrow> point_of (p_revealed s ! n) = point)"

lemma accounted_step:
  "\<lbrakk>proto_step point_of e s t; proto_ok point_of s; accounted point_of s n point\<rbrakk> \<Longrightarrow> accounted point_of t n point"
proof (induction rule: proto_step.induct)
  case (next_counterparty s point')
  then show ?case by (auto simp: accounted_def proto_ok_def p_point_def split: if_splits)
next
  case (reveal s secret)
  then show ?case by (auto simp: accounted_def p_point_def nth_append less_Suc_eq split: if_splits)
qed (auto simp: accounted_def p_point_def split: if_splits)

lemma accounted_observed:
  "\<lbrakk>proto_step point_of (ESignCp n point) s t; proto_ok point_of s\<rbrakk> \<Longrightarrow> accounted point_of t n point"
  by (erule sign_counterpartyE)
    (auto simp: accounted_def p_point_def proto_ok_def less_Suc_eq split: if_splits)

lemma signed_accounted:
  assumes "proto.trace point_of s es t" "proto_ok point_of s" "ESignCp n point \<in> set es"
  shows "accounted point_of t n point"
  using assms
proof (induction rule: proto.trace.induct)
  case (trace_snoc es t e u)
  have "proto_ok point_of t" using trace_snoc.hyps(1) trace_snoc.prems(1) by (rule proto_ok_trace)
  with trace_snoc show ?case by (auto intro: accounted_step accounted_observed)
qed simp

end
