(* ===== verification/ChannelRefinement.thy ===== *)
theory ChannelRefinement
  imports Channel Protocol
begin

text \<open>
  What a channel guarantees over any sequence of requests, with errors and failures of the
  persister included. The requests of \<open>Channel\<close> are the steps of a labelled transition system,
  which refines the machine of \<open>Protocol\<close> for every validator that satisfies \<open>commitment_guard\<close>.
  \<open>ChannelSafety\<close> draws the properties from the machine's.
\<close>

section \<open>Requests\<close>

datatype Request =
    SignCounterparty OutPoint PublicKey u64 u32 u64 u64 "HTLCInfo2 list" "HTLCInfo2 list"
  | SignCounterpartyTx Transaction "u8 list list" PublicKey u64 u32 "HTLCInfo2 list" "HTLCInfo2 list"
  | ValidateHolder OutPoint u64 u32 u64 u64 "HTLCInfo2 list" "HTLCInfo2 list" CommitmentSignatures
  | ValidateHolderTx Transaction "u8 list list" u64 u32 "HTLCInfo2 list" "HTLCInfo2 list" CommitmentSignatures
  | RevokePrevious u64
  | ActivateInitial
  | RevokeCounterparty u64 Secret
  | SignHolder u64
  | MutualClose u64 u64 "Script option" "Script option" DerivationPath
  | MutualCloseTx Transaction "DerivationPath list"
  | LockFunding OutPoint
  | FulfillHtlcs "PaymentPreimage list"

datatype Reply =
    Done
  | Signatures Signature "Signature list"
  | Released PublicKey "Secret option"
  | Point PublicKey

fun map_reply :: "('a \<Rightarrow> 'b) \<Rightarrow> ('a, 'e) result \<Rightarrow> ('b, 'e) result" where
  "map_reply f (Ok x) = Ok (f x)"
| "map_reply f (Err e) = Err e"
| "map_reply f Panic = Panic"

fun serve :: "Env \<Rightarrow> Request \<Rightarrow> ChanWorld \<Rightarrow> (ChanWorld, Reply, Status) outcome" where
  "serve env (SignCounterparty outpoint point n feerate th tc offered received) w =
     map_prod (map_reply (\<lambda>(sig, sigs). Signatures sig sigs)) id
       (sign_counterparty_commitment_tx_phase2 env outpoint point n feerate th tc offered received w)"
| "serve env (SignCounterpartyTx tx ws point n feerate offered received) w =
     map_prod (map_reply (\<lambda>sig. Signatures sig [])) id
       (sign_counterparty_commitment_tx env tx ws point n feerate offered received w)"
| "serve env (ValidateHolder outpoint n feerate th tc offered received sigs) w =
     map_prod (map_reply (\<lambda>_. Done)) id
       (validate_holder_commitment_tx_phase2 env outpoint n feerate th tc offered received sigs w)"
| "serve env (ValidateHolderTx tx ws n feerate offered received sigs) w =
     map_prod (map_reply (\<lambda>_. Done)) id
       (validate_holder_commitment_tx_phase1 env tx ws n feerate offered received sigs w)"
| "serve env (RevokePrevious n) w =
     map_prod (map_reply (\<lambda>(point, secret). Released point secret)) id (revoke_previous_holder_commitment env n w)"
| "serve env ActivateInitial w = map_prod (map_reply Point) id (activate_initial_commitment env w)"
| "serve env (RevokeCounterparty n secret) w =
     map_prod (map_reply (\<lambda>_. Done)) id (validate_revocation env n secret w)"
| "serve env (SignHolder n) w =
     map_prod (map_reply (\<lambda>sig. Signatures sig [])) id (sign_holder_commitment_tx_phase2 env n w)"
| "serve env (MutualClose th tc hs cs path) w =
     map_prod (map_reply (\<lambda>sig. Signatures sig [])) id (sign_mutual_close_tx_phase2 env th tc hs cs path w)"
| "serve env (MutualCloseTx tx opaths) w =
     map_prod (map_reply (\<lambda>sig. Signatures sig [])) id (sign_mutual_close_tx env tx opaths w)"
| "serve env (LockFunding outpoint) w = map_prod (map_reply (\<lambda>_. Done)) id (confirm_funding_locked env outpoint w)"
| "serve env (FulfillHtlcs preimages) w = map_prod (map_reply (\<lambda>_. Done)) id (channel_htlcs_fulfilled env preimages w)"

type_synonym Label = "Env \<times> Request \<times> (Reply, Status) result"

text \<open>
  A step of a channel. The validator and the hash are the same over a run; the persister, the
  chain state, the wallet and the randomness are any. The request to revoke up to the last 64-bit
  number is left out: the guard of the secret it releases wraps around, see \<open>secret_guard_wraps\<close>.
\<close>

definition channel_act :: "Validator \<Rightarrow> Sha256 \<Rightarrow> Label \<Rightarrow> ChanWorld \<Rightarrow> ChanWorld \<Rightarrow> bool" where
  "channel_act v sha = (\<lambda>(env, req, reply) w w'.
     env_validator env = v \<and> env_sha env = sha \<and> serve env req w = (reply, w') \<and> reply \<noteq> Panic
     \<and> req \<noteq> RevokePrevious (- 1))"

definition channel_start :: "ChanWorld \<Rightarrow> bool" where
  "channel_start = (\<lambda>(ch, ns). (\<exists>value. enforcement_state ch = enforcement_new value)
     \<and> prev_setup ch = None \<and> prev_prev_setup ch = None)"

interpretation chan: labelled_system channel_start "channel_act v sha" for v sha .

text \<open>What an observer of the replies learns of the commitments.\<close>

fun observe :: "Request \<Rightarrow> (Reply, Status) result \<Rightarrow> Observation list" where
  "observe (SignCounterparty _ point n _ _ _ _ _) (Ok _) = [ESignCp (unat n) point]"
| "observe (SignCounterpartyTx _ _ point n _ _ _) (Ok _) = [ESignCp (unat n) point]"
| "observe (RevokePrevious n) (Ok (Released _ (Some _))) = [ERelease (unat n - 1)]"
| "observe (SignHolder n) (Ok _) = [ESignHolder (unat n)]"
| "observe _ _ = []"

definition observations :: "Label list \<Rightarrow> Observation list" where
  "observations ls = concat (map (\<lambda>(_, req, reply). observe req reply) ls)"

section \<open>The refinement relation\<close>

text \<open>The secret of an index, when the secrets were revealed in the order of the commitments.\<close>

definition revealed_at :: "Secret list \<Rightarrow> u64 \<Rightarrow> Secret" where
  "revealed_at secrets idx = (if unat idx < 2 ^ 48 then secrets ! (2 ^ 48 - 1 - unat idx) else [])"

definition represents :: "Sha256 \<Rightarrow> ChanWorld \<Rightarrow> Proto \<Rightarrow> bool" where
  "represents sha = (\<lambda>(ch, ns) p.
     let est = enforcement_state ch in
     p_holder p = unat (next_holder_commit_num est)
     \<and> p_pending p = (next_holder_commit_info est \<noteq> None)
     \<and> p_closed p = channel_closed est
     \<and> p_cp p = unat (next_counterparty_commit_num est)
     \<and> p_revoked p = unat (next_counterparty_revoke_num est)
     \<and> p_current p = current_counterparty_point est
     \<and> p_previous p = previous_counterparty_point est
     \<and> (p_holder p = 0 \<longrightarrow> current_holder_commit_info est = None)
     \<and> (\<exists>st. counterparty_secrets est = Some st
          \<and> secrets_inv sha (revealed_at (p_revealed p)) (2 ^ 48 - length (p_revealed p)) st)
     \<and> prev_setup ch = None \<and> prev_prev_setup ch = None \<and> prev_funding_commitment est = None
     \<and> counterparty_commitment_funding est =
         (if p_cp p = 0 then None else Some (funding_outpoint (chan_setup ch))))"

text \<open>The machine can follow a change of the channel, with the given observations.\<close>

definition follows :: "(Secret \<Rightarrow> PublicKey) \<Rightarrow> Sha256 \<Rightarrow> Proto \<Rightarrow> ChanWorld \<Rightarrow> Observation list \<Rightarrow> bool" where
  "follows point_of sha p w' obs \<longleftrightarrow>
     (\<exists>es p'. proto.trace point_of p es p' \<and> represents sha w' p' \<and> filter (\<lambda>e. e \<noteq> Tau) es = obs
        \<and> p_holder p' \<le> p_holder p + 1 \<and> p_cp p' \<le> p_cp p + 1 \<and> p_revoked p' \<le> p_revoked p + 1)"

lemma followsI:
  assumes "proto.trace point_of p es p'" "represents sha w' p'" "filter (\<lambda>e. e \<noteq> Tau) es = obs"
    and "p_holder p' \<le> p_holder p + 1" "p_cp p' \<le> p_cp p + 1" "p_revoked p' \<le> p_revoked p + 1"
  shows "follows point_of sha p w' obs"
  using assms unfolding follows_def by blast

lemma follows_refl: "represents sha w p \<Longrightarrow> follows point_of sha p w []"
  by (rule followsI [OF proto.trace_nil]) simp_all

lemma trace_one: "proto_step point_of e p p' \<Longrightarrow> proto.trace point_of p [e] p'"
  using proto.trace_snoc [OF proto.trace_nil] by simp

lemma trace_two:
  "\<lbrakk>proto_step point_of e p p'; proto_step point_of e' p' p''\<rbrakk> \<Longrightarrow> proto.trace point_of p [e, e'] p''"
  using proto.trace_snoc [OF trace_one] by simp

text \<open>A property of the outcome of a chain of attempts.\<close>

lemma attempt_outcome:
  "\<lbrakk>\<And>e. Q (Err e, s); Q (Panic, s); \<And>x. r = Ok x \<Longrightarrow> Q (k x)\<rbrakk> \<Longrightarrow> Q (attempt r s k)"
  by (cases r) auto

lemma attempt_op_outcome:
  "\<lbrakk>\<And>e s. m = (Err e, s) \<Longrightarrow> Q (Err e, s); \<And>s. m = (Panic, s) \<Longrightarrow> Q (Panic, s);
    \<And>x s. m = (Ok x, s) \<Longrightarrow> Q (k x s)\<rbrakk> \<Longrightarrow> Q (attempt_op m k)"
  by (cases m; cases "fst m") auto

lemma represents_ns: "represents sha (ch, ns) p = represents sha (ch, ns') p"
  by (simp add: represents_def)

text \<open>The machine follows an operation whatever its outcome; only a result has observations.\<close>

definition tracks ::
  "(Secret \<Rightarrow> PublicKey) \<Rightarrow> Sha256 \<Rightarrow> Proto \<Rightarrow> ('a \<Rightarrow> Observation list) \<Rightarrow> (ChanWorld, 'a, Status) outcome \<Rightarrow> bool" where
  "tracks point_of sha p obs out \<longleftrightarrow>
     follows point_of sha p (snd out) (case fst out of Ok x \<Rightarrow> obs x | Err _ \<Rightarrow> [] | Panic \<Rightarrow> [])"

lemma tracks_simps [simp]:
  "tracks point_of sha p obs (Ok x, w) = follows point_of sha p w (obs x)"
  "tracks point_of sha p obs (Err e, w) = follows point_of sha p w []"
  "tracks point_of sha p obs (Panic, w) = follows point_of sha p w []"
  by (simp_all add: tracks_def)

lemma tracks_attempt:
  "\<lbrakk>represents sha w p; \<And>x. r = Ok x \<Longrightarrow> tracks point_of sha p obs (k x)\<rbrakk> \<Longrightarrow>
   tracks point_of sha p obs (attempt r w k)"
  by (cases r) (auto intro: follows_refl)

text \<open>After a write: the rest of the operation only reads the channel.\<close>

lemma tracks_attempt_after:
  "\<lbrakk>follows point_of sha p w []; \<And>x. r = Ok x \<Longrightarrow> tracks point_of sha p obs (k x)\<rbrakk> \<Longrightarrow>
   tracks point_of sha p obs (attempt r w k)"
  by (cases r) auto

lemma tracks_attempt_op:
  "\<lbrakk>tracks point_of sha p obs m; \<And>x w. obs' (f x w) = obs x\<rbrakk> \<Longrightarrow>
   tracks point_of sha p obs' (attempt_op m (\<lambda>x w. (Ok (f x w), w)))"
  by (cases m; cases "fst m") auto

lemma follows_ns: "follows point_of sha p (ch, ns) obs \<Longrightarrow> follows point_of sha p (ch, ns') obs"
  unfolding follows_def using represents_ns by blast

lemma setup_for_outpoint_single:
  "\<lbrakk>represents sha (ch, ns) p; setup_for_outpoint ch out = Ok view\<rbrakk> \<Longrightarrow> view = chan_setup ch"
  by (auto simp: represents_def Let_def setup_for_outpoint_def split: if_splits)

lemma setup_for_tx_single: "represents sha (ch, ns) p \<Longrightarrow> setup_for_tx ch tx = chan_setup ch"
  by (auto simp: represents_def Let_def setup_for_tx_def find_Some_iff split: option.splits if_splits)

lemma to_status_Ok [simp]: "to_status r = Ok x \<longleftrightarrow> r = Ok x"
  by (simp add: to_status_def result_simps)

lemma observe_fail [simp]: "observe req (Err e) = []" "observe req Panic = []"
  by (cases req; simp)+

lemma map_reply_Ok: "map_prod (map_reply f) id m = (Ok y, w) \<longleftrightarrow> (\<exists>x. m = (Ok x, w) \<and> y = f x)"
  by (cases m; cases "fst m") auto

lemma tracks_reply:
  assumes "tracks point_of sha p obs m" "map_prod (map_reply f) id m = (reply, w')"
    and "\<And>x. observe req (Ok (f x)) = obs x"
  shows "follows point_of sha p w' (observe req reply)"
  using assms by (cases m; cases "fst m") auto

lemma small_not_max: "unat a < 2 ^ 48 \<Longrightarrow> a \<noteq> - 1" for a :: u64
proof
  assume "unat a < 2 ^ 48" "a = - 1"
  then have "unat (- 1 :: u64) < 2 ^ 48" by simp
  then show False by (simp add: unsigned_minus_1_eq_mask mask_eq_exp_minus_1)
qed

lemma set_next_counterparty_revoke_num_shape:
  "set_next_counterparty_revoke_num f est num = Ok est' \<Longrightarrow>
   \<exists>info. est' = est\<lparr>previous_counterparty_commit_info := info, next_counterparty_revoke_num := num\<rparr>"
  by (cases "next_counterparty_commit_num est \<le> num + 1")
    (auto simp: set_next_counterparty_revoke_num_def estate_set_next_counterparty_revoke_num_def result_simps Let_def
      intro: exI [of _ "previous_counterparty_commit_info est"])

lemma represents_point:
  assumes "represents sha (ch, ns) p" "unat n < 2 ^ 63"
  shows "get_previous_counterparty_point (enforcement_state ch) n = p_point p (unat n)"
proof -
  have "unat (n + 1) = unat n + 1" "unat (n + 2) = unat n + 2"
    using assms(2) by (simp_all add: unat_add_no_wrap)
  with assms(1) show ?thesis
    by (auto simp: represents_def Let_def get_previous_counterparty_point_def p_point_def word_unat_eq_iff)
qed

lemma revealed_at_snoc:
  assumes "length secrets < 2 ^ 48" "2 ^ 48 - length secrets \<le> unat j"
  shows "revealed_at (secrets @ [s]) j = revealed_at secrets j"
  using assms by (auto simp: revealed_at_def nth_append)

text \<open>The store after a secret was provided, for the two numbers that a revocation may have.\<close>

lemma provide_revealed:
  assumes inv: "secrets_inv sha (revealed_at secrets) (2 ^ 48 - length secrets) st"
    and n: "unat n \<le> length secrets" "unat n < 2 ^ 48" "length secrets \<le> 2 ^ 48"
    and ok: "provide_secret sha st (INITIAL_COMMITMENT_NUMBER - n) secret = Ok st'"
  shows "unat n < length secrets \<and> st' = st \<or>
    unat n = length secrets
    \<and> secrets_inv sha (revealed_at (secrets @ [secret])) (2 ^ 48 - length (secrets @ [secret])) st'"
proof -
  let ?idx = "INITIAL_COMMITMENT_NUMBER - n"
  have "n \<le> INITIAL_COMMITMENT_NUMBER" using n(2) by (simp add: INITIAL_COMMITMENT_NUMBER_def word_le_nat_alt)
  then have idx: "unat ?idx = 2 ^ 48 - 1 - unat n" by (simp add: unat_sub INITIAL_COMMITMENT_NUMBER_def)
  show ?thesis
  proof (cases "unat n < length secrets")
    case True
    then have "st' = st" by (intro provide_secret_seen [OF inv _ _ ok]) (use n idx in linarith)+
    with True show ?thesis by simp
  next
    case False
    then have eq: "unat n = length secrets" using n(1) by simp
    then have m: "2 ^ 48 - length secrets = Suc (unat ?idx)" using n(2) idx by simp
    have "secrets_inv sha (revealed_at (secrets @ [secret])) (2 ^ 48 - length secrets) st"
      using inv by (rule secrets_inv_cong) (use n(2) eq revealed_at_snoc in auto)
    moreover have "revealed_at (secrets @ [secret]) ?idx = secret"
    proof -
      have "unat ?idx < 2 ^ 48" "2 ^ 48 - 1 - unat ?idx = length secrets" using idx n(2) eq by linarith+
      then show ?thesis by (simp add: revealed_at_def)
    qed
    ultimately have "secrets_inv sha (revealed_at (secrets @ [secret])) (unat ?idx) st'"
      unfolding m by (rule provide_secret_inv [OF _ _ ok])
    with idx eq n(2) show ?thesis by simp
  qed
qed

section \<open>Each operation is followed\<close>

definition released_observation :: "u64 \<Rightarrow> PublicKey \<times> Secret option \<Rightarrow> Observation list" where
  "released_observation n r = (case snd r of None \<Rightarrow> [] | Some _ \<Rightarrow> [ERelease (unat n - 1)])"

context commitment_guard
begin

lemma filter_enforces [simp]: "policy_error_with_filter tag (v_filter v) \<noteq> Ok x"
  using filter_strict by (simp add: policy_simps)

lemma filter_enforces_if [simp]: "policy_err_if (v_filter v) b tag = Ok () \<longleftrightarrow> \<not> b"
  using filter_strict by (simp add: policy_simps)

lemma advance_counterparty_follows:
  assumes rep: "represents sha (ch, ns) p" and ok: "proto_ok point_of p" and small: "p_cp p < 2 ^ 48"
    and env: "env_validator env = v"
    and checked: "v_validate_counterparty_commitment_tx v (enforcement_state ch) n point (chan_setup ch) cstate info
      = Ok ()"
  shows "tracks point_of sha p (\<lambda>_. [ESignCp (unat n) point])
    (advance_counterparty_state env (chan_setup ch) n point info inc out delta (ch, ns))"
proof -
  let ?est = "enforcement_state ch" and ?fund = "Some (funding_outpoint (chan_setup ch))"
  let ?c = "next_counterparty_commit_num ?est" and ?r = "next_counterparty_revoke_num ?est"
  have c: "p_cp p = unat ?c" "p_revoked p = unat ?r" using rep by (simp_all add: represents_def Let_def)
  then have bounds: "unat ?c < 2 ^ 48" "unat ?r < 2 ^ 48" using ok small by (auto simp: proto_ok_def)
  have tail: "tracks point_of sha p (\<lambda>_. [ESignCp (unat n) point])
      (attempt (apply_payments ns (id0 ch') inc out delta v (Some info)) (ch', ns) (\<lambda>ns.
       attempt (env_persist env ch') (ch', ns) (\<lambda>_. (Ok (), (ch', ns)))))"
    if "follows point_of sha p (ch', ns) []" "follows point_of sha p (ch', ns) [ESignCp (unat n) point]" for ch'
    using that by (intro tracks_attempt_after) (auto intro: follows_ns)
  have "tracks point_of sha p (\<lambda>_. [ESignCp (unat n) point])
      (attempt (apply_payments ns (id0 ch) inc out delta v (Some info))
        (ch\<lparr>enforcement_state := est'\<lparr>counterparty_commitment_funding := ?fund\<rparr>\<rparr>, ns) (\<lambda>ns.
       attempt (env_persist env (ch\<lparr>enforcement_state := est'\<lparr>counterparty_commitment_funding := ?fund\<rparr>\<rparr>))
        (ch\<lparr>enforcement_state := est'\<lparr>counterparty_commitment_funding := ?fund\<rparr>\<rparr>, ns) (\<lambda>_.
        (Ok (), (ch\<lparr>enforcement_state := est'\<lparr>counterparty_commitment_funding := ?fund\<rparr>\<rparr>, ns)))))"
    (is "tracks _ _ _ _ (attempt _ (?ch, ns) _)")
    if "set_next_counterparty_commit_num (v_filter v) ?est (n + 1) point info fc = Ok est'" for fc est'
  proof -
    have "?c \<noteq> - 1" by (rule small_not_max [OF bounds(1)])
    from set_next_counterparty_commit_num_eq [OF filter_strict this that]
    consider "est' = ?est" "n + 1 = ?c" "?c \<noteq> 0"
      | "n = ?c" "est' = ?est\<lparr>previous_counterparty_point := current_counterparty_point ?est,
            previous_counterparty_commit_info := current_counterparty_commit_info ?est,
            current_counterparty_point := Some point, current_counterparty_commit_info := Some info,
            next_counterparty_commit_num := ?c + 1\<rparr>"
      by auto
    then show ?thesis
    proof cases
      case 1
      then have fund: "counterparty_commitment_funding ?est = ?fund"
        using rep by (simp add: represents_def Let_def unat_eq_zero)
      then have same: "?ch = ch" using 1 by simp
      have "current_counterparty_point ?est = Some point"
        by (rule counterparty_retry_same [OF checked 1(2) fund])
      moreover have "p_cp p = unat n + 1" using c 1(2,3) unat_plus_1 [of n] by (cases "n = - 1") auto
      ultimately have step: "proto_step point_of (ESignCp (unat n) point) p p"
        using rep by (intro proto_step.sign_counterparty) (simp_all add: represents_def Let_def)
      have "follows point_of sha p (ch, ns) [ESignCp (unat n) point]"
        by (rule followsI [OF trace_one [OF step] rep]) simp_all
      with tail [of ch] rep show ?thesis unfolding same by (simp add: follows_refl)
    next
      case 2
      let ?p = "p\<lparr>p_previous := p_current p, p_current := Some point, p_cp := p_cp p + 1\<rparr>"
      have "n \<le> ?r + 1" by (rule counterparty_in_order [OF checked])
      moreover have "unat (?r + 1) = unat ?r + 1" using bounds by (intro unat_Suc_no_wrap) simp
      ultimately have "p_cp p \<le> p_revoked p + 1" using c 2(1) by (simp add: word_le_nat_alt)
      then have step: "proto_step point_of Tau p ?p" by (rule proto_step.next_counterparty)
      have "unat (?c + 1) = unat ?c + 1" using bounds by (intro unat_Suc_no_wrap) simp
      then have rep': "represents sha (?ch, ns) ?p" using rep 2 by (simp add: represents_def Let_def)
      have "proto_step point_of (ESignCp (unat n) point) ?p ?p"
        using c 2(1) by (intro proto_step.sign_counterparty) simp_all
      from trace_two [OF step this] have "follows point_of sha p (?ch, ns) [ESignCp (unat n) point]"
        by (rule followsI [OF _ rep']) simp_all
      moreover have "follows point_of sha p (?ch, ns) []"
        by (intro followsI [OF trace_one [OF step] rep']) simp_all
      ultimately show ?thesis using tail [of ?ch] by simp
    qed
  qed
  then show ?thesis
    unfolding advance_counterparty_state_def Let_def split_conv env
    by (intro tracks_attempt [OF rep]) simp
qed

lemma sign_counterparty_phase2_follows:
  assumes "represents sha (ch, ns) p" "proto_ok point_of p" "p_cp p < 2 ^ 48" "env_validator env = v"
  shows "tracks point_of sha p (\<lambda>_. [ESignCp (unat n) point])
    (sign_counterparty_commitment_tx_phase2 env outpoint point n feerate th tc offered received (ch, ns))"
  unfolding sign_counterparty_commitment_tx_phase2_def Let_def split_conv assms(4)
  using setup_for_outpoint_single [OF assms(1), of outpoint]
  by (intro tracks_attempt [OF assms(1)] tracks_attempt_op [where obs = "\<lambda>_. [ESignCp (unat n) point]"])
    (auto intro: advance_counterparty_follows [OF assms])

lemma sign_counterparty_phase1_follows:
  assumes "represents sha (ch, ns) p" "proto_ok point_of p" "p_cp p < 2 ^ 48" "env_validator env = v"
  shows "tracks point_of sha p (\<lambda>_. [ESignCp (unat n) point])
    (sign_counterparty_commitment_tx env tx ws point n feerate offered received (ch, ns))"
  unfolding sign_counterparty_commitment_tx_def Let_def split_conv assms(4) setup_for_tx_single [OF assms(1)]
    if_distrib [of "tracks _ _ _ _"]
  by (intro tracks_attempt [OF assms(1)])
    (auto intro!: tracks_attempt [OF assms(1)] tracks_attempt_op [where obs = "\<lambda>_. [ESignCp (unat n) point]"]
      advance_counterparty_follows [OF assms]
      simp: make_counterparty_commitment_tx_with_setup_def)

lemma store_holder_follows:
  assumes rep: "represents sha (ch, ns) p" and env: "env_validator env = v"
    and checked: "v_validate_holder_commitment_tx v (enforcement_state ch) n view cstate info = Ok ()"
  shows "tracks point_of sha p (\<lambda>_. []) (store_holder_commitment env view' straggler n info' sigs (ch, ns))"
proof -
  let ?est = "enforcement_state ch"
  let ?est' = "?est\<lparr>next_holder_commit_info := Some (info', sigs),
      holder_commitment_funding := Some (funding_outpoint view')\<rparr>"
  have "prev_funding_commitment ?est = None" using rep by (simp add: represents_def Let_def)
  moreover have "follows point_of sha p (ch\<lparr>enforcement_state := ?est'\<rparr>, ns) []" if "n = next_holder_commit_num ?est"
  proof (rule followsI [OF trace_one])
    have "\<not> p_closed p"
      using holder_open [OF checked that] rep by (simp add: represents_def Let_def)
    then show "proto_step point_of Tau p (p\<lparr>p_pending := True\<rparr>)" by (rule proto_step.accept_holder)
    show "represents sha (ch\<lparr>enforcement_state := ?est'\<rparr>, ns) (p\<lparr>p_pending := True\<rparr>)"
      using rep by (simp add: represents_def Let_def)
  qed simp_all
  ultimately show ?thesis
    using follows_refl [OF rep]
    by (cases "n = next_holder_commit_num ?est") (simp_all add: store_holder_commitment_def Let_def tracks_attempt_after)
qed

lemma validate_holder_phase2_follows:
  assumes "represents sha (ch, ns) p" "env_validator env = v"
  shows "tracks point_of sha p (\<lambda>_. [])
    (validate_holder_commitment_tx_phase2 env outpoint n feerate th tc offered received sigs (ch, ns))"
  unfolding validate_holder_commitment_tx_phase2_def Let_def split_conv assms(2)
  by (intro tracks_attempt [OF assms(1)]) (auto intro: store_holder_follows [OF assms])

lemma validate_holder_phase1_follows:
  assumes "represents sha (ch, ns) p" "env_validator env = v"
  shows "tracks point_of sha p (\<lambda>_. [])
    (validate_holder_commitment_tx_phase1 env tx ws n feerate offered received sigs (ch, ns))"
proof -
  have checked: "\<exists>info. v_validate_holder_commitment_tx v (enforcement_state ch) n (setup_for_tx ch tx)
      (get_chain_state env ch) info = Ok ()"
    if "make_validated_recomposed_holder_commitment_tx env ch tx ws n point feerate offered received = Ok r"
    for point r
    using that assms(2)
    by (auto simp: make_validated_recomposed_holder_commitment_tx_def Let_def result_simps)
  show ?thesis
    unfolding validate_holder_commitment_tx_phase1_def Let_def split_conv assms(2)
    by (intro tracks_attempt [OF assms(1)])
      (auto split: prod.splits intro!: tracks_attempt [OF assms(1)] dest!: checked
        intro: store_holder_follows [OF assms])
qed

lemma release_observed:
  assumes "represents sha (ch, ns) p" "env_validator env = v" "n \<noteq> - 1"
    and "release_commitment_secret env ch n = Ok (point, Some secret)"
  shows "proto_step point_of (ERelease (unat n - 1)) p p"
proof -
  have n: "1 \<le> n" "\<not> next_holder_commit_num (enforcement_state ch) < n + 1"
    using assms(2,4) by (auto simp: release_commitment_secret_def get_per_commitment_secret_def Let_def result_simps
        add.commute [of 1 n] split: if_splits)
  then have "unat n + 1 \<le> p_holder p"
    using assms(1) unat_plus_1 [OF assms(3)] by (simp add: represents_def Let_def word_less_nat_alt)
  moreover have "1 \<le> unat n" using n(1) by (simp add: word_le_nat_alt)
  ultimately show ?thesis by (intro proto_step.release) simp
qed

lemma release_follows:
  assumes "proto.trace point_of p es p'" "represents sha (ch, ns) p'" "filter (\<lambda>e. e \<noteq> Tau) es = []"
    and "p_holder p' \<le> p_holder p + 1" "p_cp p' \<le> p_cp p + 1" "p_revoked p' \<le> p_revoked p + 1"
    and "env_validator env = v" "n \<noteq> - 1" "release_commitment_secret env ch n = Ok r"
  shows "follows point_of sha p (ch, ns) (released_observation n r)"
proof (cases "snd r")
  case None
  then show ?thesis
    using assms(3) by (intro followsI [OF assms(1,2) _ assms(4-6)]) (simp add: released_observation_def)
next
  case (Some secret)
  then have "release_commitment_secret env ch n = Ok (fst r, Some secret)" using assms(9) by (cases r) simp
  from release_observed [OF assms(2,7,8) this]
  have "proto.trace point_of p (es @ [ERelease (unat n - 1)]) p'" by (rule proto.trace_snoc [OF assms(1)])
  moreover have "filter (\<lambda>e. e \<noteq> Tau) (es @ [ERelease (unat n - 1)]) = released_observation n r"
    unfolding filter_append assms(3) by (simp add: released_observation_def Some)
  ultimately show ?thesis by (rule followsI [OF _ assms(2) _ assms(4-6)])
qed

lemma revoke_previous_follows:
  assumes rep: "represents sha (ch, ns) p" and env: "env_validator env = v" and n: "n \<noteq> - 1"
    and small: "p_holder p < 2 ^ 48"
  shows "tracks point_of sha p (released_observation n) (revoke_previous_holder_commitment env n (ch, ns))"
proof -
  let ?est = "enforcement_state ch"
  consider "n \<noteq> next_holder_commit_num ?est" | "n = next_holder_commit_num ?est" "next_holder_commit_info ?est = None"
    | info sigs where "n = next_holder_commit_num ?est" "next_holder_commit_info ?est = Some (info, sigs)"
    by (metis option.exhaust surj_pair)
  then show ?thesis
  proof cases
    case 1
    then show ?thesis
      unfolding revoke_previous_holder_commitment_def
      by (auto simp: Let_def intro!: tracks_attempt [OF rep] release_follows [OF proto.trace_nil rep _ _ _ _ env n])
  next
    case 2
    then show ?thesis
      unfolding revoke_previous_holder_commitment_def env by (auto simp: Let_def intro!: tracks_attempt [OF rep])
  next
    case (3 info sigs)
    let ?ch = "ch\<lparr>enforcement_state := ?est\<lparr>next_holder_commit_info := None\<rparr>\<rparr>"
    let ?est' = "?est\<lparr>next_holder_commit_info := None, next_holder_commit_num := n + 1,
        current_holder_commit_info := Some info, current_counterparty_signatures := Some sigs\<rparr>"
    let ?ch' = "ch\<lparr>enforcement_state := ?est'\<rparr>"
    let ?p = "p\<lparr>p_pending := False\<rparr>" and ?p' = "p\<lparr>p_pending := False, p_holder := p_holder p + 1\<rparr>"
    have "represents sha (?ch, ns) ?p" using rep by (simp add: represents_def Let_def)
    then have dropped: "follows point_of sha p (?ch, ns) []"
      by (rule followsI [OF trace_one [OF proto_step.drop_holder]]) simp_all
    have "proto_step point_of Tau p ?p'"
      using rep 3(2) by (intro proto_step.advance_holder) (simp add: represents_def Let_def)
    note advance = trace_one [OF this]
    have "unat (n + 1) = p_holder p + 1" using rep 3(1) unat_plus_1 [OF n] by (simp add: represents_def Let_def)
    then have rep': "represents sha (?ch', ns') ?p'" for ns' using rep by (simp add: represents_def Let_def)
    have advanced: "follows point_of sha p (?ch', ns') []" for ns'
      by (rule followsI [OF advance rep']) simp_all
    have set: "set_next_holder_commit_num (v_filter v) (?est\<lparr>next_holder_commit_info := None\<rparr>) (n + 1) info sigs
        = Ok ?est'"
      using 3(1) by (simp add: set_next_holder_commit_num_def estate_set_next_holder_commit_num_def Let_def
          policy_err_if_def assert_that_def)
    have released: "follows point_of sha p (?ch', ns') (released_observation n r)"
      if "release_commitment_secret env ?ch' n = Ok r" for ns' r
      by (rule release_follows [OF advance rep' _ _ _ _ env n that]) simp_all
    have "attempt_op (advance_holder_commitment_state env n info sigs (?ch, ns)) k
        = attempt (release_commitment_secret env ?ch' n) (?ch', ns) (\<lambda>r. k r (?ch', ns))"
      for k :: "PublicKey \<times> Secret option \<Rightarrow> ChanWorld \<Rightarrow> (ChanWorld, PublicKey \<times> Secret option, Status) outcome"
      using set env by (cases "release_commitment_secret env ?ch' n")
        (simp_all add: advance_holder_commitment_state_def Let_def to_status_def)
    then show ?thesis
      by (auto simp: revoke_previous_holder_commitment_def Let_def 3(2) simp flip: 3(1)
          intro!: tracks_attempt_after dropped advanced released)
  qed
qed

lemma activate_follows:
  assumes rep: "represents sha (ch, ns) p"
  shows "tracks point_of sha p (\<lambda>_. []) (activate_initial_commitment env (ch, ns))"
proof -
  let ?est = "enforcement_state ch"
  have prev: "prev_funding_commitment ?est = None" using rep by (simp add: represents_def Let_def)
  show ?thesis
  proof (cases "next_holder_commit_num ?est = 0 \<and> next_holder_commit_info ?est \<noteq> None")
    case True
    then obtain info sigs where pending: "next_holder_commit_info ?est = Some (info, sigs)" by auto
    let ?est' = "?est\<lparr>next_holder_commit_info := None, next_holder_commit_num := 1,
        current_holder_commit_info := Some info, current_counterparty_signatures := Some sigs\<rparr>"
    let ?p' = "p\<lparr>p_pending := False, p_holder := p_holder p + 1\<rparr>"
    have rep': "represents sha (ch\<lparr>enforcement_state := ?est'\<rparr>, ns) ?p'"
      using rep True by (simp add: represents_def Let_def)
    have "proto_step point_of Tau p ?p'"
      using rep pending by (intro proto_step.advance_holder) (simp add: represents_def Let_def)
    from followsI [OF trace_one [OF this] rep'] have "follows point_of sha p (ch\<lparr>enforcement_state := ?est'\<rparr>, ns) []"
      by simp
    then show ?thesis
      using True pending
      by (auto simp: activate_initial_commitment_def estate_set_next_holder_commit_num_def err_if_def assert_that_def Let_def
          intro!: tracks_attempt_after)
  next
    case False
    have "1 < next_holder_commit_num ?est"
      if "next_holder_commit_num ?est \<noteq> 0" "next_holder_commit_num ?est \<noteq> 1"
      using that inc_le [of 0 "next_holder_commit_num ?est"] by (simp add: word_gt_0 order.strict_iff_order)
    with False follows_refl [OF rep] show ?thesis
      by (cases "next_holder_commit_info ?est")
        (auto simp: activate_initial_commitment_def prev Let_def err_if_def)
  qed
qed

lemma mark_closed_follows:
  assumes "represents sha (ch, ns) p"
    and "\<And>p'. p' = p\<lparr>p_closed := True\<rparr> \<Longrightarrow> proto.trace point_of p' es p'" "filter (\<lambda>e. e \<noteq> Tau) es = es"
  shows "tracks point_of sha p (\<lambda>_. es) (mark_closed env sig (ch, ns))"
proof -
  let ?ch = "ch\<lparr>enforcement_state := (enforcement_state ch)\<lparr>channel_closed := True\<rparr>\<rparr>" and ?p = "p\<lparr>p_closed := True\<rparr>"
  have rep: "represents sha (?ch, ns) ?p" using assms(1) by (simp add: represents_def Let_def)
  note close = trace_one [OF proto_step.close [of point_of p]]
  have "follows point_of sha p (?ch, ns) []" by (rule followsI [OF close rep]) simp_all
  moreover have "follows point_of sha p (?ch, ns) es"
    by (rule followsI [OF proto.trace_append [OF close assms(2) [OF refl]] rep]) (simp_all add: assms(3))
  ultimately show ?thesis by (auto simp: mark_closed_def Let_def intro: tracks_attempt_after)
qed

lemma close_selection:
  assumes "represents sha (ch, ns) p" "env_validator env = v"
    and "get_holder_commitment_for_close env ch n = Ok hc"
  shows "close_commitment_number hc = n" and "p_holder p = unat n + 1 \<or> p_pending p \<and> p_holder p = unat n"
proof -
  let ?est = "enforcement_state ch"
  from assms(2,3) show "close_commitment_number hc = n"
    by (auto simp: get_holder_commitment_for_close_def Let_def result_simps split: if_splits option.splits prod.splits)
  show "p_holder p = unat n + 1 \<or> p_pending p \<and> p_holder p = unat n"
  proof (cases "n = next_holder_commit_num ?est \<and> next_holder_commit_info ?est \<noteq> None")
    case True
    with assms(1) show ?thesis by (simp add: represents_def Let_def)
  next
    case False
    then have "get_current_holder_commitment_info (v_filter v) ?est n = Ok (close_info hc)"
      using assms(3) unfolding get_holder_commitment_for_close_def assms(2)
      by (auto simp: Let_def result_simps split: if_splits option.splits)
    then have n: "n + 1 = next_holder_commit_num ?est" "current_holder_commit_info ?est \<noteq> None"
      by (auto simp: get_current_holder_commitment_info_def result_simps)
    then have "next_holder_commit_num ?est \<noteq> 0" using assms(1) by (auto simp: represents_def Let_def)
    with n(1) have "n \<noteq> - 1" by auto
    then have "unat (n + 1) = unat n + 1" by (rule unat_plus_1)
    with n(1) assms(1) show ?thesis by (simp add: represents_def Let_def)
  qed
qed

lemma sign_holder_follows:
  assumes rep: "represents sha (ch, ns) p" and env: "env_validator env = v"
  shows "tracks point_of sha p (\<lambda>_. [ESignHolder (unat n)]) (sign_holder_commitment_tx_phase2 env n (ch, ns))"
proof -
  have closed: "tracks point_of sha p (\<lambda>_. [ESignHolder (unat n)]) (mark_closed env sig (ch, ns))"
    if "get_holder_commitment_for_close env ch n = Ok hc" for hc sig
    using close_selection(2) [OF rep env that]
    by (intro mark_closed_follows [OF rep] trace_one proto_step.sign_holder) auto
  show ?thesis
    unfolding sign_holder_commitment_tx_phase2_def split_conv
    by (intro tracks_attempt [OF rep]) (auto split: prod.splits intro!: tracks_attempt [OF rep] intro: closed)
qed

lemma mutual_close_follows:
  assumes "represents sha (ch, ns) p"
  shows "tracks point_of sha p (\<lambda>_. []) (sign_mutual_close_tx_phase2 env th tc hs cs path (ch, ns))"
    and "tracks point_of sha p (\<lambda>_. []) (sign_mutual_close_tx env tx opaths (ch, ns))"
  unfolding sign_mutual_close_tx_phase2_def sign_mutual_close_tx_def Let_def split_conv
  by (intro tracks_attempt [OF assms] mark_closed_follows [OF assms] proto.trace_nil; simp)+

lemma lock_follows:
  assumes rep: "represents sha (ch, ns) p"
  shows "tracks point_of sha p (\<lambda>_. []) (confirm_funding_locked env outpoint (ch, ns))"
proof -
  have "represents sha (ch\<lparr>funding_locked := Some outpoint, prev_setup := None, prev_prev_setup := None,
      enforcement_state := retire_prev_funding (enforcement_state ch)\<rparr>, ns) p"
    using rep by (simp add: represents_def retire_prev_funding_def Let_def)
  moreover have "prev_setup ch = None" "prev_prev_setup ch = None" using rep by (simp_all add: represents_def Let_def)
  ultimately show ?thesis
    using follows_refl [OF rep]
    by (auto simp: confirm_funding_locked_def Let_def intro!: tracks_attempt follows_refl split: prod.splits)
qed

lemma fulfill_follows:
  assumes "represents sha (ch, ns) p"
  shows "tracks point_of sha p (\<lambda>_. []) (channel_htlcs_fulfilled env preimages (ch, ns))"
  using assms follows_ns [OF follows_refl [OF assms]]
  by (auto simp: channel_htlcs_fulfilled_def intro!: tracks_attempt)

lemma reveal_follows:
  assumes rep: "represents sha (ch, ns) p" and ok: "proto_ok point_of p" and small: "p_revoked p < 2 ^ 48 - 1"
    and n: "unat n = p_revoked p \<or> unat n + 1 = p_revoked p"
    and point: "p_point p (unat n) = Some (point_of secret)"
    and st: "counterparty_secrets (enforcement_state ch) = Some st"
    and provided: "provide_secret sha st (INITIAL_COMMITMENT_NUMBER - n) secret = Ok st'"
  obtains secrets where "proto.trace point_of p [] (p\<lparr>p_revealed := secrets\<rparr>)
      \<or> proto.trace point_of p [Tau] (p\<lparr>p_revealed := secrets\<rparr>)"
    and "unat n < length secrets"
    and "represents sha (ch\<lparr>enforcement_state := (enforcement_state ch)\<lparr>counterparty_secrets := Some st'\<rparr>\<rparr>, ns)
      (p\<lparr>p_revealed := secrets\<rparr>)"
proof -
  let ?ch = "ch\<lparr>enforcement_state := (enforcement_state ch)\<lparr>counterparty_secrets := Some st'\<rparr>\<rparr>"
  let ?secrets = "p_revealed p"
  have inv: "secrets_inv sha (revealed_at ?secrets) (2 ^ 48 - length ?secrets) st"
    using rep st by (simp add: represents_def Let_def)
  have len: "p_revoked p \<le> length ?secrets" "length ?secrets \<le> p_revoked p + 1"
    using ok by (simp_all add: proto_ok_def)
  then have "unat n \<le> length ?secrets" "unat n < 2 ^ 48" "length ?secrets \<le> 2 ^ 48" using n small by auto
  from provide_revealed [OF inv this provided] show thesis
  proof
    assume "unat n < length ?secrets \<and> st' = st"
    then show thesis using that [of ?secrets] proto.trace_nil rep st by (simp add: represents_def Let_def)
  next
    assume new: "unat n = length ?secrets
      \<and> secrets_inv sha (revealed_at (?secrets @ [secret])) (2 ^ 48 - length (?secrets @ [secret])) st'"
    then have "p_revoked p = unat n" using n len by auto
    with new point have "proto_step point_of Tau p (p\<lparr>p_revealed := ?secrets @ [secret]\<rparr>)"
      by (intro proto_step.reveal) simp_all
    then show thesis
      using that [of "?secrets @ [secret]"] trace_one new rep by (simp add: represents_def Let_def)
  qed
qed

lemma revocation_follows:
  assumes rep: "represents sha (ch, ns) p" and ok: "proto_ok point_of p" and small: "p_cp p < 2 ^ 48"
    and env: "env_validator env = v" "env_sha env = sha"
  shows "tracks point_of sha p (\<lambda>_. []) (validate_revocation env n secret (ch, ns))"
proof -
  let ?est = "enforcement_state ch"
  obtain st where st: "counterparty_secrets ?est = Some st" using rep by (auto simp: represents_def Let_def)
  have r: "p_revoked p = unat (next_counterparty_revoke_num ?est)" "p_cp p = unat (next_counterparty_commit_num ?est)"
    using rep by (simp_all add: represents_def Let_def)
  have bound: "p_revoked p < 2 ^ 48 - 1" using ok small by (auto simp: proto_ok_def)
  show ?thesis
  proof (cases "v_validate_counterparty_revocation v ?est n secret = Ok ()
      \<and> (\<exists>st'. provide_secret sha st (INITIAL_COMMITMENT_NUMBER - n) secret = Ok st')")
    case False
    then show ?thesis
      unfolding validate_revocation_def env
      by (cases "provide_secret sha st (INITIAL_COMMITMENT_NUMBER - n) secret")
        (auto simp: Let_def st result_simps intro!: tracks_attempt [OF rep] follows_refl [OF rep])
  next
    case True
    then obtain st' where checked: "v_validate_counterparty_revocation v ?est n secret = Ok ()"
      and provided: "provide_secret sha st (INITIAL_COMMITMENT_NUMBER - n) secret = Ok st'" by blast
    from revocation_proves_point [OF checked]
    have num: "n = next_counterparty_revoke_num ?est \<or> n + 1 = next_counterparty_revoke_num ?est"
      and known: "get_previous_counterparty_point ?est n = Some (point_of secret)" by auto
    have n: "unat n = p_revoked p \<or> unat n + 1 = p_revoked p"
    proof (cases "n = - 1")
      case True
      have "(if next_counterparty_commit_num ?est = 0 then p_current p
          else if next_counterparty_commit_num ?est = 1 then p_previous p else None) = Some (point_of secret)"
        using known True rep by (simp add: get_previous_counterparty_point_def represents_def Let_def split: if_splits)
      then show ?thesis using ok r(2) by (auto simp: proto_ok_def split: if_splits)
    qed (use num r unat_plus_1 [of n] in auto)
    then have n_small: "unat n < 2 ^ 63" using bound by auto
    note point = known [unfolded represents_point [OF rep n_small]]
    show ?thesis
    proof (rule reveal_follows [OF rep ok bound n point st provided])
      fix secrets
      let ?p = "p\<lparr>p_revealed := secrets\<rparr>" and ?est' = "?est\<lparr>counterparty_secrets := Some st'\<rparr>"
      assume trace: "proto.trace point_of p [] ?p \<or> proto.trace point_of p [Tau] ?p"
        and len: "unat n < length secrets" and rep': "represents sha (ch\<lparr>enforcement_state := ?est'\<rparr>, ns) ?p"
      then obtain es where es: "proto.trace point_of p es ?p" "filter (\<lambda>e. e \<noteq> Tau) es = []" by auto
      have stored: "follows point_of sha p (ch\<lparr>enforcement_state := ?est'\<rparr>, ns) []"
        by (rule followsI [OF es(1) rep' es(2)]) simp_all
      have revoked: "follows point_of sha p (ch\<lparr>enforcement_state := est''\<rparr>, ns) []"
        if set: "set_next_counterparty_revoke_num (v_filter v) ?est' (n + 1) = Ok est''" for est''
      proof -
        obtain info where est'': "est'' = ?est'\<lparr>previous_counterparty_commit_info := info,
            next_counterparty_revoke_num := n + 1\<rparr>"
          using set_next_counterparty_revoke_num_shape [OF set] by blast
        have wrap: "unat (n + 1) = unat n + 1" "unat (n + 1 + 1) = unat n + 2"
          using n_small by (simp_all add: unat_add_no_wrap)
        show ?thesis
        proof (cases "unat n + 1 = p_revoked p")
          case True
          then have "represents sha (ch\<lparr>enforcement_state := est''\<rparr>, ns) ?p"
            using rep' wrap(1) by (simp add: est'' represents_def Let_def)
          from followsI [OF es(1) this es(2)] show ?thesis by simp
        next
          case False
          then have revoked: "unat n = p_revoked p" using n by simp
          have "unat n + 2 \<le> p_cp p"
            using set_next_counterparty_revoke_num_eq [OF filter_strict set] wrap r(2)
            by (simp add: word_less_nat_alt)
          with len revoked have "proto_step point_of Tau ?p (?p\<lparr>p_revoked := p_revoked ?p + 1\<rparr>)"
            by (intro proto_step.revoke) simp_all
          note trace = proto.trace_snoc [OF es(1) this]
          have "represents sha (ch\<lparr>enforcement_state := est''\<rparr>, ns) (?p\<lparr>p_revoked := p_revoked ?p + 1\<rparr>)"
            using rep' wrap(1) revoked by (simp add: est'' represents_def Let_def)
          from followsI [OF trace this] show ?thesis using es(2) by simp
        qed
      qed
      show ?thesis
        using checked provided
        unfolding validate_revocation_def env
        by (auto simp: Let_def st intro!: tracks_attempt [OF rep] tracks_attempt_after stored revoked)
    qed
  qed
qed

text \<open>The machine follows every request.\<close>

lemma serve_follows:
  assumes "represents sha (ch, ns) p" "proto_ok point_of p" "p_cp p < 2 ^ 48" "p_holder p < 2 ^ 48"
    and act: "channel_act v sha (env, req, reply) (ch, ns) w'"
  shows "follows point_of sha p w' (observe req reply)"
proof -
  from act have env: "env_validator env = v" "env_sha env = sha" and out: "serve env req (ch, ns) = (reply, w')"
    and req: "req \<noteq> RevokePrevious (- 1)"
    by (simp_all add: channel_act_def)
  show ?thesis
  proof (cases req)
    case SignCounterparty
    then show ?thesis
      using out by (intro tracks_reply [OF sign_counterparty_phase2_follows [OF assms(1-3) env(1)]]) (auto split: prod.split)
  next
    case SignCounterpartyTx
    then show ?thesis
      using out by (intro tracks_reply [OF sign_counterparty_phase1_follows [OF assms(1-3) env(1)]]) auto
  next
    case ValidateHolder
    then show ?thesis
      using out by (intro tracks_reply [OF validate_holder_phase2_follows [OF assms(1) env(1)]]) auto
  next
    case ValidateHolderTx
    then show ?thesis
      using out by (intro tracks_reply [OF validate_holder_phase1_follows [OF assms(1) env(1)]]) auto
  next
    case (RevokePrevious n)
    then show ?thesis
      using out req by (intro tracks_reply [OF revoke_previous_follows [OF assms(1) env(1) _ assms(4)]])
        (auto simp: released_observation_def split: option.split)
  next
    case ActivateInitial
    then show ?thesis using out by (intro tracks_reply [OF activate_follows [OF assms(1)]]) auto
  next
    case RevokeCounterparty
    then show ?thesis using out by (intro tracks_reply [OF revocation_follows [OF assms(1-3) env]]) auto
  next
    case SignHolder
    then show ?thesis using out by (intro tracks_reply [OF sign_holder_follows [OF assms(1) env(1)]]) auto
  next
    case MutualClose
    then show ?thesis using out by (intro tracks_reply [OF mutual_close_follows(1) [OF assms(1)]]) auto
  next
    case MutualCloseTx
    then show ?thesis using out by (intro tracks_reply [OF mutual_close_follows(2) [OF assms(1)]]) auto
  next
    case LockFunding
    then show ?thesis using out by (intro tracks_reply [OF lock_follows [OF assms(1)]]) auto
  next
    case FulfillHtlcs
    then show ?thesis using out by (intro tracks_reply [OF fulfill_follows [OF assms(1)]]) auto
  qed
qed

lemma channel_refines:
  assumes "chan.trace v sha w ls w'" "represents sha w p" "proto_ok point_of p"
    and "p_holder p + length ls < 2 ^ 48" "p_cp p + length ls < 2 ^ 48"
  shows "\<exists>es p'. proto.trace point_of p es p' \<and> represents sha w' p' \<and> filter (\<lambda>e. e \<noteq> Tau) es = observations ls
    \<and> p_holder p' \<le> p_holder p + length ls \<and> p_cp p' \<le> p_cp p + length ls"
  using assms
proof (induction rule: chan.trace.induct)
  case trace_nil
  then show ?case by (intro exI [of _ "[]"] exI [of _ p]) (simp add: proto.trace_nil observations_def)
next
  case (trace_snoc ls t l u)
  then obtain es q where q: "proto.trace point_of p es q" "represents sha t q" "filter (\<lambda>e. e \<noteq> Tau) es = observations ls"
    "p_holder q \<le> p_holder p + length ls" "p_cp q \<le> p_cp p + length ls" by auto
  obtain env req reply where l: "l = (env, req, reply)" by (cases l)
  obtain ch ns where t: "t = (ch, ns)" by force
  have "proto_ok point_of q" using q(1) trace_snoc.prems(2) by (rule proto_ok_trace)
  then have "follows point_of sha q u (observe req reply)"
    using q trace_snoc.hyps(2) trace_snoc.prems(3,4) unfolding l t by (intro serve_follows) auto
  then obtain es' q' where q': "proto.trace point_of q es' q'" "represents sha u q'"
    "filter (\<lambda>e. e \<noteq> Tau) es' = observe req reply" "p_holder q' \<le> p_holder q + 1" "p_cp q' \<le> p_cp q + 1"
    unfolding follows_def by blast
  with q proto.trace_append [OF q(1) q'(1)] show ?case
    by (intro exI [of _ "es @ es'"] exI [of _ q']) (auto simp: observations_def l)
qed

lemma closed_run_releases_older:
  assumes rep: "represents sha (ch, ns) p" and ok: "proto_ok point_of p"
    and pending: "next_holder_commit_info (enforcement_state ch) = None"
    and act: "channel_act v sha (env, SignHolder m, Ok reply) (ch, ns) u"
    and run: "chan.trace v sha u ls w'" and bounds: "p_holder p + length ls < 2 ^ 48" "p_cp p + length ls < 2 ^ 48"
    and released: "(env', RevokePrevious n, Ok (Released point (Some secret))) \<in> set ls"
  shows "n \<le> m"
proof -
  let ?ch = "ch\<lparr>enforcement_state := (enforcement_state ch)\<lparr>channel_closed := True\<rparr>\<rparr>" and ?p = "p\<lparr>p_closed := True\<rparr>"
  from act have env: "env_validator env = v" and signed: "\<exists>sig. sign_holder_commitment_tx_phase2 env m (ch, ns) = (Ok sig, u)"
    by (auto simp: channel_act_def map_reply_Ok)
  then have u: "u = (?ch, ns)" and "\<exists>hc. get_holder_commitment_for_close env ch m = Ok hc"
    by (auto simp: sign_holder_commitment_tx_phase2_def mark_closed_def Let_def attempt_Ok_iff split_beta)
  then have m: "p_holder p = unat m + 1"
    using close_selection(2) [OF rep env] rep pending by (auto simp: represents_def Let_def)
  have rep': "represents sha u ?p" using rep by (simp add: u represents_def Let_def)
  have ok': "proto_ok point_of ?p" by (rule proto_ok_step [OF proto_step.close ok])
  obtain es p' where es: "proto.trace point_of ?p es p'" "filter (\<lambda>e. e \<noteq> Tau) es = observations ls"
    using channel_refines [OF run rep' ok'] bounds by auto
  have "ERelease (unat n - 1) \<in> set (observations ls)" using released by (force simp: observations_def)
  then have "ERelease (unat n - 1) \<in> set es" unfolding es(2) [symmetric] by simp
  from closed_releases_older [OF es(1) _ _ this] rep pending have "unat n - 1 + 2 \<le> p_holder p"
    by (simp add: represents_def Let_def)
  with m show ?thesis by (simp add: word_le_nat_alt)
qed

lemma signed_counterparty_punishable:
  assumes "represents sha (ch, ns) p" "proto_ok point_of p" "accounted point_of p (unat k) point"
    and "k < next_counterparty_revoke_num (enforcement_state ch)" "p_revoked p < 2 ^ 48"
  shows "\<exists>st secret. counterparty_secrets (enforcement_state ch) = Some st
    \<and> get_secret sha st (INITIAL_COMMITMENT_NUMBER - k) = (Ok (Some secret) :: (_, 'e) result) \<and> point_of secret = point"
proof -
  let ?secrets = "p_revealed p" and ?idx = "INITIAL_COMMITMENT_NUMBER - k"
  obtain st where st: "counterparty_secrets (enforcement_state ch) = Some st"
    "secrets_inv sha (revealed_at ?secrets) (2 ^ 48 - length ?secrets) st"
    using assms(1) by (auto simp: represents_def Let_def)
  have k: "unat k < p_revoked p" using assms(1,4) by (simp add: represents_def Let_def word_less_nat_alt)
  then have len: "unat k < length ?secrets" "unat k < 2 ^ 48" using assms(2,5) by (auto simp: proto_ok_def)
  have "k \<le> INITIAL_COMMITMENT_NUMBER" using len(2) by (simp add: INITIAL_COMMITMENT_NUMBER_def word_le_nat_alt)
  then have idx: "unat ?idx = 2 ^ 48 - 1 - unat k" by (simp add: unat_sub INITIAL_COMMITMENT_NUMBER_def)
  have "get_secret sha st ?idx = (Ok (Some (revealed_at ?secrets ?idx)) :: (_, 'e) result)"
    by (rule get_secret_inv [OF st(2)]) (use idx len in linarith)+
  moreover have "revealed_at ?secrets ?idx = ?secrets ! unat k"
  proof -
    have "unat ?idx < 2 ^ 48" "2 ^ 48 - 1 - unat ?idx = unat k" using idx len(2) by linarith+
    then show ?thesis by (simp add: revealed_at_def)
  qed
  ultimately show ?thesis using st(1) len(1) assms(3) by (auto simp: accounted_def)
qed

end

lemma represents_start:
  assumes "channel_start w" "proto_start p"
  shows "represents sha w p"
  using assms secrets_inv_new [of sha "revealed_at []"]
  by (auto simp: channel_start_def represents_def proto_start_def enforcement_new_def Let_def)

text \<open>The validators the guarantees hold for: those whose policy demotes no error.\<close>

definition strict_validator :: "('a TxLib_scheme) \<Rightarrow> Validator \<Rightarrow> bool" where
  "strict_validator lib v \<longleftrightarrow>
     (\<exists>p. strict p \<and> (v = simple_validator lib p
        \<or> (\<exists>pol. (\<forall>tag. enforced (onchain_filter pol) tag) \<and> v = onchain_validator (simple_validator lib p) pol)))"

lemma strict_validator_guard:
  assumes "strict_validator lib v"
  shows "commitment_guard v (public_key_of lib)"
  using assms unfolding strict_validator_def
  by (auto intro: simple_validator_guard buried_guard.axioms(1) [OF onchain_validator_guard])

definition proto_initial :: Proto where
  "proto_initial = \<lparr>p_holder = 0, p_pending = False, p_closed = False, p_cp = 0, p_revoked = 0,
     p_current = None, p_previous = None, p_revealed = []\<rparr>"

lemma proto_initial: "proto_start proto_initial"
  by (simp add: proto_start_def proto_initial_def)

lemmas run_refines = commitment_guard.channel_refines [OF strict_validator_guard _ represents_start [OF _ proto_initial]
    proto_ok_start [OF proto_initial]]

lemma observed_in_order:
  "filter P es = xs @ y # ys \<Longrightarrow> \<exists>es1 es2. es = es1 @ y # es2 \<and> filter P es2 = ys"
proof (induction es arbitrary: xs)
  case (Cons e es)
  show ?case
  proof (cases "P e \<and> xs = []")
    case True
    with Cons.prems show ?thesis by (intro exI [of _ "[]"] exI [of _ es]) auto
  next
    case False
    then have "filter P es = (if P e then tl xs else xs) @ y # ys" using Cons.prems by (cases xs) auto
    from Cons.IH [OF this] show ?thesis by (metis append_Cons)
  qed
qed simp

end
