(* ===== verification/ChannelSafety.thy ===== *)
theory ChannelSafety
  imports ChannelRefinement
begin

text \<open>
  The guarantees of a channel over its runs, drawn from the protocol machine by the refinement of
  \<open>ChannelRefinement\<close>, a concrete run that shows that they apply, and the requests whose answers
  fall outside of them.
\<close>

section \<open>A concrete run\<close>

definition example_crypto_lib :: CryptoLib where
  "example_crypto_lib = TxLib.extend example_tx_lib
     \<lparr>secret_key_ok = (\<lambda>s. s \<noteq> []), build_commitment_secret = (\<lambda>seed idx. ucast idx # seed),
      make_funding_redeemscript = (\<lambda>a b. [ucast a, ucast b]), get_keyed_anchor_redeemscript = (\<lambda>k. [ucast k]),
      get_htlc_redeemscript = (\<lambda>htlc fs tk. [ucast (htlc_payment_hash htlc)]),
      build_htlc_transaction = (\<lambda>txid feerate delay htlc fs dk rk. \<lparr>tx_version = 2, lock_time = htlc_cltv_expiry htlc,
        tx_input = [], tx_output = []\<rparr>),
      built_transaction = (\<lambda>ctx. \<lparr>tx_version = 2, lock_time = ucast (cmt_number ctx), tx_input = [], tx_output = []\<rparr>),
      nondust_htlcs = cmt_htlcs, trusted_keys = (\<lambda>ctx. derive_new example_ldk (cmt_point ctx) 1 2 3 4),
      compute_txid = (\<lambda>tx. ucast (lock_time tx)),
      p2wsh_signature_hash = (\<lambda>tx i s a t. Some (ucast (lock_time tx) + ucast a)),
      derive_public_key = (\<lambda>p b. Some (p + b)), derive_private_key = (\<lambda>p s. s),
      derive_private_revocation_key = (\<lambda>s t. s), sign_ecdsa = (\<lambda>h s. ucast h + of_nat (length s)),
      sign_ecdsa_low_r = (\<lambda>h s. ucast h + of_nat (length s)),
      sign_ecdsa_with_noncedata = (\<lambda>e h s. ucast h + of_nat (length s)),
      verify_ecdsa = (\<lambda>h sig k. sig = ucast h + ucast k)\<rparr>"

definition example_env :: Env where
  "example_env = \<lparr>env_lib = example_crypto_lib,
     env_validator = simple_validator example_crypto_lib (make_default_simple_policy Bitcoin),
     env_wallet = example_wallet, env_chain = example_chain, env_persist = (\<lambda>_. Ok ()),
     env_aux = (\<lambda>h s. ucast h), env_sha = map (\<lambda>b. 3 * b + 1), env_payment_hash = (\<lambda>s. of_nat (length s))\<rparr>"

definition example_channel :: Channel where
  "example_channel = \<lparr>chan_keys = channel_signer_new example_crypto_lib [1] [2] [3] [4] [5] [6] [7],
     chan_payment_key = [3], enforcement_state = enforcement_new 2999000, chan_setup = example_setup,
     id0 = [1], permanent_id = None, prev_setup = None, prev_prev_setup = None, funding_locked = None\<rparr>"

fun serve_all :: "Env \<Rightarrow> Request list \<Rightarrow> ChanWorld \<Rightarrow> Label list \<times> ChanWorld" where
  "serve_all env [] w = ([], w)"
| "serve_all env (req # reqs) w =
     (let (reply, w) = serve env req w; (ls, w) = serve_all env reqs w in ((env, req, reply) # ls, w))"

lemma serve_all_trace:
  assumes "env_validator env = v" "env_sha env = sha" "serve_all env reqs w = (ls, w')"
    and "list_all (\<lambda>(_, req, reply). reply \<noteq> Panic \<and> req \<noteq> RevokePrevious (- 1)) ls"
  shows "chan.trace v sha w ls w'"
  using assms(3,4)
proof (induction reqs arbitrary: w ls)
  case Nil
  then show ?case by (auto intro: chan.trace_nil)
next
  case (Cons req reqs)
  then obtain reply u ls' where "serve env req w = (reply, u)" "serve_all env reqs u = (ls', w')"
    "ls = (env, req, reply) # ls'" by (auto split: prod.splits)
  moreover from this Cons.prems have "channel_act v sha (env, req, reply) w u"
    using assms(1,2) by (simp add: channel_act_def)
  ultimately show ?case using Cons.prems Cons.IH [of u ls'] by (auto intro: chan.trace_Cons)
qed

definition example_early :: "Request list" where
  "example_early =
     (let out = funding_outpoint example_setup in
      [SignCounterparty out 32 0 253 2999000 0 [] [],
       ValidateHolder out 0 253 2999000 0 [] [] (0xffffffff + 3000020, []), ActivateInitial,
       SignCounterparty out 33 1 253 2999000 0 [] []])"

definition example_late :: "Request list" where
  "example_late =
     [RevokeCounterparty 0 (replicate 32 7),
      ValidateHolder (funding_outpoint example_setup) 1 253 2999000 0 [] [] (0xfffffffe + 3000020, [])]"

lemma serve_all_labels:
  "fst (serve_all env reqs w) = map (Pair env) (zip reqs (map (snd \<circ> snd) (fst (serve_all env reqs w))))"
  by (induction reqs arbitrary: w) (auto simp: split_beta Let_def)

lemma serve_all_append:
  "serve_all env (reqs @ reqs') w =
   (fst (serve_all env reqs w) @ fst (serve_all env reqs' (snd (serve_all env reqs w))),
    snd (serve_all env reqs' (snd (serve_all env reqs w))))"
  by (induction reqs arbitrary: w) (auto simp: split_beta Let_def)

abbreviation example_world :: ChanWorld where
  "example_world \<equiv> (example_channel, example_node)"

abbreviation example_opened :: "Label list \<times> ChanWorld" where
  "example_opened \<equiv> serve_all example_env (example_early @ example_late) example_world"

abbreviation example_settled :: "Label list \<times> ChanWorld" where
  "example_settled \<equiv> serve_all example_env ((example_early @ example_late) @ [RevokePrevious 1]) example_world"

abbreviation example_closing :: "Label list \<times> ChanWorld" where
  "example_closing \<equiv> serve_all example_env [SignHolder 1, RevokePrevious 1] (snd example_settled)"

abbreviation unrelated_tx :: Transaction where
  "unrelated_tx \<equiv> \<lparr>tx_version = 2, lock_time = 7, tx_input = [], tx_output = []\<rparr>"

text \<open>The run is evaluated once, from state to state.\<close>

lemma example_evaluation:
  "case serve_all example_env example_early example_world of (early, ch0, ns0) \<Rightarrow>
   case serve_all example_env example_late (ch0, ns0) of (late, w1) \<Rightarrow>
   case serve_all example_env [RevokePrevious 1] w1 of (revoked, ch2, ns2) \<Rightarrow>
   case serve_all example_env [SignHolder 1, RevokePrevious 1] (ch2, ns2) of (closed, w3) \<Rightarrow>
     map (snd \<circ> snd) early =
       [Ok (Signatures 4297967296 []), Ok Done, Ok (Point 2), Ok (Signatures 4297967295 [])]
   \<and> (case get_commitment_info example_env ch0 unrelated_tx 0 of Ok (True, _) \<Rightarrow> True | _ \<Rightarrow> False)
   \<and> next_counterparty_commit_num (enforcement_state ch0) = 2
   \<and> (case counterparty_secrets (enforcement_state ch0) of None \<Rightarrow> False
      | Some st \<Rightarrow> get_secret (env_sha example_env) st (INITIAL_COMMITMENT_NUMBER - 0) = (Ok None :: (_, Status) result))
   \<and> map (snd \<circ> snd) late = [Ok Done, Ok Done]
   \<and> (case sign_holder_commitment_tx_phase2 example_env 0 w1 of (Ok _, _) \<Rightarrow> True | _ \<Rightarrow> False)
   \<and> map (snd \<circ> snd) revoked = [Ok (Released 2 (Some [255, 6]))]
   \<and> next_holder_commit_info (enforcement_state ch2) = None
   \<and> next_counterparty_revoke_num (enforcement_state ch2) = 1
   \<and> map (snd \<circ> snd) closed = [Ok (Signatures 4297967294 []), Ok (Released 2 (Some [255, 6]))]"
  by code_simp

lemma case_Ok:
  "(case x of (Ok _, _) \<Rightarrow> True | _ \<Rightarrow> False) \<longleftrightarrow> (\<exists>r w. x = (Ok r, w))"
  "(case y of Ok (True, _) \<Rightarrow> True | _ \<Rightarrow> False) \<longleftrightarrow> (\<exists>info. y = Ok (True, info))"
  "(case z of None \<Rightarrow> False | Some st \<Rightarrow> P st) \<longleftrightarrow> (\<exists>st. z = Some st \<and> P st)"
  by (auto split: prod.splits result.splits bool.splits option.splits)

lemma example_facts:
  "map (snd \<circ> snd) (fst example_settled) =
     [Ok (Signatures 4297967296 []), Ok Done, Ok (Point 2), Ok (Signatures 4297967295 []), Ok Done, Ok Done,
      Ok (Released 2 (Some [255, 6]))]"
  "map (snd \<circ> snd) (fst example_closing) = [Ok (Signatures 4297967294 []), Ok (Released 2 (Some [255, 6]))]"
  "next_holder_commit_info (enforcement_state (fst (snd example_settled))) = None"
  "next_counterparty_revoke_num (enforcement_state (fst (snd example_settled))) = 1"
  "map (snd \<circ> snd) (fst (serve_all example_env [RevokePrevious 1] (snd example_opened))) = [Ok (Released 2 (Some [255, 6]))]"
  "\<exists>sig w. sign_holder_commitment_tx_phase2 example_env 0 (snd example_opened) = (Ok sig, w)"
  using example_evaluation unfolding serve_all_append case_Ok
  by (simp_all del: serve_all.simps split: prod.splits)

lemma example_early_facts:
  "\<exists>info. get_commitment_info example_env (fst (snd (serve_all example_env example_early example_world))) unrelated_tx 0
     = Ok (True, info)"
  "next_counterparty_commit_num (enforcement_state (fst (snd (serve_all example_env example_early example_world)))) = 2"
  "\<exists>st. counterparty_secrets (enforcement_state (fst (snd (serve_all example_env example_early example_world)))) = Some st
     \<and> get_secret (env_sha example_env) st (INITIAL_COMMITMENT_NUMBER - 0) = (Ok None :: (_, Status) result)"
  using example_evaluation unfolding case_Ok by (simp_all del: serve_all.simps split: prod.splits)

lemmas example_settled_labels =
  serve_all_labels [of example_env "(example_early @ example_late) @ [RevokePrevious 1]" example_world, unfolded example_facts(1)]

lemmas example_closing_labels =
  serve_all_labels [of example_env "[SignHolder 1, RevokePrevious 1]" "snd example_settled", unfolded example_facts(2)]

lemma example_start: "channel_start example_world"
  by (auto simp: channel_start_def example_channel_def)

lemma example_strict: "strict_validator example_crypto_lib (env_validator example_env)"
  unfolding strict_validator_def example_env_def by (auto intro!: exI strict_default)

abbreviation example_trace :: "ChanWorld \<Rightarrow> Label list \<Rightarrow> ChanWorld \<Rightarrow> bool" where
  "example_trace \<equiv> chan.trace (env_validator example_env) (env_sha example_env)"

lemma example_settled_trace: "example_trace example_world (fst example_settled) (snd example_settled)"
  by (rule serve_all_trace [OF refl refl], rule prod.collapse [symmetric], unfold example_settled_labels)
    (simp add: example_early_def example_late_def Let_def)

lemma example_closing_trace: "example_trace (snd example_settled) (fst example_closing) (snd example_closing)"
  by (rule serve_all_trace [OF refl refl], rule prod.collapse [symmetric], unfold example_closing_labels) simp

lemmas example_run_trace = chan.trace_append [OF example_settled_trace example_closing_trace]

lemma example_run_observations:
  "observations (fst example_settled @ fst example_closing)
   = [ESignCp 0 32, ESignCp 1 33, ERelease 0, ESignHolder 1, ERelease 0]"
  unfolding example_settled_labels example_closing_labels
  by (simp add: observations_def example_early_def example_late_def Let_def)

lemma example_run_length: "length (fst example_settled @ fst example_closing) = 9"
  unfolding example_settled_labels example_closing_labels by (simp add: example_early_def example_late_def Let_def)

section \<open>Properties\<close>

text \<open>
  C13: A channel refines the commitment protocol. Whatever requests are served, in any order and with
  any failures, there is a run of the protocol machine that makes the same observations (which
  counterparty commitments and holder commitments were signed and which secrets were released) and
  ends in a state that represents the channel.
\<close>

theorem channel_refines_protocol:
  assumes "strict_validator lib v" "channel_start w" "chan.trace v sha w ls w'" "length ls < 2 ^ 48"
  shows "\<exists>es p. proto.trace (public_key_of lib) proto_initial es p \<and> represents sha w' p
    \<and> filter (\<lambda>e. e \<noteq> Tau) es = observations ls"
  using run_refines [OF assms(1,3,2)] assms(4) by (auto simp: proto_initial_def)

theorem channel_refines_protocol_witness:
  "\<exists>es p. proto.trace (public_key_of example_crypto_lib) proto_initial es p
    \<and> represents (env_sha example_env) (snd example_closing) p
    \<and> filter (\<lambda>e. e \<noteq> Tau) es = [ESignCp 0 32, ESignCp 1 33, ERelease 0, ESignHolder 1, ERelease 0]"
  using channel_refines_protocol [OF example_strict example_start example_run_trace]
  unfolding example_run_observations example_run_length by simp

text \<open>
  Once the secret of a holder commitment was released, the signer never again signs that
  commitment or an older one for broadcast.
\<close>

theorem released_never_signed_again:
  assumes "strict_validator lib v" "channel_start w"
    and "chan.trace v sha w (ls @ (env, RevokePrevious n, Ok (Released point (Some secret))) # ls') w'"
    and "(env', SignHolder m, Ok reply) \<in> set ls'" "length ls + length ls' < 2 ^ 48 - 1"
  shows "n \<le> m"
proof -
  let ?l = "(env, RevokePrevious n, Ok (Released point (Some secret)))"
  have len: "length (ls @ ?l # ls') < 2 ^ 48" using assms(5) by simp
  obtain es p where es: "proto.trace (public_key_of lib) proto_initial es p"
    "filter (\<lambda>e. e \<noteq> Tau) es = observations (ls @ ?l # ls')"
    using run_refines [OF assms(1,3,2)] len by (auto simp: proto_initial_def)
  moreover have "observations (ls @ ?l # ls') = observations ls @ ERelease (unat n - 1) # observations ls'"
    by (simp add: observations_def)
  ultimately obtain es1 es2 where "es = es1 @ ERelease (unat n - 1) # es2"
    and obs: "filter (\<lambda>e. e \<noteq> Tau) es2 = observations ls'"
    using observed_in_order by metis
  moreover have "ESignHolder (unat m) \<in> set (observations ls')" using assms(4) by (force simp: observations_def)
  then have "ESignHolder (unat m) \<in> set es2" unfolding obs [symmetric] by simp
  ultimately have "unat n - 1 < unat m" using released_before_signed es(1) by blast
  then show ?thesis by (simp add: word_le_nat_alt)
qed

theorem released_never_signed_again_witness:
  "\<exists>ls ls' reply. fst example_settled @ fst example_closing
      = ls @ (example_env, RevokePrevious 1, Ok (Released 2 (Some [255, 6]))) # ls'
    \<and> (example_env, SignHolder 1, Ok reply) \<in> set ls' \<and> (1 :: u64) \<le> 1"
proof -
  have split: "fst example_settled = take 6 (fst example_settled)
      @ [(example_env, RevokePrevious 1, Ok (Released 2 (Some [255, 6])))]"
    unfolding example_settled_labels by (simp add: example_early_def example_late_def Let_def)
  have closing: "(example_env, SignHolder 1, Ok (Signatures 4297967294 [])) \<in> set (fst example_closing)"
    unfolding example_closing_labels by simp
  have run: "fst example_settled @ fst example_closing = take 6 (fst example_settled)
      @ (example_env, RevokePrevious 1, Ok (Released 2 (Some [255, 6]))) # fst example_closing"
    by (subst split) simp
  have "length (take 6 (fst example_settled)) + length (fst example_closing) < 2 ^ 48 - 1"
    unfolding example_settled_labels example_closing_labels by (simp add: example_early_def example_late_def Let_def)
  from released_never_signed_again [OF example_strict example_start example_run_trace [unfolded run] closing this] run closing
  show ?thesis by blast
qed

text \<open>
  C4: When a holder commitment was signed for broadcast while no new commitment was pending, the
  signer never releases the secret of that commitment or of a newer one afterwards.
\<close>

theorem signed_never_released_unless_pending:
  assumes "strict_validator lib v" "channel_start w" "chan.trace v sha w ls (ch, ns)"
    and "next_holder_commit_info (enforcement_state ch) = None"
    and "channel_act v sha (env, SignHolder m, Ok reply) (ch, ns) u" "chan.trace v sha u ls' w'"
    and "(env', RevokePrevious n, Ok (Released point (Some secret))) \<in> set ls'"
    and "length ls + length ls' < 2 ^ 48 - 2"
  shows "n \<le> m"
proof -
  obtain es p where "proto.trace (public_key_of lib) proto_initial es p" "represents sha (ch, ns) p"
    and "p_holder p \<le> length ls" "p_cp p \<le> length ls"
    using run_refines [OF assms(1,3,2)] assms(8) by (auto simp: proto_initial_def)
  moreover from this have "proto_ok (public_key_of lib) p"
    using proto_ok_trace proto_ok_start [OF proto_initial] by blast
  ultimately show ?thesis
    using assms(8)
    by (intro commitment_guard.closed_run_releases_older [OF strict_validator_guard [OF assms(1)] _ _ assms(4-6) _ _ assms(7)])
      auto
qed

theorem signed_never_released_unless_pending_witness:
  "\<exists>u ls' reply. channel_act (env_validator example_env) (env_sha example_env) (example_env, SignHolder 1, Ok reply)
      (snd example_settled) u
    \<and> example_trace u ls' (snd example_closing)
    \<and> (example_env, RevokePrevious 1, Ok (Released 2 (Some [255, 6]))) \<in> set ls' \<and> (1 :: u64) \<le> 1"
proof -
  let ?sign = "(example_env, SignHolder 1, Ok (Signatures 4297967294 []))"
    and ?revoke = "(example_env, RevokePrevious 1, Ok (Released 2 (Some [255, 6])))"
  have labels: "fst example_closing = [] @ ?sign # [?revoke]" unfolding example_closing_labels by simp
  obtain u where u: "channel_act (env_validator example_env) (env_sha example_env) ?sign (snd example_settled) u"
    "example_trace u [?revoke] (snd example_closing)"
    using chan.trace_split [OF example_closing_trace [unfolded labels]] by (auto elim: chan.trace.cases)
  have "length (fst example_settled) + length [?revoke] < 2 ^ 48 - 2"
    unfolding example_settled_labels by (simp add: example_early_def example_late_def Let_def)
  with signed_never_released_unless_pending [OF example_strict example_start, of "env_sha example_env" "fst example_settled"
      "fst (snd example_settled)" "snd (snd example_settled)", OF _ example_facts(3) _ u(2)] u example_settled_trace
  have "(1 :: u64) \<le> 1" by (metis list.set_intros(1) prod.collapse)
  with u show ?thesis by (meson list.set_intros(1))
qed

text \<open>
  C3: Every counterparty commitment that the signer signed can be punished once it is revoked: the
  store holds a secret for it whose public key is the point the commitment was signed for.
\<close>

theorem revoked_commitments_punishable:
  assumes "strict_validator lib v" "channel_start w" "chan.trace v sha w ls (ch, ns)" "length ls < 2 ^ 48"
    and "ESignCp (unat k) point \<in> set (observations ls)"
    and "k < next_counterparty_revoke_num (enforcement_state ch)"
  shows "\<exists>st secret. counterparty_secrets (enforcement_state ch) = Some st
    \<and> get_secret sha st (INITIAL_COMMITMENT_NUMBER - k) = (Ok (Some secret) :: (_, unit) result)
    \<and> public_key_of lib secret = point"
proof -
  obtain es p where es: "proto.trace (public_key_of lib) proto_initial es p" "represents sha (ch, ns) p"
    "filter (\<lambda>e. e \<noteq> Tau) es = observations ls" "p_cp p \<le> length ls"
    using run_refines [OF assms(1,3,2)] assms(4) by (auto simp: proto_initial_def)
  have ok: "proto_ok (public_key_of lib) p" using es(1) proto_ok_start [OF proto_initial] by (rule proto_ok_trace)
  then have "p_revoked p < 2 ^ 48" using es(4) assms(4) by (auto simp: proto_ok_def)
  moreover have "ESignCp (unat k) point \<in> set es" using assms(5) unfolding es(3) [symmetric] by simp
  then have "accounted (public_key_of lib) p (unat k) point"
    by (rule signed_accounted [OF es(1) proto_ok_start [OF proto_initial]])
  ultimately show ?thesis
    using commitment_guard.signed_counterparty_punishable [OF strict_validator_guard [OF assms(1)] es(2) ok _ assms(6)]
    by blast
qed

theorem revoked_commitments_punishable_witness:
  "\<exists>st secret. counterparty_secrets (enforcement_state (fst (snd example_settled))) = Some st
    \<and> get_secret (env_sha example_env) st (INITIAL_COMMITMENT_NUMBER - 0) = (Ok (Some secret) :: (_, unit) result)
    \<and> public_key_of example_crypto_lib secret = 32"
proof -
  have "length (fst example_settled) < 2 ^ 48" "ESignCp (unat (0 :: u64)) 32 \<in> set (observations (fst example_settled))"
    unfolding example_settled_labels by (simp_all add: observations_def example_early_def example_late_def Let_def)
  with revoked_commitments_punishable [OF example_strict example_start, of "env_sha example_env" "fst example_settled"
      "fst (snd example_settled)" "snd (snd example_settled)" 0 32] example_settled_trace example_facts(4)
  show ?thesis by simp
qed

section \<open>Outside of the guarantees\<close>

lemma summaries_ignore_closed [simp]:
  "payments_summary (est\<lparr>channel_closed := b\<rparr>) h c = payments_summary est h c"
  "incoming_payments_summary (est\<lparr>channel_closed := b\<rparr>) h c = incoming_payments_summary est h c"
  by (simp_all add: payments_summary_def incoming_payments_summary_def)

lemma info_for_ignores_closed [simp]:
  "holder_commit_info_for (est\<lparr>channel_closed := b\<rparr>) view = holder_commit_info_for est view"
  "counterparty_commit_info_for (est\<lparr>channel_closed := b\<rparr>) view = counterparty_commit_info_for est view"
  by (auto simp: holder_commit_info_for_def counterparty_commit_info_for_def)

lemma closed_selects:
  "prev_funding_commitment (est\<lparr>channel_closed := b\<rparr>) = prev_funding_commitment est"
  "current_holder_commit_info (est\<lparr>channel_closed := b\<rparr>) = current_holder_commit_info est"
  "current_counterparty_commit_info (est\<lparr>channel_closed := b\<rparr>) = current_counterparty_commit_info est"
  "holder_commitment_funding (est\<lparr>channel_closed := b\<rparr>) = holder_commitment_funding est"
  "counterparty_commitment_funding (est\<lparr>channel_closed := b\<rparr>) = counterparty_commitment_funding est"
  "initial_holder_value (est\<lparr>channel_closed := b\<rparr>) = initial_holder_value est"
  by simp_all

lemma balances_ignore_closed [simp]:
  "claimable_balances (est\<lparr>channel_closed := b\<rparr>) preimages h c view prev = claimable_balances est preimages h c view prev"
  unfolding claimable_balances_def closed_selects info_for_ignores_closed ..

lemma holder_advance_ignores_closed:
  "set_next_holder_commit_num fl (est\<lparr>channel_closed := b\<rparr>) n info2 sigs =
   and_then (set_next_holder_commit_num fl est n info2 sigs) (\<lambda>est. Ok (est\<lparr>channel_closed := b\<rparr>))"
  unfolding set_next_holder_commit_num_def estate_set_next_holder_commit_num_def Let_def
  by (cases "policy_err_if fl (n \<noteq> next_holder_commit_num est \<and> n \<noteq> next_holder_commit_num est + 1)
        ''policy-revoke-new-commitment-signed''"; cases "n = next_holder_commit_num est + 1")
    (simp_all add: assert_that_def)

lemma point_ignores_closed [simp]:
  "get_per_commitment_point lib (ch\<lparr>enforcement_state := est\<lparr>channel_closed := b\<rparr>\<rparr>) n =
   get_per_commitment_point lib (ch\<lparr>enforcement_state := est\<rparr>) n"
  "get_per_commitment_secret lib v (ch\<lparr>enforcement_state := est\<lparr>channel_closed := b\<rparr>\<rparr>) n =
   get_per_commitment_secret lib v (ch\<lparr>enforcement_state := est\<rparr>) n"
  by (simp_all add: get_per_commitment_point_def get_per_commitment_point_unchecked_def get_per_commitment_secret_def)

lemma release_ignores_closed [simp]:
  "release_commitment_secret env (ch\<lparr>enforcement_state := est\<lparr>channel_closed := b\<rparr>\<rparr>) n =
   release_commitment_secret env (ch\<lparr>enforcement_state := est\<rparr>) n"
  by (simp add: release_commitment_secret_def cong: if_cong)


lemma fst_attempt: "fst (attempt r s k) = (case r of Ok x \<Rightarrow> fst (k x) | Err e \<Rightarrow> Err e | Panic \<Rightarrow> Panic)"
  by (cases r) auto

lemma map_err_and_then_Ok: "map_err g (and_then r (\<lambda>x. Ok (f x))) = and_then (map_err g r) (\<lambda>x. Ok (f x))"
  by (cases r) auto

lemma attempt_and_then_Ok: "attempt (and_then r (\<lambda>x. Ok (f x))) s k = attempt r s (\<lambda>x. k (f x))"
  by (cases r) auto

lemma attempt_op_attempt: "attempt_op (attempt r s k) f = attempt r s (\<lambda>x. attempt_op (k x) f)"
  by (cases r) auto

lemma revocation_ignores_closed:
  "fst (revoke_previous_holder_commitment env n (ch\<lparr>enforcement_state := (enforcement_state ch)\<lparr>channel_closed := b\<rparr>\<rparr>, ns)) =
   fst (revoke_previous_holder_commitment env n (ch, ns))"
  if "env_persist env = (\<lambda>_. Ok ())"
proof (cases "n = next_holder_commit_num (enforcement_state ch)")
  case False
  then show ?thesis
    by (simp add: revoke_previous_holder_commitment_def Let_def fst_attempt cong: result.case_cong)
next
  case True
  show ?thesis
  proof (cases "next_holder_commit_info (enforcement_state ch)")
    case None
    with True show ?thesis
      by (simp add: revoke_previous_holder_commitment_def Let_def fst_attempt cong: result.case_cong)
  next
    case (Some pending)
    let ?est = "(enforcement_state ch)\<lparr>next_holder_commit_info := None\<rparr>"
    have swap: "(enforcement_state ch)\<lparr>channel_closed := b, next_holder_commit_info := None\<rparr> = ?est\<lparr>channel_closed := b\<rparr>"
      by simp
    from Some True show ?thesis
      by (cases pending)
        (simp add: revoke_previous_holder_commitment_def advance_holder_commitment_state_def Let_def that swap
          to_status_def holder_advance_ignores_closed map_err_and_then_Ok attempt_and_then_Ok attempt_op_attempt
          fst_attempt del: EnforcementState.update_convs cong: result.case_cong)
  qed
qed

lemma map_reply_released:
  "map_reply (\<lambda>(point, secret). Released point secret) r = Ok (Released point secret) \<longleftrightarrow> r = Ok (point, secret)"
  by (cases r) auto

text \<open>
  C35: Signing a holder commitment for broadcast does not stop revocations: every revocation request
  is answered after the signature as it would have been before. In particular the secret of the
  signed commitment is released when a newer commitment was pending.
\<close>

theorem close_does_not_stop_revocation:
  assumes "sign_holder_commitment_tx_phase2 env m (ch, ns) = (Ok sig, w)" "env_persist env = (\<lambda>_. Ok ())"
  shows "fst (revoke_previous_holder_commitment env n w) = fst (revoke_previous_holder_commitment env n (ch, ns))"
proof -
  have w: "w = (ch\<lparr>enforcement_state := (enforcement_state ch)\<lparr>channel_closed := True\<rparr>\<rparr>, ns)"
    using assms by (auto simp: sign_holder_commitment_tx_phase2_def mark_closed_def Let_def attempt_Ok_iff split_beta)
  show ?thesis unfolding w by (rule revocation_ignores_closed [OF assms(2)])
qed

theorem close_does_not_stop_revocation_witness:
  "\<exists>sig w. sign_holder_commitment_tx_phase2 example_env 0 (snd example_opened) = (Ok sig, w)
    \<and> fst (revoke_previous_holder_commitment example_env 1 w) = Ok (2, Some [255, 6])"
proof -
  obtain sig w where signed: "sign_holder_commitment_tx_phase2 example_env 0 (snd example_opened) = (Ok sig, w)"
    using example_facts(6) by blast
  have "fst (revoke_previous_holder_commitment example_env 1 (snd example_opened)) = Ok (2, Some [255, 6])"
    using example_facts(5) by (simp add: split_beta map_reply_released)
  moreover have "env_persist example_env = (\<lambda>_. Ok ())" by (simp add: example_env_def)
  ultimately have "fst (revoke_previous_holder_commitment example_env 1 w) = Ok (2, Some [255, 6])"
    using close_does_not_stop_revocation [of example_env 0 "fst (snd example_opened)" "snd (snd example_opened)"] signed
    by simp
  with signed show ?thesis by blast
qed



text \<open>
  C37: The point of the counterparty's previous commitment is not found while that commitment is
  unrevoked, though the state keeps it, and the request for the outputs of that commitment that can
  be claimed panics.
\<close>

theorem previous_commitment_spend_panics:
  assumes "get_commitment_info env ch tx n = Ok (True, info)"
    and "next_counterparty_commit_num (enforcement_state ch) = n + 2" "n < n + 2"
    and "counterparty_secrets (enforcement_state ch) = Some st"
    and "get_secret (env_sha env) st (INITIAL_COMMITMENT_NUMBER - n) = (Ok None :: (_, Status) result)"
  shows "get_spendable_htlc_indices env ch ns tx n = Panic"
proof -
  have "\<not> n + 2 < n + 1" "n + 2 \<noteq> n + 1" "n + 2 \<noteq> n" using assms(3) by uint_arith+
  with assms show ?thesis
    by (simp add: get_spendable_htlc_indices_def get_counterparty_commitment_point_def Let_def)
qed

theorem previous_commitment_spend_panics_witness:
  "get_spendable_htlc_indices example_env (fst (snd (serve_all example_env example_early example_world)))
     example_node unrelated_tx 0 = Panic"
  using previous_commitment_spend_panics [of example_env "fst (snd (serve_all example_env example_early example_world))"
      unrelated_tx 0] example_early_facts by auto

end
