(* ===== verification/Monitor.thy ===== *)
theory Monitor
  imports TxInfo Enforcement
begin

text \<open>
  The chain monitor of one channel (\<^verbatim>\<open>monitor.rs\<close>). A block reaches it as a stream of push
  events, or as the transactions of a compact proof that are replayed as such a stream. The events
  are decoded into a list of state changes, on a copy of the state, and the changes are applied to
  the state when the block is added, or undone when it is removed. Each change also tells the chain
  tracker which outpoints to watch and which ones to stop watching.
\<close>

section \<open>Outputs of a closing transaction\<close>

definition MIN_DEPTH :: u32 where "MIN_DEPTH = 100"

definition MAX_CLOSING_DEPTH :: u32 where "MAX_CLOSING_DEPTH = 2016"

record SecondLevelHTLCOutput =
  sl_outpoint :: OutPoint
  sl_spent :: bool

record ClosingOutpoints =
  co_txid :: Txid
  our_output :: "(u32 \<times> bool) option"
  htlc_outputs :: "u32 list"
  htlc_spents :: "bool list"
  second_level_htlc_outputs :: "SecondLevelHTLCOutput list"

definition closing_outpoints_new :: "Txid \<Rightarrow> u32 option \<Rightarrow> u32 list \<Rightarrow> ClosingOutpoints" where
  "closing_outpoints_new txid our_output_index htlc_output_indexes =
     \<lparr>co_txid = txid, our_output = map_option (\<lambda>i. (i, False)) our_output_index,
      htlc_outputs = htlc_output_indexes, htlc_spents = replicate (length htlc_output_indexes) False,
      second_level_htlc_outputs = []\<rparr>"

definition includes_our_output :: "ClosingOutpoints \<Rightarrow> OutPoint \<Rightarrow> bool" where
  "includes_our_output c out \<longleftrightarrow> co_txid c = op_txid out \<and> map_option fst (our_output c) = Some (op_vout out)"

definition includes_htlc_output :: "ClosingOutpoints \<Rightarrow> OutPoint \<Rightarrow> bool" where
  "includes_htlc_output c out \<longleftrightarrow> co_txid c = op_txid out \<and> op_vout out \<in> set (htlc_outputs c)"

definition includes_second_level_htlc_output :: "ClosingOutpoints \<Rightarrow> OutPoint \<Rightarrow> bool" where
  "includes_second_level_htlc_output c out \<longleftrightarrow> (\<exists>h \<in> set (second_level_htlc_outputs c). sl_outpoint h = out)"

definition set_our_output_spent :: "u32 \<Rightarrow> bool \<Rightarrow> ClosingOutpoints \<Rightarrow> (ClosingOutpoints, Status) result" where
  "set_our_output_spent vout spent c =
     and_then (expect (our_output c)) (\<lambda>(i, _).
     and_then (assert_that (i = vout)) (\<lambda>_. Ok (c\<lparr>our_output := Some (i, spent)\<rparr>)))"

fun index_of :: "'a \<Rightarrow> 'a list \<Rightarrow> nat option" where
  "index_of x [] = None"
| "index_of x (y # ys) = (if x = y then Some 0 else map_option Suc (index_of x ys))"

definition set_htlc_output_spent :: "u32 \<Rightarrow> bool \<Rightarrow> ClosingOutpoints \<Rightarrow> (ClosingOutpoints, Status) result" where
  "set_htlc_output_spent vout spent c =
     and_then (expect (index_of vout (htlc_outputs c))) (\<lambda>i.
     and_then (assert_that (i < length (htlc_spents c))) (\<lambda>_.
     Ok (c\<lparr>htlc_spents := (htlc_spents c)[i := spent]\<rparr>)))"

definition is_all_spent :: "ClosingOutpoints \<Rightarrow> bool" where
  "is_all_spent c \<longleftrightarrow>
     (case our_output c of None \<Rightarrow> True | Some (_, b) \<Rightarrow> b)
     \<and> list_all id (htlc_spents c) \<and> list_all sl_spent (second_level_htlc_outputs c)"

definition add_second_level_htlc_output :: "OutPoint \<Rightarrow> ClosingOutpoints \<Rightarrow> ClosingOutpoints" where
  "add_second_level_htlc_output out c =
     c\<lparr>second_level_htlc_outputs := second_level_htlc_outputs c @ [\<lparr>sl_outpoint = out, sl_spent = False\<rparr>]\<rparr>"

text \<open>The first entry that matches is changed.\<close>

fun set_first_spent :: "OutPoint \<Rightarrow> bool \<Rightarrow> SecondLevelHTLCOutput list \<Rightarrow> SecondLevelHTLCOutput list option" where
  "set_first_spent out spent [] = None"
| "set_first_spent out spent (h # hs) =
     (if sl_outpoint h = out then Some (h\<lparr>sl_spent := spent\<rparr> # hs)
      else map_option ((#) h) (set_first_spent out spent hs))"

definition set_second_level_htlc_spent ::
  "OutPoint \<Rightarrow> bool \<Rightarrow> ClosingOutpoints \<Rightarrow> (ClosingOutpoints, Status) result" where
  "set_second_level_htlc_spent out spent c =
     and_then (expect (set_first_spent out spent (second_level_htlc_outputs c))) (\<lambda>hs.
     Ok (c\<lparr>second_level_htlc_outputs := hs\<rparr>))"

definition remove_second_level_htlc_output :: "OutPoint \<Rightarrow> ClosingOutpoints \<Rightarrow> ClosingOutpoints" where
  "remove_second_level_htlc_output out c =
     c\<lparr>second_level_htlc_outputs := filter (\<lambda>h. sl_outpoint h \<noteq> out) (second_level_htlc_outputs c)\<rparr>"

section \<open>The state and its changes\<close>

record State =
  ms_height :: u32
  funding_txids :: "Txid list"
  funding_vouts :: "u32 list"
  funding_inputs :: "OutPoint set"
  funding_height :: "u32 option"
  ms_funding_outpoint :: "OutPoint option"
  funding_double_spent_height :: "u32 option"
  mutual_closing_height :: "u32 option"
  unilateral_closing_height :: "u32 option"
  closing_outpoints :: "ClosingOutpoints option"
  closing_swept_height :: "u32 option"
  our_output_swept_height :: "u32 option"
  saw_block :: bool
  saw_forget_channel :: bool

datatype StateChange =
    FundingConfirmed OutPoint
  | FundingInputSpent OutPoint
  | UnilateralCloseConfirmed Txid OutPoint "u32 option" "u32 list"
  | MutualCloseConfirmed Txid OutPoint
  | OurOutputSpent u32
  | HTLCOutputSpent u32 OutPoint
  | SecondLevelHTLCOutputSpent OutPoint

text \<open>The outpoints to watch and to stop watching are collected along with the state.\<close>

type_synonym Changed = "State \<times> OutPoint list \<times> OutPoint list"

definition outpoint :: "Txid \<Rightarrow> u32 \<Rightarrow> OutPoint" where
  "outpoint txid vout = \<lparr>op_txid = txid, op_vout = vout\<rparr>"

definition get_or_insert :: "'a option \<Rightarrow> 'a \<Rightarrow> 'a option" where
  "get_or_insert v x = (case v of None \<Rightarrow> Some x | Some _ \<Rightarrow> v)"

definition closing_adds :: "Txid \<Rightarrow> u32 option \<Rightarrow> u32 list \<Rightarrow> OutPoint list" where
  "closing_adds txid our_output_index htlcs_indices =
     (case our_output_index of None \<Rightarrow> [] | Some i \<Rightarrow> [outpoint txid i]) @ map (outpoint txid) htlcs_indices"

fun apply_forward_change :: "StateChange \<Rightarrow> Changed \<Rightarrow> (Changed, Status) result" where
  "apply_forward_change (FundingConfirmed out) (s, adds, removes) =
     Ok (s\<lparr>funding_height := Some (ms_height s), ms_funding_outpoint := Some out,
           funding_double_spent_height := None\<rparr>, adds @ [out], removes)"
| "apply_forward_change (FundingInputSpent out) (s, adds, removes) =
     Ok (s\<lparr>funding_double_spent_height := get_or_insert (funding_double_spent_height s) (ms_height s)\<rparr>,
         adds, removes @ [out])"
| "apply_forward_change (UnilateralCloseConfirmed txid funding our_index htlcs) (s, adds, removes) =
     Ok (s\<lparr>unilateral_closing_height := Some (ms_height s),
           closing_outpoints := Some (closing_outpoints_new txid our_index htlcs)\<rparr>,
         adds @ closing_adds txid our_index htlcs, removes @ [funding])"
| "apply_forward_change (OurOutputSpent vout) (s, adds, removes) =
     and_then (expect (closing_outpoints s)) (\<lambda>c.
     and_then (set_our_output_spent vout True c) (\<lambda>c.
     Ok (s\<lparr>closing_outpoints := Some c\<rparr>, adds, removes @ [outpoint (co_txid c) vout])))"
| "apply_forward_change (HTLCOutputSpent vout second) (s, adds, removes) =
     and_then (expect (closing_outpoints s)) (\<lambda>c.
     and_then (set_htlc_output_spent vout True c) (\<lambda>c.
     Ok (s\<lparr>closing_outpoints := Some (add_second_level_htlc_output second c)\<rparr>,
         adds @ [second], removes @ [outpoint (co_txid c) vout])))"
| "apply_forward_change (SecondLevelHTLCOutputSpent out) (s, adds, removes) =
     and_then (expect (closing_outpoints s)) (\<lambda>c.
     and_then (set_second_level_htlc_spent out True c) (\<lambda>c.
     Ok (s\<lparr>closing_outpoints := Some c\<rparr>, adds, removes @ [out])))"
| "apply_forward_change (MutualCloseConfirmed txid funding) (s, adds, removes) =
     Ok (s\<lparr>mutual_closing_height := Some (ms_height s)\<rparr>, adds, removes @ [funding])"

fun apply_backward_change :: "StateChange \<Rightarrow> Changed \<Rightarrow> (Changed, Status) result" where
  "apply_backward_change (FundingConfirmed out) (s, adds, removes) =
     and_then (assert_that (funding_height s = Some (ms_height s))) (\<lambda>_.
     Ok (s\<lparr>funding_height := None, ms_funding_outpoint := None\<rparr>, adds @ [out], removes))"
| "apply_backward_change (FundingInputSpent out) (s, adds, removes) =
     Ok (if funding_double_spent_height s = Some (ms_height s) then s\<lparr>funding_double_spent_height := None\<rparr> else s,
         adds, removes @ [out])"
| "apply_backward_change (UnilateralCloseConfirmed txid funding our_index htlcs) (s, adds, removes) =
     and_then (assert_that (unilateral_closing_height s = Some (ms_height s))) (\<lambda>_.
     Ok (s\<lparr>unilateral_closing_height := None, closing_outpoints := None\<rparr>,
         adds @ closing_adds txid our_index htlcs, removes @ [funding]))"
| "apply_backward_change (OurOutputSpent vout) (s, adds, removes) =
     and_then (expect (closing_outpoints s)) (\<lambda>c.
     and_then (set_our_output_spent vout False c) (\<lambda>c.
     Ok (s\<lparr>closing_outpoints := Some c\<rparr>, adds, removes @ [outpoint (co_txid c) vout])))"
| "apply_backward_change (HTLCOutputSpent vout second) (s, adds, removes) =
     and_then (expect (closing_outpoints s)) (\<lambda>c.
     and_then (set_htlc_output_spent vout False c) (\<lambda>c.
     Ok (s\<lparr>closing_outpoints := Some (remove_second_level_htlc_output second c)\<rparr>,
         adds @ [outpoint (co_txid c) vout], removes @ [second])))"
| "apply_backward_change (SecondLevelHTLCOutputSpent out) (s, adds, removes) =
     and_then (expect (closing_outpoints s)) (\<lambda>c.
     and_then (set_second_level_htlc_spent out False c) (\<lambda>c.
     Ok (s\<lparr>closing_outpoints := Some c\<rparr>, adds @ [out], removes)))"
| "apply_backward_change (MutualCloseConfirmed txid funding) (s, adds, removes) =
     Ok (s\<lparr>mutual_closing_height := None\<rparr>, adds, removes @ [funding])"

section \<open>Depths and pruning\<close>

definition depth_of :: "State \<Rightarrow> u32 option \<Rightarrow> u32" where
  "depth_of s other_height =
     saturating_sub (ms_height s + 1) (case other_height of None \<Rightarrow> ms_height s + 1 | Some h \<Rightarrow> h)"

definition deep_enough_and_saw_node_forget :: "State \<Rightarrow> u32 option \<Rightarrow> u32 \<Rightarrow> bool" where
  "deep_enough_and_saw_node_forget s other_height min_depth \<longleftrightarrow>
     \<not> depth_of s other_height < min_depth \<and> saw_forget_channel s"

definition is_done :: "State \<Rightarrow> bool" where
  "is_done s \<longleftrightarrow>
     deep_enough_and_saw_node_forget s (funding_double_spent_height s) MIN_DEPTH
     \<or> deep_enough_and_saw_node_forget s (mutual_closing_height s) MIN_DEPTH
     \<or> deep_enough_and_saw_node_forget s (closing_swept_height s) MIN_DEPTH"

definition is_closing_swept :: "State \<Rightarrow> bool" where
  "is_closing_swept s = (case closing_outpoints s of None \<Rightarrow> False | Some c \<Rightarrow> is_all_spent c)"

definition is_our_output_swept :: "State \<Rightarrow> bool" where
  "is_our_output_swept s =
     (case closing_outpoints s of None \<Rightarrow> False
      | Some c \<Rightarrow> (case our_output c of None \<Rightarrow> True | Some (_, b) \<Rightarrow> b))"

section \<open>The end of a block\<close>

text \<open>The heights at which everything, or our own output, was swept.\<close>

definition note_swept :: "bool \<Rightarrow> bool \<Rightarrow> State \<Rightarrow> State" where
  "note_swept closing_was_swept our_output_was_swept s =
     (let s = (if \<not> closing_was_swept \<and> is_closing_swept s
               then s\<lparr>closing_swept_height := Some (ms_height s)\<rparr> else s)
      in if \<not> our_output_was_swept \<and> is_our_output_swept s
         then s\<lparr>our_output_swept_height := Some (ms_height s)\<rparr> else s)"

definition note_unswept :: "bool \<Rightarrow> bool \<Rightarrow> State \<Rightarrow> State" where
  "note_unswept closing_was_swept our_output_was_swept s =
     (let s = (if closing_was_swept \<and> \<not> is_closing_swept s then s\<lparr>closing_swept_height := None\<rparr> else s)
      in if our_output_was_swept \<and> \<not> is_our_output_swept s then s\<lparr>our_output_swept_height := None\<rparr> else s)"

definition on_add_block_end :: "State \<Rightarrow> StateChange list \<Rightarrow> (Changed, Status) result" where
  "on_add_block_end s changes =
     (let s = s\<lparr>saw_block := True, ms_height := ms_height s + 1\<rparr>
      in and_then (fold_ok apply_forward_change changes (s, [], [])) (\<lambda>(s', adds, removes).
         Ok (note_swept (is_closing_swept s) (is_our_output_swept s) s', adds, removes)))"

definition on_remove_block_end :: "State \<Rightarrow> StateChange list \<Rightarrow> (Changed, Status) result" where
  "on_remove_block_end s changes =
     and_then (fold_ok apply_backward_change changes (s, [], [])) (\<lambda>(s', adds, removes).
     let s' = note_unswept (is_closing_swept s) (is_our_output_swept s) s'
     in Ok (s'\<lparr>ms_height := ms_height s' - 1\<rparr>, adds, removes))"

section \<open>Decoding a block\<close>

record BlockDecodeState =
  ds_changes :: "StateChange list"
  ds_version :: u32
  input_num :: u32
  output_num :: u32
  closing_tx :: "Transaction option"
  spent_htlc_outputs :: "(u32 \<times> u32) list"
  ds_block_hash :: "BlockHash option"
  ds_state :: State

definition decode_state_new :: "State \<Rightarrow> BlockHash option \<Rightarrow> BlockDecodeState" where
  "decode_state_new s hash =
     \<lparr>ds_changes = [], ds_version = 0, input_num = 0, output_num = 0, closing_tx = None,
      spent_htlc_outputs = [], ds_block_hash = hash, ds_state = s\<rparr>"

definition add_change :: "StateChange \<Rightarrow> BlockDecodeState \<Rightarrow> (BlockDecodeState, Status) result" where
  "add_change change ds =
     and_then (apply_forward_change change (ds_state ds, [], [])) (\<lambda>(s, _, _).
     Ok (ds\<lparr>ds_changes := ds_changes ds @ [change], ds_state := s\<rparr>))"

text \<open>
  What the monitor asks of the channel when a commitment transaction confirms. A panic of the
  channel is a panic of the monitor.
\<close>

record CommitmentPointProvider =
  pp_ldk :: Ldk
  get_holder_commitment_point :: "u64 \<Rightarrow> (PublicKey, Status) result"
  provider_counterparty_point :: "u64 \<Rightarrow> (PublicKey option, Status) result"
  get_transaction_parameters :: ChannelTransactionParameters
  provider_spendable_htlc_indices :: "Transaction \<Rightarrow> u64 \<Rightarrow> (u32 list, Status) result"

definition MAX_COMMITMENT_OUTPUTS :: u32 where "MAX_COMMITMENT_OUTPUTS = 600"

text \<open>The state of a push listener: whether a block start was seen, and what was decoded so far.\<close>

type_synonym PushState = "bool \<times> BlockDecodeState"

definition ready_for_push :: "PushState \<Rightarrow> (bool, Status) result" where
  "ready_for_push = (\<lambda>(saw, ds). and_then (assert_that ((ds_block_hash ds \<noteq> None) = saw)) (\<lambda>_. Ok saw))"

definition when_ready :: "(BlockDecodeState \<Rightarrow> (BlockDecodeState, Status) result) \<Rightarrow> PushState \<Rightarrow> (PushState, Status) result" where
  "when_ready f = (\<lambda>(saw, ds).
     and_then (ready_for_push (saw, ds)) (\<lambda>ready.
     if ready then and_then (f ds) (\<lambda>ds. Ok (saw, ds)) else Ok (saw, ds)))"

definition on_block_start :: "BlockHash \<Rightarrow> PushState \<Rightarrow> (PushState, Status) result" where
  "on_block_start hash = (\<lambda>(saw, ds).
     and_then (assert_that (ds_block_hash ds = None)) (\<lambda>_. Ok (True, ds\<lparr>ds_block_hash := Some hash\<rparr>)))"

definition on_transaction_start :: "u32 \<Rightarrow> BlockDecodeState \<Rightarrow> (BlockDecodeState, Status) result" where
  "on_transaction_start version ds =
     Ok (ds\<lparr>ds_version := version, input_num := 0, output_num := 0, closing_tx := None, spent_htlc_outputs := []\<rparr>)"

text \<open>The change that an input makes to the outputs of a closing transaction that was seen before.\<close>

definition closing_change :: "OutPoint \<Rightarrow> BlockDecodeState \<Rightarrow> (BlockDecodeState, Status) result" where
  "closing_change prev ds =
     (case closing_outpoints (ds_state ds) of
        None \<Rightarrow> Ok ds
      | Some c \<Rightarrow>
          if includes_our_output c prev then add_change (OurOutputSpent (op_vout prev)) ds
          else if includes_htlc_output c prev then
            Ok (ds\<lparr>spent_htlc_outputs := spent_htlc_outputs ds @ [(op_vout prev, input_num ds)]\<rparr>)
          else if includes_second_level_htlc_output c prev then add_change (SecondLevelHTLCOutputSpent prev) ds
          else Ok ds)"

definition on_transaction_input :: "TxIn \<Rightarrow> BlockDecodeState \<Rightarrow> (BlockDecodeState, Status) result" where
  "on_transaction_input inp ds =
     (let prev = previous_output inp in
      and_then (if prev \<in> funding_inputs (ds_state ds) then add_change (FundingInputSpent prev) ds else Ok ds) (\<lambda>ds.
      let ds = (if Some prev = ms_funding_outpoint (ds_state ds)
                then ds\<lparr>closing_tx := Some \<lparr>tx_version = ds_version ds, lock_time = 0, tx_input = [inp], tx_output = []\<rparr>\<rparr>
                else ds)
      in and_then (closing_change prev ds) (\<lambda>ds.
         let ds = (if closing_tx ds \<noteq> None \<and> input_num ds \<noteq> 0 then ds\<lparr>closing_tx := None\<rparr> else ds)
         in Ok (ds\<lparr>input_num := input_num ds + 1\<rparr>))))"

definition on_transaction_output :: "TxOut \<Rightarrow> BlockDecodeState \<Rightarrow> (BlockDecodeState, Status) result" where
  "on_transaction_output out ds =
     and_then
       (case closing_tx ds of
          None \<Rightarrow> Ok ds
        | Some tx \<Rightarrow>
            and_then (assert_that (output_num ds < MAX_COMMITMENT_OUTPUTS)) (\<lambda>_.
            Ok (ds\<lparr>closing_tx := Some (tx\<lparr>tx_output := tx_output tx @ [out]\<rparr>)\<rparr>))) (\<lambda>ds.
     Ok (ds\<lparr>output_num := output_num ds + 1\<rparr>))"

definition confirm_funding :: "Txid \<Rightarrow> BlockDecodeState \<Rightarrow> (BlockDecodeState, Status) result" where
  "confirm_funding txid ds =
     (case index_of txid (funding_txids (ds_state ds)) of
        None \<Rightarrow> Ok ds
      | Some ind \<Rightarrow>
          and_then (assert_that (ind < length (funding_vouts (ds_state ds)))) (\<lambda>_.
          let vout = funding_vouts (ds_state ds) ! ind
          in and_then (assert_that (vout < output_num ds)) (\<lambda>_.
             add_change (FundingConfirmed (outpoint txid vout)) ds)))"

text \<open>A spend of the funding that creates the current funding is a splice, not a close.\<close>

definition classify_close ::
  "CommitmentPointProvider \<Rightarrow> Txid \<Rightarrow> Transaction \<Rightarrow> BlockDecodeState \<Rightarrow> (BlockDecodeState, Status) result" where
  "classify_close pp txid tx ds =
     (if txid \<in> set (funding_txids (ds_state ds)) then Ok ds
      else
        case tx_input tx of
          [inp] \<Rightarrow>
            and_then (decode_commitment_number (pp_ldk pp) tx (get_transaction_parameters pp)) (\<lambda>number.
            case number of
              None \<Rightarrow> add_change (MutualCloseConfirmed txid (previous_output inp)) ds
            | Some n \<Rightarrow>
                and_then (unwrap (get_holder_commitment_point pp n)) (\<lambda>holder_point.
                and_then (unwrap (provider_counterparty_point pp n)) (\<lambda>cp_point.
                and_then (decode_commitment_tx (pp_ldk pp) tx holder_point cp_point (get_transaction_parameters pp))
                  (\<lambda>(our_index, htlc_indices).
                and_then (if htlc_indices = [] then Ok [] else unwrap (provider_spendable_htlc_indices pp tx n)) (\<lambda>spendable.
                add_change (UnilateralCloseConfirmed txid (previous_output inp) our_index spendable) ds)))))
        | _ \<Rightarrow> Panic)"

definition on_transaction_end ::
  "CommitmentPointProvider \<Rightarrow> u32 \<Rightarrow> Txid \<Rightarrow> BlockDecodeState \<Rightarrow> (BlockDecodeState, Status) result" where
  "on_transaction_end pp locktime txid ds =
     and_then (confirm_funding txid ds) (\<lambda>ds.
     and_then
       (case closing_tx ds of
          None \<Rightarrow> Ok ds
        | Some tx \<Rightarrow> classify_close pp txid (tx\<lparr>lock_time := locktime\<rparr>) (ds\<lparr>closing_tx := None\<rparr>)) (\<lambda>ds.
     fold_ok (\<lambda>(vout, i). add_change (HTLCOutputSpent vout (outpoint txid i))) (spent_htlc_outputs ds)
       (ds\<lparr>spent_htlc_outputs := []\<rparr>)))"

datatype PushEvent =
    BlockStart BlockHash
  | TransactionStart u32
  | TransactionInput TxIn
  | TransactionOutput TxOut
  | TransactionEnd u32 Txid
  | BlockEnd

fun push_event :: "CommitmentPointProvider \<Rightarrow> PushEvent \<Rightarrow> PushState \<Rightarrow> (PushState, Status) result" where
  "push_event pp (BlockStart hash) = on_block_start hash"
| "push_event pp (TransactionStart version) = when_ready (on_transaction_start version)"
| "push_event pp (TransactionInput inp) = when_ready (on_transaction_input inp)"
| "push_event pp (TransactionOutput out) = when_ready (on_transaction_output out)"
| "push_event pp (TransactionEnd locktime txid) = when_ready (on_transaction_end pp locktime txid)"
| "push_event pp BlockEnd = Ok"

definition transaction_events :: "(Transaction \<Rightarrow> Txid) \<Rightarrow> Transaction \<Rightarrow> PushEvent list" where
  "transaction_events txid_of tx =
     TransactionStart (tx_version tx) # map TransactionInput (tx_input tx) @ map TransactionOutput (tx_output tx)
     @ [TransactionEnd (lock_time tx) (txid_of tx)]"

section \<open>The monitor\<close>

record ChainMonitor =
  mon_funding_outpoint :: OutPoint
  mon_state :: State
  mon_decode_state :: "BlockDecodeState option"

definition monitor_new :: "OutPoint \<Rightarrow> u32 \<Rightarrow> ChainMonitor" where
  "monitor_new out chain_height =
     \<lparr>mon_funding_outpoint = out,
      mon_state = \<lparr>ms_height = chain_height, funding_txids = [], funding_vouts = [], funding_inputs = {},
        funding_height = None, ms_funding_outpoint = None, funding_double_spent_height = None,
        mutual_closing_height = None, unilateral_closing_height = None, closing_outpoints = None,
        closing_swept_height = None, our_output_swept_height = None, saw_block = False, saw_forget_channel = False\<rparr>,
      mon_decode_state = None\<rparr>"

definition add_funding_outpoint :: "OutPoint \<Rightarrow> ChainMonitor \<Rightarrow> (ChainMonitor, Status) result" where
  "add_funding_outpoint out m =
     (let s = mon_state m in
      and_then (assert_that (funding_txids s = [])) (\<lambda>_.
      and_then (assert_that (length (funding_txids s) = length (funding_vouts s))) (\<lambda>_.
      Ok (m\<lparr>mon_state := s\<lparr>funding_txids := funding_txids s @ [op_txid out],
                           funding_vouts := funding_vouts s @ [op_vout out]\<rparr>\<rparr>))))"

definition replace_funding_outpoint :: "OutPoint \<Rightarrow> ChainMonitor \<Rightarrow> ChainMonitor" where
  "replace_funding_outpoint out m =
     m\<lparr>mon_funding_outpoint := out,
       mon_state := (mon_state m)\<lparr>funding_txids := [op_txid out], funding_vouts := [op_vout out],
         funding_height := None, funding_double_spent_height := None\<rparr>\<rparr>"

definition add_funding_inputs :: "Transaction \<Rightarrow> ChainMonitor \<Rightarrow> ChainMonitor" where
  "add_funding_inputs tx m =
     m\<lparr>mon_state := (mon_state m)\<lparr>funding_inputs :=
         funding_inputs (mon_state m) \<union> set (map previous_output (tx_input tx))\<rparr>\<rparr>"

definition add_funding :: "(Transaction \<Rightarrow> Txid) \<Rightarrow> Transaction \<Rightarrow> u32 \<Rightarrow> ChainMonitor \<Rightarrow> (ChainMonitor, Status) result" where
  "add_funding txid_of tx vout m =
     (let s = mon_state m in
      and_then (assert_that (funding_txids s = [])) (\<lambda>_.
      and_then (assert_that (length (funding_txids s) = length (funding_vouts s))) (\<lambda>_.
      Ok (m\<lparr>mon_state := s\<lparr>funding_txids := funding_txids s @ [txid_of tx], funding_vouts := funding_vouts s @ [vout],
           funding_inputs := funding_inputs s \<union> set (map previous_output (tx_input tx))\<rparr>\<rparr>))))"

definition as_chain_state :: "ChainMonitor \<Rightarrow> ChainState" where
  "as_chain_state m =
     (let s = mon_state m; depth = (\<lambda>h. case h of None \<Rightarrow> 0 | Some h \<Rightarrow> ms_height s + 1 - h)
      in \<lparr>current_height = ms_height s, funding_depth = depth (funding_height s),
          funding_double_spent_depth = depth (funding_double_spent_height s),
          closing_depth = depth (case mutual_closing_height s of None \<Rightarrow> unilateral_closing_height s | h \<Rightarrow> h),
          splice_pending = False\<rparr>)"

definition monitor_funding_depth :: "ChainMonitor \<Rightarrow> u32" where
  "monitor_funding_depth m = depth_of (mon_state m) (funding_height (mon_state m))"

definition monitor_funding_double_spent_depth :: "ChainMonitor \<Rightarrow> u32" where
  "monitor_funding_double_spent_depth m = depth_of (mon_state m) (funding_double_spent_height (mon_state m))"

definition monitor_closing_depth :: "ChainMonitor \<Rightarrow> u32" where
  "monitor_closing_depth m =
     depth_of (mon_state m)
       (case unilateral_closing_height (mon_state m) of None \<Rightarrow> mutual_closing_height (mon_state m) | h \<Rightarrow> h)"

definition monitor_forget_channel :: "ChainMonitor \<Rightarrow> ChainMonitor" where
  "monitor_forget_channel m = m\<lparr>mon_state := (mon_state m)\<lparr>saw_forget_channel := True\<rparr>\<rparr>"

definition push_transactions ::
  "CommitmentPointProvider \<Rightarrow> (Transaction \<Rightarrow> Txid) \<Rightarrow> BlockHash \<Rightarrow> Transaction list \<Rightarrow> State \<Rightarrow>
   (State \<times> BlockDecodeState, Status) result" where
  "push_transactions pp txid_of hash txs s =
     (let s = s\<lparr>saw_block := True\<rparr> in
      and_then (fold_ok (push_event pp) (concat (map (transaction_events txid_of) txs))
                  (True, decode_state_new s (Some hash))) (\<lambda>(_, ds). Ok (s, ds)))"

definition on_add_block ::
  "CommitmentPointProvider \<Rightarrow> (Transaction \<Rightarrow> Txid) \<Rightarrow> Transaction list \<Rightarrow> BlockHash \<Rightarrow> ChainMonitor \<Rightarrow>
   (ChainMonitor \<times> OutPoint list \<times> OutPoint list, Status) result" where
  "on_add_block pp txid_of txs hash m =
     and_then (push_transactions pp txid_of hash txs (mon_state m)) (\<lambda>(s, ds).
     and_then (assert_that (ds_block_hash ds = Some hash)) (\<lambda>_.
     and_then (on_add_block_end s (ds_changes ds)) (\<lambda>(s, adds, removes).
     Ok (m\<lparr>mon_state := s\<rparr>, adds, removes))))"

definition on_remove_block ::
  "CommitmentPointProvider \<Rightarrow> (Transaction \<Rightarrow> Txid) \<Rightarrow> Transaction list \<Rightarrow> BlockHash \<Rightarrow> ChainMonitor \<Rightarrow>
   (ChainMonitor \<times> OutPoint list \<times> OutPoint list, Status) result" where
  "on_remove_block pp txid_of txs hash m =
     and_then (push_transactions pp txid_of hash txs (mon_state m)) (\<lambda>(s, ds).
     and_then (assert_that (ds_block_hash ds = Some hash)) (\<lambda>_.
     and_then (on_remove_block_end s (ds_changes ds)) (\<lambda>(s, adds, removes).
     Ok (m\<lparr>mon_state := s\<rparr>, adds, removes))))"

text \<open>The end of a streamed block, whose events were pushed before.\<close>

definition streamed_block_end ::
  "(State \<Rightarrow> StateChange list \<Rightarrow> (Changed, Status) result) \<Rightarrow> BlockHash \<Rightarrow> ChainMonitor \<Rightarrow>
   (ChainMonitor \<times> OutPoint list \<times> OutPoint list, Status) result" where
  "streamed_block_end finish hash m =
     (let ds = mon_decode_state m; m = m\<lparr>mon_decode_state := None\<rparr>
      in if \<not> saw_block (mon_state m) then Ok (m, [], [])
         else
           and_then (expect ds) (\<lambda>ds.
           and_then (assert_that (ds_block_hash ds = Some hash)) (\<lambda>_.
           and_then (finish (mon_state m) (ds_changes ds)) (\<lambda>(s, adds, removes).
           Ok (m\<lparr>mon_state := s\<rparr>, adds, removes)))))"

definition on_add_streamed_block_end ::
  "BlockHash \<Rightarrow> ChainMonitor \<Rightarrow> (ChainMonitor \<times> OutPoint list \<times> OutPoint list, Status) result" where
  "on_add_streamed_block_end = streamed_block_end on_add_block_end"

definition on_remove_streamed_block_end ::
  "BlockHash \<Rightarrow> ChainMonitor \<Rightarrow> (ChainMonitor \<times> OutPoint list \<times> OutPoint list, Status) result" where
  "on_remove_streamed_block_end = streamed_block_end on_remove_block_end"

definition on_push :: "CommitmentPointProvider \<Rightarrow> PushEvent \<Rightarrow> ChainMonitor \<Rightarrow> (ChainMonitor, Status) result" where
  "on_push pp event m =
     (let s = mon_state m;
          ds = (case mon_decode_state m of None \<Rightarrow> decode_state_new s None | Some ds \<Rightarrow> ds)
      in and_then (push_event pp event (saw_block s, ds)) (\<lambda>(saw, ds).
         Ok (m\<lparr>mon_state := s\<lparr>saw_block := saw\<rparr>, mon_decode_state := Some ds\<rparr>)))"

end
