(* ===== verification/Tracker.thy ===== *)
theory Tracker
  imports Monitor Validators
begin

text \<open>
  The chain tracker of \<^verbatim>\<open>vls-core/src/chain/tracker.rs\<close> and the three messages of
  \<^verbatim>\<open>vls-protocol-signer/src/handler.rs\<close> that drive it. The tracker keeps the last headers, checks
  that a block extends the tip and is attested, and forwards the block to its listeners, each with the
  outpoints it watches.

  The tracker is generic in its listeners: \<open>'l\<close> is the type of a listener and the record
  \<open>ChainListener\<close> holds the operations of the trait; the monitor of a channel is the instance at the
  end. The hash of a header, the arithmetic of targets and the verification of proofs are functions of
  libraries, collected in \<open>ChainLib\<close>; \<open>'d\<close> is the state of the streaming decoder.
\<close>

section \<open>Headers and proofs\<close>

datatype TrackerError =
    InvalidChain
  | OrphanBlock
  | InvalidBlock
  | BlockDecodeError
  | ReorgTooDeep
  | InvalidProof

type_synonym FilterHeader = "256 word"
type_synonym Target = "256 word"

record BlockHeader =
  bh_version :: u32
  prev_blockhash :: BlockHash
  merkle_root :: "256 word"
  bh_time :: u32
  bits :: u32
  nonce :: u32

type_synonym Headers = "BlockHeader \<times> FilterHeader"

text \<open>The transactions of a compact proof are those the proof was made for.\<close>

datatype ProofType =
    FilterProof "Transaction list"
  | BlockProof
  | ExternalBlock

definition is_external :: "ProofType \<Rightarrow> bool" where
  "is_external p \<longleftrightarrow> p = ExternalBlock"

record TxoProof =
  proof_type :: ProofType
  attestations :: "PublicKey list"

record 'd ChainLib =
  block_hash :: "BlockHeader \<Rightarrow> BlockHash"
  valid_pow :: "BlockHeader \<Rightarrow> Target \<Rightarrow> bool"
  from_compact :: "u32 \<Rightarrow> Target"
  to_compact_lossy :: "Target \<Rightarrow> u32"
  min_transition_threshold :: "Target \<Rightarrow> Target"
  max_transition_threshold :: "Network \<Rightarrow> Target \<Rightarrow> Target"
  filter_header :: "TxoProof \<Rightarrow> FilterHeader"
  verify_proof ::
    "TxoProof \<Rightarrow> u32 \<Rightarrow> BlockHeader \<Rightarrow> BlockHash option \<Rightarrow> FilterHeader \<Rightarrow> OutPoint set \<Rightarrow> (unit, VerifyError) result"
  genesis_header :: "Network \<Rightarrow> BlockHeader"
  get_latest_checkpoint :: "Network \<Rightarrow> (u32 \<times> FilterHeader \<times> BlockHeader) option"
  decoder_new :: 'd
  decode_next :: "u8 list \<Rightarrow> 'd \<Rightarrow> (PushEvent list \<times> 'd) option"
  decoder_finish :: "'d \<Rightarrow> bool"

definition target :: "'d ChainLib \<Rightarrow> BlockHeader \<Rightarrow> Target" where
  "target lib h = from_compact lib (bits h)"

definition max_target :: "Network \<Rightarrow> (Target, TrackerError) result" where
  "max_target network =
     (case network of
        Regtest \<Rightarrow> Ok (push_bit 128 (push_bit (128 - 24) 0x7fffff))
      | Testnet \<Rightarrow> Ok (push_bit 128 (push_bit (128 - 48) 0xffff))
      | Bitcoin \<Rightarrow> Ok (push_bit 128 (push_bit (128 - 48) 0xffff))
      | _ \<Rightarrow> Panic)"

definition validate_retarget :: "'d ChainLib \<Rightarrow> Target \<Rightarrow> Target \<Rightarrow> Network \<Rightarrow> (unit, TrackerError) result" where
  "validate_retarget lib prev_target new_target network =
     (let round_trip_target = (\<lambda>t. from_compact lib (to_compact_lossy lib t));
          min = round_trip_target (min_transition_threshold lib prev_target);
          max = round_trip_target (max_transition_threshold lib network prev_target)
      in and_then (max_target network) (\<lambda>chain_max.
         checks
           [err_if (new_target > chain_max) InvalidBlock,
            err_if (new_target < min) InvalidChain,
            err_if (new_target > max) InvalidChain]))"

section \<open>Listeners and the tracker\<close>

record 'l ChainListener =
  listener_key :: "'l \<Rightarrow> OutPoint"
  listener_on_add_block :: "Transaction list \<Rightarrow> BlockHash \<Rightarrow> 'l \<Rightarrow> ('l \<times> OutPoint list \<times> OutPoint list, Status) result"
  listener_on_add_streamed_block_end :: "BlockHash \<Rightarrow> 'l \<Rightarrow> ('l \<times> OutPoint list \<times> OutPoint list, Status) result"
  listener_on_remove_block :: "Transaction list \<Rightarrow> BlockHash \<Rightarrow> 'l \<Rightarrow> ('l \<times> OutPoint list \<times> OutPoint list, Status) result"
  listener_on_remove_streamed_block_end :: "BlockHash \<Rightarrow> 'l \<Rightarrow> ('l \<times> OutPoint list \<times> OutPoint list, Status) result"
  listener_on_push :: "PushEvent \<Rightarrow> 'l \<Rightarrow> ('l, Status) result"

record ListenSlot =
  txid_watches :: "Txid set"
  watches :: "OutPoint set"
  seen :: "OutPoint set"

record 'd StreamDecodeState =
  decoder :: 'd
  sd_offset :: u32
  sd_block_hash :: BlockHash

record ('l, 'd) ChainTracker =
  headers :: "Headers list"
  tip :: Headers
  tracker_height :: u32
  tracker_network :: Network
  listeners :: "(OutPoint \<times> 'l \<times> ListenSlot) list"
  chain_filter :: PolicyFilter
  decode_state :: "'d StreamDecodeState option"
  trusted_oracle_pubkeys :: "PublicKey list"
  allow_deep_reorgs :: bool

definition MAX_REORG_SIZE :: nat where "MAX_REORG_SIZE = 100"

definition DIFFCHANGE_INTERVAL :: u32 where "DIFFCHANGE_INTERVAL = 2016"

definition restore_tracker ::
  "Headers list \<Rightarrow> Headers \<Rightarrow> u32 \<Rightarrow> Network \<Rightarrow> (OutPoint \<times> 'l \<times> ListenSlot) list \<Rightarrow> PolicyFilter \<Rightarrow> PublicKey list \<Rightarrow>
   ('l, 'd) ChainTracker" where
  "restore_tracker hs t h network ls f oracles =
     \<lparr>headers = hs, tip = t, tracker_height = h, tracker_network = network, listeners = ls, chain_filter = f,
      decode_state = None, trusted_oracle_pubkeys = oracles, allow_deep_reorgs = False\<rparr>"

definition tracker_new ::
  "'d ChainLib \<Rightarrow> Network \<Rightarrow> u32 \<Rightarrow> Headers \<Rightarrow> PolicyFilter \<Rightarrow> PublicKey list \<Rightarrow> (('l, 'd) ChainTracker, TrackerError) result" where
  "tracker_new lib network h t f oracles =
     and_then (err_if (\<not> valid_pow lib (fst t) (target lib (fst t))) InvalidBlock) (\<lambda>_.
     Ok \<lparr>headers = [], tip = t, tracker_height = h, tracker_network = network, listeners = [], chain_filter = f,
         decode_state = None, trusted_oracle_pubkeys = oracles, allow_deep_reorgs = False\<rparr>)"

definition from_checkpoint ::
  "'d ChainLib \<Rightarrow> Network \<Rightarrow> BlockHeader \<Rightarrow> FilterHeader \<Rightarrow> u32 \<Rightarrow> PolicyFilter \<Rightarrow> PublicKey list \<Rightarrow>
   (('l, 'd) ChainTracker, TrackerError) result" where
  "from_checkpoint lib network header fh h f oracles = unwrap (tracker_new lib network h (header, fh) f oracles)"

definition from_genesis ::
  "'d ChainLib \<Rightarrow> Network \<Rightarrow> PolicyFilter \<Rightarrow> PublicKey list \<Rightarrow> (('l, 'd) ChainTracker, TrackerError) result" where
  "from_genesis lib network f oracles = from_checkpoint lib network (genesis_header lib network) 0 0 f oracles"

definition for_network ::
  "'d ChainLib \<Rightarrow> Network \<Rightarrow> PolicyFilter \<Rightarrow> PublicKey list \<Rightarrow> (('l, 'd) ChainTracker, TrackerError) result" where
  "for_network lib network f oracles =
     (case get_latest_checkpoint lib network of
        Some (h, fh, header) \<Rightarrow> from_checkpoint lib network header fh h f oracles
      | None \<Rightarrow> from_genesis lib network f oracles)"

definition set_allow_deep_reorgs :: "bool \<Rightarrow> ('l, 'd) ChainTracker \<Rightarrow> ('l, 'd) ChainTracker" where
  "set_allow_deep_reorgs allow t = t\<lparr>allow_deep_reorgs := allow\<rparr>"

section \<open>Watches\<close>

definition add_listener :: "'l ChainListener \<Rightarrow> 'l \<Rightarrow> Txid set \<Rightarrow> ('l, 'd) ChainTracker \<Rightarrow> ('l, 'd) ChainTracker" where
  "add_listener ops l initial_txid_watches t =
     t\<lparr>listeners := AList.update (listener_key ops l)
         (l, \<lparr>txid_watches = initial_txid_watches, watches = {}, seen = {}\<rparr>) (listeners t)\<rparr>"

definition restore_listener :: "OutPoint \<Rightarrow> 'l \<Rightarrow> ListenSlot \<Rightarrow> ('l, 'd) ChainTracker \<Rightarrow> ('l, 'd) ChainTracker" where
  "restore_listener key l slot t = t\<lparr>listeners := AList.update key (l, slot) (listeners t)\<rparr>"

definition remove_listener :: "OutPoint \<Rightarrow> ('l, 'd) ChainTracker \<Rightarrow> ('l, 'd) ChainTracker" where
  "remove_listener key t = t\<lparr>listeners := AList.delete key (listeners t)\<rparr>"

definition add_listener_watches ::
  "OutPoint \<Rightarrow> OutPoint set \<Rightarrow> ('l, 'd) ChainTracker \<Rightarrow> (('l, 'd) ChainTracker, 'e) result" where
  "add_listener_watches key new_watches t =
     and_then (expect (map_of (listeners t) key)) (\<lambda>(l, slot).
     Ok (t\<lparr>listeners := AList.update key (l, slot\<lparr>watches := watches slot \<union> new_watches\<rparr>) (listeners t)\<rparr>))"

definition get_all_watches :: "bool \<Rightarrow> ('l, 'd) ChainTracker \<Rightarrow> Txid set \<times> OutPoint set" where
  "get_all_watches include_reverse t =
     (\<Union> (set (map (\<lambda>(_, _, slot). txid_watches slot) (listeners t))),
      \<Union> (set (map (\<lambda>(_, _, slot). if include_reverse then watches slot \<union> seen slot else watches slot) (listeners t))))"

definition watch_added :: "OutPoint list \<Rightarrow> OutPoint list \<Rightarrow> ListenSlot \<Rightarrow> ListenSlot" where
  "watch_added adds removes slot =
     slot\<lparr>watches := (watches slot \<union> set adds) - set removes, seen := seen slot \<union> set removes\<rparr>"

definition watch_removed :: "OutPoint list \<Rightarrow> OutPoint list \<Rightarrow> ListenSlot \<Rightarrow> ListenSlot" where
  "watch_removed adds removes slot =
     slot\<lparr>watches := (watches slot \<union> set removes) - set adds, seen := seen slot - set removes\<rparr>"

definition notify ::
  "('l \<Rightarrow> ('l \<times> OutPoint list \<times> OutPoint list, Status) result) \<Rightarrow> (OutPoint list \<Rightarrow> OutPoint list \<Rightarrow> ListenSlot \<Rightarrow> ListenSlot) \<Rightarrow>
   OutPoint \<times> 'l \<times> ListenSlot \<Rightarrow> (OutPoint \<times> 'l \<times> ListenSlot, TrackerError) result" where
  "notify tell update_slot = (\<lambda>(key, l, slot).
     and_then (unwrap (tell l)) (\<lambda>(l', adds, removes). Ok (key, l', update_slot adds removes slot)))"

definition notify_listeners_add ::
  "'l ChainListener \<Rightarrow> Transaction list option \<Rightarrow> BlockHash \<Rightarrow> (OutPoint \<times> 'l \<times> ListenSlot) list \<Rightarrow>
   ((OutPoint \<times> 'l \<times> ListenSlot) list, TrackerError) result" where
  "notify_listeners_add ops txs hash =
     map_ok (notify
       (case txs of Some txs \<Rightarrow> listener_on_add_block ops txs hash | None \<Rightarrow> listener_on_add_streamed_block_end ops hash)
       watch_added)"

definition notify_listeners_remove ::
  "'l ChainListener \<Rightarrow> Transaction list option \<Rightarrow> BlockHash \<Rightarrow> (OutPoint \<times> 'l \<times> ListenSlot) list \<Rightarrow>
   ((OutPoint \<times> 'l \<times> ListenSlot) list, TrackerError) result" where
  "notify_listeners_remove ops txs hash =
     map_ok (notify
       (case txs of Some txs \<Rightarrow> listener_on_remove_block ops txs hash | None \<Rightarrow> listener_on_remove_streamed_block_end ops hash)
       watch_removed)"

section \<open>Streamed blocks\<close>

definition do_push ::
  "'l ChainListener \<Rightarrow> PushEvent \<Rightarrow> (OutPoint \<times> 'l \<times> ListenSlot) list \<Rightarrow> ((OutPoint \<times> 'l \<times> ListenSlot) list, TrackerError) result" where
  "do_push ops event =
     map_ok (\<lambda>(key, l, slot). and_then (unwrap (listener_on_push ops event l)) (\<lambda>l'. Ok (key, l', slot)))"

fun push_to_listeners ::
  "'l ChainListener \<Rightarrow> BlockHash \<Rightarrow> PushEvent \<Rightarrow> (OutPoint \<times> 'l \<times> ListenSlot) list \<Rightarrow>
   ((OutPoint \<times> 'l \<times> ListenSlot) list, TrackerError) result" where
  "push_to_listeners ops hash (BlockStart h) ls =
     and_then (assert_that (h = hash)) (\<lambda>_. do_push ops (BlockStart h) ls)"
| "push_to_listeners ops hash event ls = do_push ops event ls"

definition block_chunk ::
  "'d ChainLib \<Rightarrow> 'l ChainListener \<Rightarrow> BlockHash \<Rightarrow> u32 \<Rightarrow> u8 list \<Rightarrow> ('l, 'd) ChainTracker \<Rightarrow>
   (('l, 'd) ChainTracker, TrackerError) result" where
  "block_chunk lib ops hash offset chunk t =
     and_then (assert_that (offset = 0 \<longrightarrow> decode_state t = None)) (\<lambda>_.
     and_then (expect (if offset = 0 then Some \<lparr>decoder = decoder_new lib, sd_offset = 0, sd_block_hash = hash\<rparr> else decode_state t)) (\<lambda>ds.
     and_then (assert_that (sd_block_hash ds = hash)) (\<lambda>_.
     and_then (assert_that (sd_offset ds = offset)) (\<lambda>_.
     and_then (expect (decode_next lib chunk (decoder ds))) (\<lambda>(events, decoder').
     and_then (fold_ok (push_to_listeners ops hash) events (listeners t)) (\<lambda>ls.
     Ok (t\<lparr>listeners := ls,
           decode_state := Some (ds\<lparr>decoder := decoder', sd_offset := sd_offset ds + of_nat (length chunk)\<rparr>)\<rparr>)))))))"

definition maybe_finish_decoding_block ::
  "'d ChainLib \<Rightarrow> TxoProof \<Rightarrow> BlockHash \<Rightarrow> ('l, 'd) ChainTracker \<Rightarrow> (('l, 'd) ChainTracker, unit, TrackerError) outcome" where
  "maybe_finish_decoding_block lib p expected_block_hash t =
     attempt (assert_that (is_external (proof_type p) \<longleftrightarrow> decode_state t \<noteq> None)) t (\<lambda>_.
     let t' = t\<lparr>decode_state := None\<rparr>
     in case decode_state t of
          None \<Rightarrow> (Ok (), t')
        | Some ds \<Rightarrow>
            if \<not> decoder_finish lib (decoder ds) then (Err BlockDecodeError, t')
            else if sd_block_hash ds \<noteq> expected_block_hash then (Err BlockDecodeError, t')
            else (Ok (), t'))"

section \<open>Adding and removing a block\<close>

definition tracker_validate_block ::
  "'d ChainLib \<Rightarrow> u32 \<Rightarrow> BlockHash option \<Rightarrow> Headers \<Rightarrow> Headers \<Rightarrow> TxoProof \<Rightarrow> bool \<Rightarrow> ('l, 'd) ChainTracker \<Rightarrow>
   (unit, TrackerError) result" where
  "tracker_validate_block lib h external_block_hash prev_headers new_headers p is_remove t =
     (let header = fst new_headers; prev_header = fst prev_headers; network = tracker_network t in
      checks
        [err_if (prev_blockhash header \<noteq> block_hash lib prev_header) OrphanBlock,
         err_if (\<not> valid_pow lib header (target lib header)) InvalidBlock,
         (if network = Testnet \<and> Ok (target lib header) = max_target network \<and> bh_time header > bh_time prev_header + 60 * 20
          then Ok ()
          else if (h + 1) mod DIFFCHANGE_INTERVAL = 0
          then validate_retarget lib (target lib prev_header) (target lib header) network
          else err_if (bits header \<noteq> bits prev_header \<and> network \<noteq> Testnet) InvalidChain),
         (if snd prev_headers = 0 then Ok ()
          else map_err (\<lambda>_. InvalidProof)
            (validate_block (chain_filter t)
              (verify_proof lib p (h + 1) header external_block_hash (snd prev_headers) (snd (get_all_watches is_remove t)))
              (attestations p) (trusted_oracle_pubkeys t)))])"

definition add_block ::
  "'d ChainLib \<Rightarrow> 'l ChainListener \<Rightarrow> BlockHeader \<Rightarrow> TxoProof \<Rightarrow> ('l, 'd) ChainTracker \<Rightarrow>
   (('l, 'd) ChainTracker, unit, TrackerError) outcome" where
  "add_block lib ops header p t =
     (let message_block_hash = block_hash lib header in
      attempt_op (maybe_finish_decoding_block lib p message_block_hash t) (\<lambda>_ t.
      let new_headers = (header, filter_header lib p);
          expected = (if is_external (proof_type p) then Some message_block_hash else None) in
      attempt (tracker_validate_block lib (tracker_height t) expected (tip t) new_headers p False t) t (\<lambda>_.
      attempt
        (case proof_type p of
           FilterProof txs \<Rightarrow> notify_listeners_add ops (Some txs) message_block_hash (listeners t)
         | BlockProof \<Rightarrow> Err InvalidProof
         | ExternalBlock \<Rightarrow> notify_listeners_add ops None message_block_hash (listeners t)) t (\<lambda>ls.
      (Ok (), t\<lparr>listeners := ls, headers := tip t # take (MAX_REORG_SIZE - 1) (headers t), tip := new_headers,
               tracker_height := tracker_height t + 1\<rparr>)))))"

text \<open>The hash that the code names the tip's is the one of the supplied previous header.\<close>

definition remove_block ::
  "'d ChainLib \<Rightarrow> 'l ChainListener \<Rightarrow> TxoProof \<Rightarrow> Headers \<Rightarrow> ('l, 'd) ChainTracker \<Rightarrow>
   (('l, 'd) ChainTracker, BlockHeader, TrackerError) outcome" where
  "remove_block lib ops p supplied_prev_headers t =
     attempt (err_if (headers t = [] \<and> \<not> allow_deep_reorgs t) ReorgTooDeep) t (\<lambda>_.
     attempt (err_if (headers t \<noteq> [] \<and> fst supplied_prev_headers \<noteq> fst (hd (headers t))) InvalidChain) t (\<lambda>_.
     attempt (err_if (headers t \<noteq> [] \<and> snd supplied_prev_headers \<noteq> snd (hd (headers t))) InvalidChain) t (\<lambda>_.
     let t = t\<lparr>headers := tl (headers t)\<rparr>; tip_block_hash = block_hash lib (fst supplied_prev_headers) in
     attempt_op (maybe_finish_decoding_block lib p tip_block_hash t) (\<lambda>_ t.
     let expected = (if is_external (proof_type p) then Some tip_block_hash else None) in
     attempt (tracker_validate_block lib (tracker_height t - 1) expected supplied_prev_headers (tip t) p True t) t (\<lambda>_.
     attempt
       (case proof_type p of
          FilterProof txs \<Rightarrow> notify_listeners_remove ops (Some txs) tip_block_hash (listeners t)
        | BlockProof \<Rightarrow> Err InvalidProof
        | ExternalBlock \<Rightarrow> notify_listeners_remove ops None tip_block_hash (listeners t)) t (\<lambda>ls.
     (Ok (fst (tip t)), t\<lparr>listeners := ls, tip := supplied_prev_headers, tracker_height := tracker_height t - 1\<rparr>)))))))"

section \<open>The monitor of a channel as a listener\<close>

definition monitor_listener :: "(Transaction \<Rightarrow> Txid) \<Rightarrow> (CommitmentPointProvider \<times> ChainMonitor) ChainListener" where
  "monitor_listener txid_of =
     \<lparr>listener_key = (\<lambda>(pp, m). mon_funding_outpoint m),
      listener_on_add_block = (\<lambda>txs hash (pp, m). map_result (apfst (Pair pp)) id (on_add_block pp txid_of txs hash m)),
      listener_on_add_streamed_block_end = (\<lambda>hash (pp, m). map_result (apfst (Pair pp)) id (on_add_streamed_block_end hash m)),
      listener_on_remove_block = (\<lambda>txs hash (pp, m). map_result (apfst (Pair pp)) id (on_remove_block pp txid_of txs hash m)),
      listener_on_remove_streamed_block_end =
        (\<lambda>hash (pp, m). map_result (apfst (Pair pp)) id (on_remove_streamed_block_end hash m)),
      listener_on_push = (\<lambda>event (pp, m). map_result (Pair pp) id (on_push pp event m))\<rparr>"

section \<open>The messages of the handler\<close>

text \<open>
  An orphan block is answered with an error the other side can act on; every other failure, also one of
  the persister, ends the signer. A block of which no proof came is refused before the tracker is read.
\<close>

definition handle_tip_info :: "'d ChainLib \<Rightarrow> ('l, 'd) ChainTracker \<Rightarrow> u32 \<times> BlockHash" where
  "handle_tip_info lib t = (tracker_height t, block_hash lib (fst (tip t)))"

definition handle_forward_watches :: "('l, 'd) ChainTracker \<Rightarrow> Txid set \<times> OutPoint set" where
  "handle_forward_watches t = get_all_watches False t"

definition handle_reverse_watches :: "('l, 'd) ChainTracker \<Rightarrow> Txid set \<times> OutPoint set" where
  "handle_reverse_watches t = get_all_watches True t"

datatype AddBlockReply = AddBlockReply | SignerErrorOrphanBlock

datatype ChainMessage =
    AddBlock BlockHeader "TxoProof option"
  | RemoveBlock "TxoProof option" Headers
  | BlockChunk BlockHash u32 "u8 list"

definition handle_add_block ::
  "'d ChainLib \<Rightarrow> 'l ChainListener \<Rightarrow> (('l, 'd) ChainTracker \<Rightarrow> bool) \<Rightarrow> BlockHeader \<Rightarrow> TxoProof option \<Rightarrow>
   ('l, 'd) ChainTracker \<Rightarrow> (('l, 'd) ChainTracker, AddBlockReply, Status) outcome" where
  "handle_add_block lib ops persists header unspent_proof t =
     attempt (ok_or unspent_proof InvalidArgument) t (\<lambda>p.
     case add_block lib ops header p t of
       (Ok _, t') \<Rightarrow> if persists t' then (Ok AddBlockReply, t') else (Panic, t')
     | (Err OrphanBlock, t') \<Rightarrow> (Ok SignerErrorOrphanBlock, t')
     | (Err _, t') \<Rightarrow> (Panic, t')
     | (Panic, t') \<Rightarrow> (Panic, t'))"

definition handle_remove_block ::
  "'d ChainLib \<Rightarrow> 'l ChainListener \<Rightarrow> (('l, 'd) ChainTracker \<Rightarrow> bool) \<Rightarrow> TxoProof option \<Rightarrow> Headers \<Rightarrow>
   ('l, 'd) ChainTracker \<Rightarrow> (('l, 'd) ChainTracker, unit, Status) outcome" where
  "handle_remove_block lib ops persists unspent_proof prev_headers t =
     attempt (ok_or unspent_proof InvalidArgument) t (\<lambda>p.
     case remove_block lib ops p prev_headers t of
       (Ok _, t') \<Rightarrow> if persists t' then (Ok (), t') else (Panic, t')
     | (_, t') \<Rightarrow> (Panic, t'))"

definition handle_block_chunk ::
  "'d ChainLib \<Rightarrow> 'l ChainListener \<Rightarrow> BlockHash \<Rightarrow> u32 \<Rightarrow> u8 list \<Rightarrow> ('l, 'd) ChainTracker \<Rightarrow>
   (('l, 'd) ChainTracker, unit, Status) outcome" where
  "handle_block_chunk lib ops hash offset chunk t =
     (case block_chunk lib ops hash offset chunk t of Ok t' \<Rightarrow> (Ok (), t') | _ \<Rightarrow> (Panic, t))"

end
