(* ===== verification/MonitorSafety.thy ===== *)
theory MonitorSafety
  imports Monitor
begin

text \<open>
  What a chain monitor guarantees. The comments of the source say that the \<^verbatim>\<open>unwrap\<close>s on the
  closing outputs are safe because of how the push listener decodes a block; that is shown here for
  blocks that are added, and refuted for blocks that are removed.
\<close>

section \<open>Well-formed states\<close>

definition closing_ok :: "State \<Rightarrow> ClosingOutpoints \<Rightarrow> bool" where
  "closing_ok s c \<longleftrightarrow>
     length (htlc_spents c) = length (htlc_outputs c) \<and> co_txid c \<notin> set (funding_txids s)
     \<and> (\<forall>out. ms_funding_outpoint s = Some out \<longrightarrow> op_txid out \<noteq> co_txid c)"

definition state_ok :: "State \<Rightarrow> bool" where
  "state_ok s \<longleftrightarrow>
     length (funding_txids s) = length (funding_vouts s)
     \<and> (\<forall>c. closing_outpoints s = Some c \<longrightarrow> closing_ok s c)"

text \<open>When a change can be applied, and keeps the state well formed.\<close>

fun applicable :: "State \<Rightarrow> StateChange \<Rightarrow> bool" where
  "applicable s (FundingConfirmed out) \<longleftrightarrow> op_txid out \<in> set (funding_txids s)"
| "applicable s (FundingInputSpent out) \<longleftrightarrow> True"
| "applicable s (UnilateralCloseConfirmed txid funding our_index htlcs) \<longleftrightarrow>
     txid \<notin> set (funding_txids s) \<and> (\<forall>out. ms_funding_outpoint s = Some out \<longrightarrow> op_txid out \<noteq> txid)"
| "applicable s (MutualCloseConfirmed txid funding) \<longleftrightarrow> True"
| "applicable s (OurOutputSpent vout) \<longleftrightarrow>
     (\<exists>c. closing_outpoints s = Some c \<and> map_option fst (our_output c) = Some vout)"
| "applicable s (HTLCOutputSpent vout second) \<longleftrightarrow> (\<exists>c. closing_outpoints s = Some c \<and> vout \<in> set (htlc_outputs c))"
| "applicable s (SecondLevelHTLCOutputSpent out) \<longleftrightarrow>
     (\<exists>c. closing_outpoints s = Some c \<and> includes_second_level_htlc_output c out)"

lemma index_of_eq_Some: "index_of x xs = Some i \<Longrightarrow> i < length xs \<and> xs ! i = x"
  by (induction xs arbitrary: i) (auto split: if_splits)

lemma index_of_mem: "x \<in> set xs \<longleftrightarrow> (\<exists>i. index_of x xs = Some i)"
  by (induction xs) auto

lemma set_first_spent_total:
  "(\<exists>h \<in> set hs. sl_outpoint h = out) \<Longrightarrow> \<exists>hs'. set_first_spent out b hs = Some hs'"
  by (induction hs) auto

text \<open>What the applicability of a change depends on, and what a change makes of it.\<close>

definition shape :: "State \<Rightarrow> Txid list \<times> u32 list \<times> OutPoint set \<times> OutPoint option \<times> ClosingOutpoints option" where
  "shape s = (funding_txids s, funding_vouts s, funding_inputs s, ms_funding_outpoint s, closing_outpoints s)"

lemma forward_total:
  assumes "state_ok s" "applicable s change"
  shows "\<exists>s' adds' removes'. apply_forward_change change (s, adds, removes) = (Ok (s', adds', removes') :: (_, Status) result)
    \<and> state_ok s' \<and> funding_txids s' = funding_txids s \<and> funding_vouts s' = funding_vouts s"
  using assms
proof (cases change)
  case (HTLCOutputSpent vout second)
  with assms obtain c i where c: "closing_outpoints s = Some c" "index_of vout (htlc_outputs c) = Some i"
    by (auto simp: index_of_mem)
  with assms index_of_eq_Some [OF c(2)] HTLCOutputSpent show ?thesis
    by (auto simp: state_ok_def closing_ok_def set_htlc_output_spent_def add_second_level_htlc_output_def assert_that_def)
next
  case (SecondLevelHTLCOutputSpent out)
  with assms obtain c hs where "closing_outpoints s = Some c"
    "set_first_spent out True (second_level_htlc_outputs c) = Some hs"
    using set_first_spent_total by (fastforce simp: includes_second_level_htlc_output_def)
  with assms SecondLevelHTLCOutputSpent show ?thesis
    by (auto simp: state_ok_def closing_ok_def set_second_level_htlc_spent_def)
qed (auto simp: state_ok_def closing_ok_def closing_outpoints_new_def set_our_output_spent_def assert_that_def)

text \<open>A change has the same effect on the shape in two states of the same shape.\<close>

lemma map_result_and_then:
  "map_result f g (and_then r k) = (case r of Ok x \<Rightarrow> map_result f g (k x) | Err e \<Rightarrow> Err (g e) | Panic \<Rightarrow> Panic)"
  by (cases r) auto

lemma forward_shape:
  assumes "shape s = shape t"
  shows "map_result (apfst shape) (\<lambda>e. e) (apply_forward_change change (s, adds, removes) :: (_, Status) result)
    = map_result (apfst shape) (\<lambda>e. e) (apply_forward_change change (t, adds, removes))"
  using assms
  by (cases change) (simp_all add: shape_def map_result_and_then split: result.split)

lemma fold_forward_shape:
  assumes "shape s = shape t"
  shows "map_result (apfst shape) (\<lambda>e. e) (fold_ok apply_forward_change changes (s, adds, removes))
    = map_result (apfst shape) (\<lambda>e. e) (fold_ok apply_forward_change changes (t, adds, removes))"
  using assms
proof (induction changes arbitrary: s t adds removes)
  case (Cons change changes)
  from forward_shape [OF Cons.prems, of change adds removes] show ?case
    by (cases "apply_forward_change change (s, adds, removes)"; cases "apply_forward_change change (t, adds, removes)")
      (auto intro: Cons.IH)
qed simp

section \<open>Decoding never fails\<close>

text \<open>
  What was decoded so far can be replayed from the state that decoding started from, and the copy
  of the state is the result of the replay.
\<close>

definition decodes :: "State \<Rightarrow> BlockDecodeState \<Rightarrow> bool" where
  "decodes s0 ds \<longleftrightarrow>
     (\<exists>adds removes. fold_ok apply_forward_change (ds_changes ds) (s0, [], []) = Ok (ds_state ds, adds, removes))
     \<and> state_ok (ds_state ds) \<and> funding_txids (ds_state ds) = funding_txids s0
     \<and> funding_vouts (ds_state ds) = funding_vouts s0"

lemma forward_accumulates:
  "apply_forward_change change (s, adds, removes) =
   map_result (apsnd (map_prod ((@) adds) ((@) removes))) (\<lambda>e. e) (apply_forward_change change (s, [], []))"
  by (cases change) (simp_all add: map_result_and_then split: result.split)

lemma add_change_total:
  assumes "decodes s0 ds" "applicable (ds_state ds) change"
  shows "\<exists>s'. add_change change ds = Ok (ds\<lparr>ds_changes := ds_changes ds @ [change], ds_state := s'\<rparr>)
    \<and> decodes s0 (ds\<lparr>ds_changes := ds_changes ds @ [change], ds_state := s'\<rparr>)
    \<and> (\<exists>adds removes. apply_forward_change change (ds_state ds, [], []) = Ok (s', adds, removes))"
proof -
  obtain s' adds removes where step: "apply_forward_change change (ds_state ds, [], []) = Ok (s', adds, removes)"
    and ok: "state_ok s'" "funding_txids s' = funding_txids (ds_state ds)" "funding_vouts s' = funding_vouts (ds_state ds)"
    using forward_total [of "ds_state ds" change "[]" "[]"] assms unfolding decodes_def by blast
  moreover have "apply_forward_change change (ds_state ds, a, r) = Ok (s', a @ adds, r @ removes)" for a r
    by (subst forward_accumulates) (simp add: step)
  ultimately show ?thesis using assms(1) by (auto simp: add_change_def decodes_def fold_ok_append)
qed

text \<open>Spends of outputs leave the funding and the list of outputs as they are.\<close>

definition outputs_of :: "State \<Rightarrow> OutPoint option \<times> (Txid \<times> u32 list) option" where
  "outputs_of s = (ms_funding_outpoint s, map_option (\<lambda>c. (co_txid c, htlc_outputs c)) (closing_outpoints s))"

fun is_spend :: "StateChange \<Rightarrow> bool" where
  "is_spend (OurOutputSpent _) = True"
| "is_spend (HTLCOutputSpent _ _) = True"
| "is_spend (SecondLevelHTLCOutputSpent _) = True"
| "is_spend (FundingInputSpent _) = True"
| "is_spend _ = False"

lemma spend_outputs:
  assumes "apply_forward_change change (s, a, r) = Ok (s', a', r')" "is_spend change"
  shows "outputs_of s' = outputs_of s"
  using assms
  by (cases change) (auto simp: outputs_of_def result_simps set_our_output_spent_def set_htlc_output_spent_def
      add_second_level_htlc_output_def set_second_level_htlc_spent_def)

lemma add_spend_total:
  assumes "decodes s0 ds" "applicable (ds_state ds) change" "is_spend change"
  shows "\<exists>changes' s'. add_change change ds = Ok (ds\<lparr>ds_changes := changes', ds_state := s'\<rparr>)
    \<and> decodes s0 (ds\<lparr>ds_changes := changes', ds_state := s'\<rparr>) \<and> outputs_of s' = outputs_of (ds_state ds)"
  using add_change_total [OF assms(1,2)] spend_outputs [OF _ assms(3)] by blast

text \<open>The HTLC outputs that a transaction spends, which are recorded until its end.\<close>

definition recorded :: "State \<Rightarrow> (u32 \<times> u32) list \<Rightarrow> bool" where
  "recorded s spent \<longleftrightarrow> (\<forall>(vout, _) \<in> set spent. \<exists>txid vouts. snd (outputs_of s) = Some (txid, vouts) \<and> vout \<in> set vouts)"

lemma recorded_Nil [simp]: "recorded s []"
  by (simp add: recorded_def)

lemma recorded_cong: "outputs_of s = outputs_of s' \<Longrightarrow> recorded s spent = recorded s' spent"
  by (simp add: recorded_def)

lemma closing_change_total:
  assumes "decodes s0 ds" "recorded (ds_state ds) (spent_htlc_outputs ds)"
  shows "\<exists>changes' s' spent'. closing_change prev ds =
      Ok (ds\<lparr>ds_changes := changes', ds_state := s', spent_htlc_outputs := spent'\<rparr>)
    \<and> decodes s0 (ds\<lparr>ds_changes := changes', ds_state := s', spent_htlc_outputs := spent'\<rparr>)
    \<and> outputs_of s' = outputs_of (ds_state ds) \<and> recorded s' spent'
    \<and> (ms_funding_outpoint (ds_state ds) = Some prev \<longrightarrow> spent' = spent_htlc_outputs ds)"
proof (cases "closing_outpoints (ds_state ds)")
  case None
  with assms show ?thesis
    by (intro exI [of _ "ds_changes ds"] exI [of _ "ds_state ds"] exI [of _ "spent_htlc_outputs ds"])
      (simp add: closing_change_def)
next
  case (Some c)
  show ?thesis
  proof (cases "includes_our_output c prev \<or> \<not> includes_htlc_output c prev \<and> includes_second_level_htlc_output c prev")
    case True
    let ?change = "if includes_our_output c prev then OurOutputSpent (op_vout prev) else SecondLevelHTLCOutputSpent prev"
    have "applicable (ds_state ds) ?change" "is_spend ?change"
      using True Some by (auto simp: includes_our_output_def)
    from add_spend_total [OF assms(1) this] obtain changes' s' where
      "add_change ?change ds = Ok (ds\<lparr>ds_changes := changes', ds_state := s'\<rparr>)"
      "decodes s0 (ds\<lparr>ds_changes := changes', ds_state := s'\<rparr>)" "outputs_of s' = outputs_of (ds_state ds)"
      by blast
    moreover from this have "recorded s' (spent_htlc_outputs ds)" using assms(2) recorded_cong by blast
    ultimately show ?thesis using True Some
      by (intro exI [of _ changes'] exI [of _ s'] exI [of _ "spent_htlc_outputs ds"])
        (auto simp: closing_change_def)
  next
    case False
    let ?spent = "if includes_htlc_output c prev then spent_htlc_outputs ds @ [(op_vout prev, input_num ds)]
      else spent_htlc_outputs ds"
    have "recorded (ds_state ds) ?spent"
      using assms(2) Some by (auto simp: recorded_def includes_htlc_output_def outputs_of_def)
    moreover have "ms_funding_outpoint (ds_state ds) = Some prev \<Longrightarrow> \<not> includes_htlc_output c prev"
      using assms(1) Some by (auto simp: decodes_def state_ok_def closing_ok_def includes_htlc_output_def)
    moreover have "closing_change prev ds = Ok (ds\<lparr>spent_htlc_outputs := ?spent\<rparr>)"
      using False Some by (auto simp: closing_change_def)
    ultimately show ?thesis using assms(1)
      by (intro exI [of _ "ds_changes ds"] exI [of _ "ds_state ds"] exI [of _ ?spent]) (auto simp: decodes_def)
  qed
qed

text \<open>
  While the inputs of a transaction are read. A transaction is gathered as a closing transaction
  only as long as it has one input, which spends the funding.
\<close>

definition gathered :: "Transaction \<Rightarrow> nat \<Rightarrow> BlockDecodeState \<Rightarrow> bool" where
  "gathered tx k ds \<longleftrightarrow>
     (k = 0 \<longrightarrow> spent_htlc_outputs ds = [])
     \<and> (\<forall>t. closing_tx ds = Some t \<longrightarrow> k = 1 \<and> spent_htlc_outputs ds = []
        \<and> (\<exists>inp \<in> set (tx_input tx). tx_input t = [inp] \<and> fst (outputs_of (ds_state ds)) = Some (previous_output inp)))"

definition reading :: "State \<Rightarrow> Transaction \<Rightarrow> nat \<Rightarrow> BlockDecodeState \<Rightarrow> bool" where
  "reading s0 tx k ds \<longleftrightarrow>
     decodes s0 ds \<and> input_num ds = of_nat k \<and> output_num ds = 0
     \<and> recorded (ds_state ds) (spent_htlc_outputs ds) \<and> gathered tx k ds"

lemma input_total:
  assumes "reading s0 tx k ds" "inp \<in> set (tx_input tx)" "k < 2 ^ 32"
  shows "\<exists>ds'. on_transaction_input inp ds = Ok ds' \<and> reading s0 tx (Suc k) ds' \<and> ds_block_hash ds' = ds_block_hash ds"
proof -
  let ?prev = "previous_output inp"
  from assms(1) have ds: "decodes s0 ds" "recorded (ds_state ds) (spent_htlc_outputs ds)" "gathered tx k ds"
    and nums: "input_num ds = of_nat k" "output_num ds = 0"
    by (auto simp: reading_def)
  obtain changes1 s1 where
    first: "(if ?prev \<in> funding_inputs (ds_state ds) then add_change (FundingInputSpent ?prev) ds else Ok ds)
      = Ok (ds\<lparr>ds_changes := changes1, ds_state := s1\<rparr>)"
    and s1: "decodes s0 (ds\<lparr>ds_changes := changes1, ds_state := s1\<rparr>)" "outputs_of s1 = outputs_of (ds_state ds)"
  proof (cases "?prev \<in> funding_inputs (ds_state ds)")
    case True
    with that add_spend_total [OF ds(1), of "FundingInputSpent ?prev"] show ?thesis by auto
  next
    case False
    with that [of "ds_state ds" "ds_changes ds"] ds(1) show ?thesis by simp
  qed
  let ?spends = "Some ?prev = ms_funding_outpoint s1"
  define tx1 where "tx1 = (if ?spends
    then Some \<lparr>tx_version = ds_version ds, lock_time = 0, tx_input = [inp], tx_output = []\<rparr> else closing_tx ds)"
  define ds1 where "ds1 = ds\<lparr>ds_changes := changes1, ds_state := s1, closing_tx := tx1\<rparr>"
  have ds1: "decodes s0 ds1" "recorded (ds_state ds1) (spent_htlc_outputs ds1)"
    using s1 ds(2) recorded_cong [OF s1(2)] by (simp_all add: ds1_def decodes_def)
  obtain changes2 s2 spent2 where
    second: "closing_change ?prev ds1 = Ok (ds1\<lparr>ds_changes := changes2, ds_state := s2, spent_htlc_outputs := spent2\<rparr>)"
    and s2: "decodes s0 (ds1\<lparr>ds_changes := changes2, ds_state := s2, spent_htlc_outputs := spent2\<rparr>)"
      "outputs_of s2 = outputs_of s1" "recorded s2 spent2"
    and spent2: "?spends \<Longrightarrow> spent2 = spent_htlc_outputs ds"
    using closing_change_total [OF ds1, of ?prev] by (fastforce simp: ds1_def)
  let ?ds = "ds1\<lparr>ds_changes := changes2, ds_state := s2, spent_htlc_outputs := spent2,
    closing_tx := if input_num ds \<noteq> 0 then None else tx1, input_num := of_nat (Suc k)\<rparr>"
  have zero: "input_num ds = 0 \<longleftrightarrow> k = 0" using assms(3) nums(1) by (auto simp: word_of_nat_eq_0_iff dest: dvd_imp_le)
  have "on_transaction_input inp ds = Ok ?ds"
    using first second nums(1)
    by (simp add: on_transaction_input_def Let_def ds1_def tx1_def split: if_splits)
  moreover have "gathered tx (Suc k) ?ds"
    using ds(3) assms(2) zero spent2 s1(2) s2(2) by (auto simp: gathered_def tx1_def outputs_of_def split: if_splits)
  moreover have "reading s0 tx (Suc k) ?ds" if "gathered tx (Suc k) ?ds"
    using s2 that nums(2) by (simp add: reading_def decodes_def ds1_def)
  ultimately show ?thesis by (intro exI [of _ ?ds]) (simp add: ds1_def)
qed

lemma when_ready_Ok [simp]:
  "ds_block_hash ds = Some hash \<Longrightarrow> when_ready f (True, ds) = and_then (f ds) (\<lambda>ds. Ok (True, ds))"
  by (simp add: when_ready_def ready_for_push_def assert_that_def)

lemma inputs_total:
  assumes "reading s0 tx k ds" "set inps \<subseteq> set (tx_input tx)" "k + length inps < 2 ^ 32" "ds_block_hash ds = Some hash"
  shows "\<exists>ds'. fold_ok (push_event pp) (map TransactionInput inps) (True, ds) = Ok (True, ds')
    \<and> reading s0 tx (k + length inps) ds' \<and> ds_block_hash ds' = Some hash"
  using assms
proof (induction inps arbitrary: k ds)
  case (Cons inp inps)
  then obtain ds1 where ds1: "on_transaction_input inp ds = Ok ds1" "reading s0 tx (Suc k) ds1" "ds_block_hash ds1 = Some hash"
    using input_total [of s0 tx k ds inp] by auto
  from Cons.IH [OF ds1(2)] Cons.prems ds1 show ?case by auto
qed auto

text \<open>After the inputs: what the end of the transaction needs.\<close>

definition ending :: "State \<Rightarrow> Transaction \<Rightarrow> nat \<Rightarrow> BlockDecodeState \<Rightarrow> bool" where
  "ending s0 tx k ds \<longleftrightarrow>
     decodes s0 ds \<and> output_num ds = of_nat k \<and> recorded (ds_state ds) (spent_htlc_outputs ds)
     \<and> (\<forall>t. closing_tx ds = Some t \<longrightarrow> spent_htlc_outputs ds = []
        \<and> (\<exists>inp \<in> set (tx_input tx). tx_input t = [inp] \<and> ms_funding_outpoint (ds_state ds) = Some (previous_output inp)))"

lemma reading_ending: "reading s0 tx k ds \<Longrightarrow> ending s0 tx 0 ds"
  by (auto simp: reading_def ending_def gathered_def outputs_of_def)

lemma outputs_total:
  assumes "ending s0 tx k ds" "k + length outs \<le> 600" "ds_block_hash ds = Some hash"
  shows "\<exists>ds'. fold_ok (push_event pp) (map TransactionOutput outs) (True, ds) = Ok (True, ds')
    \<and> ending s0 tx (k + length outs) ds' \<and> ds_block_hash ds' = Some hash"
  using assms
proof (induction outs arbitrary: k ds)
  case (Cons out outs)
  let ?ds = "ds\<lparr>closing_tx := map_option (\<lambda>t. t\<lparr>tx_output := tx_output t @ [out]\<rparr>) (closing_tx ds), output_num := output_num ds + 1\<rparr>"
  have "output_num ds < MAX_COMMITMENT_OUTPUTS"
    using Cons.prems by (simp add: ending_def MAX_COMMITMENT_OUTPUTS_def word_less_nat_alt unat_of_nat)
  then have step: "on_transaction_output out ds = Ok ?ds"
    by (cases "closing_tx ds") (simp_all add: on_transaction_output_def assert_that_def)
  have "ending s0 tx (Suc k) ?ds" using Cons.prems(1) by (auto simp: ending_def decodes_def)
  from Cons.IH [OF this] Cons.prems(2,3) step show ?case by auto
qed auto

text \<open>What the channel answers, and what a transaction of a block is like.\<close>

definition provider_total :: "CommitmentPointProvider \<Rightarrow> bool" where
  "provider_total pp \<longleftrightarrow>
     counterparty_parameters (get_transaction_parameters pp) \<noteq> None
     \<and> (\<forall>n. is_ok (get_holder_commitment_point pp n) \<and> is_ok (provider_counterparty_point pp n)
          \<and> (\<forall>tx. is_ok (provider_spendable_htlc_indices pp tx n)))"

definition tx_ok :: "State \<Rightarrow> (Transaction \<Rightarrow> Txid) \<Rightarrow> Transaction \<Rightarrow> bool" where
  "tx_ok s txid_of tx \<longleftrightarrow>
     length (tx_input tx) < 2 ^ 32 \<and> length (tx_output tx) \<le> 600
     \<and> (\<forall>inp \<in> set (tx_input tx). op_txid (previous_output inp) \<noteq> txid_of tx)
     \<and> (\<forall>i. index_of (txid_of tx) (funding_txids s) = Some i \<longrightarrow> unat (funding_vouts s ! i) < length (tx_output tx))"

lemma confirm_funding_total:
  assumes "ending s0 tx (length (tx_output tx)) ds" "tx_ok s0 txid_of tx"
  shows "\<exists>changes' s'. confirm_funding (txid_of tx) ds = Ok (ds\<lparr>ds_changes := changes', ds_state := s'\<rparr>)
    \<and> decodes s0 (ds\<lparr>ds_changes := changes', ds_state := s'\<rparr>) \<and> snd (outputs_of s') = snd (outputs_of (ds_state ds))
    \<and> (txid_of tx \<notin> set (funding_txids s0) \<longrightarrow> s' = ds_state ds)"
proof -
  have ds: "decodes s0 ds" "output_num ds = of_nat (length (tx_output tx))" using assms(1) by (auto simp: ending_def)
  then have same: "funding_txids (ds_state ds) = funding_txids s0" "funding_vouts (ds_state ds) = funding_vouts s0"
    "length (funding_txids s0) = length (funding_vouts s0)"
    by (auto simp: decodes_def state_ok_def)
  show ?thesis
  proof (cases "index_of (txid_of tx) (funding_txids s0)")
    case None
    with ds(1) same show ?thesis
      by (intro exI [of _ "ds_changes ds"] exI [of _ "ds_state ds"]) (simp add: confirm_funding_def)
  next
    case (Some i)
    let ?vout = "funding_vouts s0 ! i"
    from Some same(3) have i: "i < length (funding_vouts s0)" "txid_of tx \<in> set (funding_txids s0)"
      using index_of_eq_Some [OF Some] by (auto simp: index_of_mem)
    have "?vout < output_num ds"
      using assms(2) Some ds(2) by (simp add: tx_ok_def word_less_nat_alt unat_of_nat)
    moreover obtain changes' s' a r where
      "add_change (FundingConfirmed (outpoint (txid_of tx) ?vout)) ds = Ok (ds\<lparr>ds_changes := changes', ds_state := s'\<rparr>)"
      "decodes s0 (ds\<lparr>ds_changes := changes', ds_state := s'\<rparr>)"
      "apply_forward_change (FundingConfirmed (outpoint (txid_of tx) ?vout)) (ds_state ds, [], []) = Ok (s', a, r)"
      using add_change_total [OF ds(1), of "FundingConfirmed (outpoint (txid_of tx) ?vout)"] i same
      by (auto simp: outpoint_def)
    ultimately show ?thesis using Some same i
      by (intro exI [of _ changes'] exI [of _ s']) (auto simp: confirm_funding_def assert_that_def outputs_of_def)
  qed
qed

lemma is_okD: "is_ok r \<Longrightarrow> \<exists>x. r = Ok x"
  by (cases r) (auto simp: is_ok_def)

lemma classify_close_total:
  assumes "decodes s0 ds" "provider_total pp" "tx_input t = [inp]"
    and "txid \<notin> set (funding_txids s0) \<Longrightarrow> ms_funding_outpoint (ds_state ds) = Some (previous_output inp)"
    and "op_txid (previous_output inp) \<noteq> txid"
  shows "\<exists>changes' s'. classify_close pp txid t ds = Ok (ds\<lparr>ds_changes := changes', ds_state := s'\<rparr>)
    \<and> decodes s0 (ds\<lparr>ds_changes := changes', ds_state := s'\<rparr>)"
proof (cases "txid \<in> set (funding_txids s0)")
  case True
  with assms(1) show ?thesis
    by (intro exI [of _ "ds_changes ds"] exI [of _ "ds_state ds"]) (simp add: classify_close_def decodes_def)
next
  case False
  have closes: "\<exists>changes' s'. add_change change ds = Ok (ds\<lparr>ds_changes := changes', ds_state := s'\<rparr>)
      \<and> decodes s0 (ds\<lparr>ds_changes := changes', ds_state := s'\<rparr>)" if "applicable (ds_state ds) change" for change
    using add_change_total [OF assms(1) that] by blast
  have txids: "txid \<notin> set (funding_txids (ds_state ds))" using False assms(1) by (simp add: decodes_def)
  obtain cp where params: "counterparty_parameters (get_transaction_parameters pp) = Some cp"
    using assms(2) by (auto simp: provider_total_def)
  then have "is_ok (decode_commitment_number (pp_ldk pp) t (get_transaction_parameters pp) :: (_, Status) result)"
    using assms(3) by (simp add: decode_commitment_number_def Let_def is_ok_def)
  then obtain number where
    number: "decode_commitment_number (pp_ldk pp) t (get_transaction_parameters pp) = (Ok number :: (_, Status) result)"
    by (blast dest: is_okD)
  show ?thesis
  proof (cases number)
    case None
    with closes [of "MutualCloseConfirmed txid (previous_output inp)"] txids number assms(3) show ?thesis
      by (simp add: classify_close_def)
  next
    case (Some n)
    obtain hp cpp where "get_holder_commitment_point pp n = Ok hp" "provider_counterparty_point pp n = Ok cpp"
      using assms(2) is_okD by (metis provider_total_def)
    moreover obtain our_index htlc_indices where
      "decode_commitment_tx (pp_ldk pp) t hp cpp (get_transaction_parameters pp) = (Ok (our_index, htlc_indices) :: (_, Status) result)"
      using params by (auto simp: decode_commitment_tx_def Let_def intro: prod.exhaust)
    moreover obtain sp where "provider_spendable_htlc_indices pp t n = Ok sp"
      using assms(2) is_okD by (metis provider_total_def)
    ultimately have "classify_close pp txid t ds =
        add_change (UnilateralCloseConfirmed txid (previous_output inp) our_index (if htlc_indices = [] then [] else sp)) ds"
      using Some number txids assms(3) by (simp add: classify_close_def)
    with closes [of "UnilateralCloseConfirmed txid (previous_output inp) our_index (if htlc_indices = [] then [] else sp)"]
      assms(4,5) False txids show ?thesis by simp
  qed
qed

lemma transaction_end_total:
  assumes "ending s0 tx (length (tx_output tx)) ds" "tx_ok s0 txid_of tx" "provider_total pp"
  shows "\<exists>ds'. on_transaction_end pp locktime (txid_of tx) ds = Ok ds' \<and> decodes s0 ds' \<and> ds_block_hash ds' = ds_block_hash ds"
proof -
  obtain changes1 s1 where
    first: "confirm_funding (txid_of tx) ds = Ok (ds\<lparr>ds_changes := changes1, ds_state := s1\<rparr>)"
    and s1: "decodes s0 (ds\<lparr>ds_changes := changes1, ds_state := s1\<rparr>)" "snd (outputs_of s1) = snd (outputs_of (ds_state ds))"
      "txid_of tx \<notin> set (funding_txids s0) \<Longrightarrow> s1 = ds_state ds"
    using confirm_funding_total [OF assms(1,2)] by blast
  have spent: "recorded s1 (spent_htlc_outputs ds)" using assms(1) s1(2) by (simp add: ending_def recorded_def)
  obtain changes2 s2 where
    second: "(case closing_tx ds of None \<Rightarrow> Ok (ds\<lparr>ds_changes := changes1, ds_state := s1\<rparr>)
       | Some t \<Rightarrow> classify_close pp (txid_of tx) (t\<lparr>lock_time := locktime\<rparr>)
           (ds\<lparr>ds_changes := changes1, ds_state := s1, closing_tx := None\<rparr>))
      = Ok (ds\<lparr>ds_changes := changes2, ds_state := s2, closing_tx := None\<rparr>)"
    and s2: "decodes s0 (ds\<lparr>ds_changes := changes2, ds_state := s2, closing_tx := None\<rparr>)" "recorded s2 (spent_htlc_outputs ds)"
  proof (cases "closing_tx ds")
    case None
    then have "ds\<lparr>ds_changes := changes1, ds_state := s1\<rparr> = ds\<lparr>ds_changes := changes1, ds_state := s1, closing_tx := None\<rparr>"
      by simp
    with that [of s1 changes1] s1(1) spent None show ?thesis by (simp add: decodes_def)
  next
    case (Some t)
    with assms(1) obtain inp where inp: "inp \<in> set (tx_input tx)" "tx_input t = [inp]" "spent_htlc_outputs ds = []"
      "ms_funding_outpoint (ds_state ds) = Some (previous_output inp)"
      by (auto simp: ending_def)
    let ?d = "ds\<lparr>ds_changes := changes1, ds_state := s1, closing_tx := None\<rparr>"
    have "\<exists>changes' s'. classify_close pp (txid_of tx) (t\<lparr>lock_time := locktime\<rparr>) ?d
        = Ok (?d\<lparr>ds_changes := changes', ds_state := s'\<rparr>) \<and> decodes s0 (?d\<lparr>ds_changes := changes', ds_state := s'\<rparr>)"
      by (rule classify_close_total [OF _ assms(3)]) (use assms(2) inp s1 in \<open>auto simp: decodes_def tx_ok_def\<close>)
    then obtain changes' s' where "classify_close pp (txid_of tx) (t\<lparr>lock_time := locktime\<rparr>) ?d
        = Ok (?d\<lparr>ds_changes := changes', ds_state := s'\<rparr>)" "decodes s0 (?d\<lparr>ds_changes := changes', ds_state := s'\<rparr>)"
      by blast
    with that [of s' changes'] Some inp(3) show ?thesis by (simp add: decodes_def)
  qed
  let ?ds = "ds\<lparr>ds_changes := changes2, ds_state := s2, closing_tx := None, spent_htlc_outputs := []\<rparr>"
  let ?add = "\<lambda>(vout, i). add_change (HTLCOutputSpent vout (outpoint (txid_of tx) i))"
  have "\<exists>ds'. fold_ok ?add (spent_htlc_outputs ds) ?ds = Ok ds'
      \<and> (decodes s0 ds' \<and> recorded (ds_state ds') (spent_htlc_outputs ds) \<and> ds_block_hash ds' = ds_block_hash ds)"
  proof (rule fold_ok_total)
    fix x d assume x: "x \<in> set (spent_htlc_outputs ds)"
      and d: "decodes s0 d \<and> recorded (ds_state d) (spent_htlc_outputs ds) \<and> ds_block_hash d = ds_block_hash ds"
    obtain vout i where "x = (vout, i)" by force
    moreover from x d this have "applicable (ds_state d) (HTLCOutputSpent vout out)" for out
      by (fastforce simp: recorded_def outputs_of_def)
    ultimately obtain changes' s' where "?add x d = Ok (d\<lparr>ds_changes := changes', ds_state := s'\<rparr>)"
      "decodes s0 (d\<lparr>ds_changes := changes', ds_state := s'\<rparr>)" "outputs_of s' = outputs_of (ds_state d)"
      using add_spend_total [of s0 d "HTLCOutputSpent vout (outpoint (txid_of tx) i)"] d by auto
    moreover from this have "recorded s' (spent_htlc_outputs ds)" using d recorded_cong by blast
    ultimately show "\<exists>d'. ?add x d = Ok d' \<and> decodes s0 d' \<and> recorded (ds_state d') (spent_htlc_outputs ds)
        \<and> ds_block_hash d' = ds_block_hash ds"
      using d by auto
  qed (use s2 in \<open>simp add: decodes_def\<close>)
  then show ?thesis using first second by (auto simp: on_transaction_end_def)
qed

lemma transaction_total:
  assumes "decodes s0 ds" "ds_block_hash ds = Some hash" "tx_ok s0 txid_of tx" "provider_total pp"
  shows "\<exists>ds'. fold_ok (push_event pp) (transaction_events txid_of tx) (True, ds) = Ok (True, ds')
    \<and> decodes s0 ds' \<and> ds_block_hash ds' = Some hash"
proof -
  let ?start = "ds\<lparr>ds_version := tx_version tx, input_num := 0, output_num := 0, closing_tx := None, spent_htlc_outputs := []\<rparr>"
  have "reading s0 tx 0 ?start" using assms(1) by (simp add: reading_def gathered_def decodes_def)
  from inputs_total [OF this, of "tx_input tx" hash pp] assms(2,3) obtain ds1 where
    ds1: "fold_ok (push_event pp) (map TransactionInput (tx_input tx)) (True, ?start) = Ok (True, ds1)"
      "reading s0 tx (length (tx_input tx)) ds1" "ds_block_hash ds1 = Some hash"
    by (auto simp: tx_ok_def)
  from outputs_total [OF reading_ending [OF ds1(2)], of "tx_output tx" hash pp] assms(3) ds1(3) obtain ds2 where
    ds2: "fold_ok (push_event pp) (map TransactionOutput (tx_output tx)) (True, ds1) = Ok (True, ds2)"
      "ending s0 tx (length (tx_output tx)) ds2" "ds_block_hash ds2 = Some hash"
    by (auto simp: tx_ok_def)
  obtain ds3 where "on_transaction_end pp (lock_time tx) (txid_of tx) ds2 = Ok ds3" "decodes s0 ds3"
    "ds_block_hash ds3 = Some hash"
    using transaction_end_total [OF ds2(2) assms(3,4)] ds2(3) by auto
  with assms(2) ds1(1) ds2(1,3) show ?thesis
    by (simp add: transaction_events_def fold_ok_append on_transaction_start_def)
qed

lemma push_transactions_total:
  assumes "state_ok s" "list_all (tx_ok s txid_of) txs" "provider_total pp"
  shows "\<exists>ds. push_transactions pp txid_of hash txs s = Ok (s\<lparr>saw_block := True\<rparr>, ds)
    \<and> decodes (s\<lparr>saw_block := True\<rparr>) ds \<and> ds_block_hash ds = Some hash"
proof -
  let ?s = "s\<lparr>saw_block := True\<rparr>"
  have "\<exists>ds'. fold_ok (push_event pp) (concat (map (transaction_events txid_of) txs)) (True, ds) = Ok (True, ds')
      \<and> decodes ?s ds' \<and> ds_block_hash ds' = Some hash" if "decodes ?s ds" "ds_block_hash ds = Some hash" for ds
    using assms(2) that
  proof (induction txs arbitrary: ds)
    case (Cons tx txs)
    then have "tx_ok ?s txid_of tx" by (simp add: tx_ok_def)
    from transaction_total [OF Cons.prems(2,3) this assms(3)] Cons.IH Cons.prems(1) show ?case
      by (auto simp: fold_ok_append)
  qed auto
  from this [of "decode_state_new ?s (Some hash)"] assms(1) show ?thesis
    by (auto simp: push_transactions_def Let_def decode_state_new_def decodes_def state_ok_def closing_ok_def)
qed

section \<open>Adding blocks\<close>

fun not_above :: "u32 \<Rightarrow> u32 option \<Rightarrow> bool" where
  "not_above h None = True"
| "not_above h (Some x) = (x \<le> h)"

definition heights_ok :: "State \<Rightarrow> bool" where
  "heights_ok s \<longleftrightarrow>
     not_above (ms_height s) (funding_height s) \<and> not_above (ms_height s) (funding_double_spent_height s)
     \<and> not_above (ms_height s) (mutual_closing_height s) \<and> not_above (ms_height s) (unilateral_closing_height s)
     \<and> not_above (ms_height s) (closing_swept_height s) \<and> not_above (ms_height s) (our_output_swept_height s)"

lemma not_above_get_or_insert: "not_above h x \<Longrightarrow> not_above h (get_or_insert x h)"
  by (cases x) (auto simp: get_or_insert_def)

lemma not_above_mono: "\<lbrakk>not_above h x; h \<le> h'\<rbrakk> \<Longrightarrow> not_above h' x"
  by (cases x) auto

lemma heights_ok_swept [simp]:
  "\<lbrakk>heights_ok s; h = ms_height s\<rbrakk> \<Longrightarrow> heights_ok (s\<lparr>closing_swept_height := Some h\<rparr>)"
  "\<lbrakk>heights_ok s; h = ms_height s\<rbrakk> \<Longrightarrow> heights_ok (s\<lparr>our_output_swept_height := Some h\<rparr>)"
  by (simp_all add: heights_ok_def)

lemma state_ok_swept [simp]:
  "state_ok (s\<lparr>closing_swept_height := h\<rparr>) = state_ok s" "state_ok (s\<lparr>our_output_swept_height := h\<rparr>) = state_ok s"
  by (simp_all add: state_ok_def closing_ok_def)

lemma note_swept_ok:
  assumes "heights_ok s" "state_ok s"
  shows "heights_ok (note_swept b c s)" "state_ok (note_swept b c s)" "ms_height (note_swept b c s) = ms_height s"
    "funding_txids (note_swept b c s) = funding_txids s" "funding_vouts (note_swept b c s) = funding_vouts s"
  using assms by (simp_all add: note_swept_def Let_def)

lemma forward_heights:
  assumes "apply_forward_change change (s, a, r) = Ok (s', a', r')" "heights_ok s"
  shows "heights_ok s' \<and> ms_height s' = ms_height s"
  using assms
  by (cases change) (auto simp: heights_ok_def and_then_eq_Ok not_above_get_or_insert)

lemma fold_forward_heights:
  assumes "fold_ok apply_forward_change changes (s, a, r) = Ok (s', a', r')" "heights_ok s"
  shows "heights_ok s' \<and> ms_height s' = ms_height s"
proof -
  have "(\<lambda>(t, _, _). heights_ok t \<and> ms_height t = ms_height s) (s', a', r')"
    by (rule fold_ok_invariant [OF assms(1)]) (use assms(2) forward_heights in \<open>fastforce+\<close>)
  then show ?thesis by simp
qed

lemma state_ok_shape: "shape s = shape t \<Longrightarrow> state_ok s = state_ok t"
  by (simp add: shape_def state_ok_def closing_ok_def)

lemma add_block_end_total:
  assumes "decodes (s\<lparr>saw_block := True\<rparr>) ds" "heights_ok s" "ms_height s \<noteq> - 1"
  shows "\<exists>s' adds removes. on_add_block_end (s\<lparr>saw_block := True\<rparr>) (ds_changes ds) = Ok (s', adds, removes)
    \<and> state_ok s' \<and> heights_ok s' \<and> ms_height s' = ms_height s + 1
    \<and> funding_txids s' = funding_txids s \<and> funding_vouts s' = funding_vouts s"
proof -
  let ?s = "s\<lparr>saw_block := True, ms_height := ms_height s + 1\<rparr>"
  obtain a r where decoded: "fold_ok apply_forward_change (ds_changes ds) (s\<lparr>saw_block := True\<rparr>, [], []) = Ok (ds_state ds, a, r)"
    and ok: "state_ok (ds_state ds)" "funding_txids (ds_state ds) = funding_txids s" "funding_vouts (ds_state ds) = funding_vouts s"
    using assms(1) by (auto simp: decodes_def)
  have "map_result (apfst shape) (\<lambda>e. e) (fold_ok apply_forward_change (ds_changes ds) (s\<lparr>saw_block := True\<rparr>, [], []))
      = map_result (apfst shape) (\<lambda>e. e) (fold_ok apply_forward_change (ds_changes ds) (?s, [], []))"
    by (rule fold_forward_shape) (simp add: shape_def)
  then obtain s1 where s1: "fold_ok apply_forward_change (ds_changes ds) (?s, [], []) = Ok (s1, a, r)" "shape s1 = shape (ds_state ds)"
    unfolding decoded by (cases "fold_ok apply_forward_change (ds_changes ds) (?s, [], [])") auto
  have "heights_ok ?s" using assms(2,3) less_plus_1 [of "ms_height s"]
    by (auto simp: heights_ok_def intro: not_above_mono)
  with fold_forward_heights [OF s1(1)] have "heights_ok s1" "ms_height s1 = ms_height s + 1" by auto
  moreover have "state_ok s1" "funding_txids s1 = funding_txids s" "funding_vouts s1 = funding_vouts s"
    using ok s1(2) state_ok_shape [OF s1(2)] by (simp_all add: shape_def)
  ultimately show ?thesis using s1(1)
    by (simp add: on_add_block_end_def Let_def note_swept_ok)
qed

definition monitor_ok :: "ChainMonitor \<Rightarrow> bool" where
  "monitor_ok m \<longleftrightarrow> state_ok (mon_state m) \<and> heights_ok (mon_state m)"

lemma monitor_add_block_total:
  assumes "monitor_ok m" "list_all (tx_ok (mon_state m) txid_of) txs" "provider_total pp" "ms_height (mon_state m) \<noteq> - 1"
  shows "\<exists>m' adds removes. on_add_block pp txid_of txs hash m = Ok (m', adds, removes) \<and> monitor_ok m'
    \<and> ms_height (mon_state m') = ms_height (mon_state m) + 1
    \<and> funding_txids (mon_state m') = funding_txids (mon_state m) \<and> funding_vouts (mon_state m') = funding_vouts (mon_state m)"
proof -
  let ?s = "mon_state m"
  obtain ds where ds: "push_transactions pp txid_of hash txs ?s = Ok (?s\<lparr>saw_block := True\<rparr>, ds)"
    "decodes (?s\<lparr>saw_block := True\<rparr>) ds" "ds_block_hash ds = Some hash"
    using push_transactions_total [OF _ assms(2,3)] assms(1) by (auto simp: monitor_ok_def)
  from add_block_end_total [OF ds(2)] assms(1,4) obtain s' adds removes where
    "on_add_block_end (?s\<lparr>saw_block := True\<rparr>) (ds_changes ds) = Ok (s', adds, removes)" "state_ok s'" "heights_ok s'"
    "ms_height s' = ms_height ?s + 1" "funding_txids s' = funding_txids ?s" "funding_vouts s' = funding_vouts ?s"
    by (auto simp: monitor_ok_def)
  with ds show ?thesis by (auto simp: on_add_block_def assert_that_def monitor_ok_def)
qed

text \<open>A sequence of blocks, each with its transactions of interest and its hash.\<close>

definition add_blocks ::
  "CommitmentPointProvider \<Rightarrow> (Transaction \<Rightarrow> Txid) \<Rightarrow> (Transaction list \<times> BlockHash) list \<Rightarrow> ChainMonitor \<Rightarrow>
   (ChainMonitor, Status) result" where
  "add_blocks pp txid_of =
     fold_ok (\<lambda>(txs, hash) m. and_then (on_add_block pp txid_of txs hash m) (\<lambda>(m, _, _). Ok m))"

section \<open>Removing blocks\<close>

fun output_spend :: "StateChange \<Rightarrow> bool" where
  "output_spend (OurOutputSpent _) = True"
| "output_spend (HTLCOutputSpent _ _) = True"
| "output_spend (SecondLevelHTLCOutputSpent _) = True"
| "output_spend _ = False"

lemma backward_without_closing:
  assumes "closing_outpoints s = None"
  shows "apply_backward_change change (s, a, r) = Panic
    \<or> \<not> output_spend change \<and> (\<exists>s' a' r'. apply_backward_change change (s, a, r) = Ok (s', a', r') \<and> closing_outpoints s' = None)"
  using assms by (cases change) (auto simp: assert_that_def)

lemma backward_swept_panics:
  assumes "closing_outpoints s = None" "change \<in> set changes" "output_spend change"
  shows "fold_ok apply_backward_change changes (s, a, r) = Panic"
  using assms
proof (induction changes arbitrary: s a r)
  case (Cons c changes)
  with backward_without_closing [OF Cons.prems(1), of c a r] show ?case by auto
qed simp

lemma backward_no_error: "apply_backward_change change x \<noteq> Err e"
  by (cases "(change, x)" rule: apply_backward_change.cases)
    (auto simp: result_simps set_our_output_spent_def set_htlc_output_spent_def set_second_level_htlc_spent_def split_beta)

lemma fold_backward_no_error: "fold_ok apply_backward_change changes x \<noteq> Err e"
  by (induction changes arbitrary: x) (auto simp: and_then_eq_Err backward_no_error)

lemma removing_swept_close:
  assumes "changes = before @ UnilateralCloseConfirmed txid funding our_index htlcs # after" "\<exists>c \<in> set after. output_spend c"
  shows "on_remove_block_end s changes = Panic"
proof -
  let ?close = "UnilateralCloseConfirmed txid funding our_index htlcs"
  have "fold_ok apply_backward_change (?close # after) x = Panic" for x
    using assms(2) backward_swept_panics by (cases x) (auto simp: assert_that_def)
  then have "fold_ok apply_backward_change changes (s, [], []) = Panic"
    using fold_backward_no_error [of before "(s, [], [])"]
    by (cases "fold_ok apply_backward_change before (s, [], [])") (auto simp: assms(1) fold_ok_append simp del: fold_ok.simps)
  then show ?thesis by (simp add: on_remove_block_end_def Let_def)
qed

section \<open>Removing a block that was added last\<close>

text \<open>
  A change that has an effect: the state does not yet hold what the change writes. The input
  spends of a funding transaction are undone along with its confirmation.
\<close>

fun fresh_change :: "State \<Rightarrow> StateChange \<Rightarrow> bool" where
  "fresh_change s (FundingConfirmed out) \<longleftrightarrow>
     funding_height s = None \<and> ms_funding_outpoint s = None \<and> funding_double_spent_height s = None"
| "fresh_change s (FundingInputSpent out) \<longleftrightarrow> True"
| "fresh_change s (UnilateralCloseConfirmed txid funding our_index htlcs) \<longleftrightarrow>
     unilateral_closing_height s = None \<and> closing_outpoints s = None"
| "fresh_change s (MutualCloseConfirmed txid funding) \<longleftrightarrow> mutual_closing_height s = None"
| "fresh_change s (OurOutputSpent vout) \<longleftrightarrow> (\<exists>c. closing_outpoints s = Some c \<and> our_output c = Some (vout, False))"
| "fresh_change s (HTLCOutputSpent vout second) \<longleftrightarrow>
     (\<exists>c i. closing_outpoints s = Some c \<and> index_of vout (htlc_outputs c) = Some i \<and> i < length (htlc_spents c)
        \<and> \<not> htlc_spents c ! i \<and> \<not> includes_second_level_htlc_output c second)"
| "fresh_change s (SecondLevelHTLCOutputSpent out) \<longleftrightarrow>
     (\<exists>c pre h post. closing_outpoints s = Some c \<and> second_level_htlc_outputs c = pre @ h # post
        \<and> sl_outpoint h = out \<and> \<not> sl_spent h \<and> (\<forall>x \<in> set pre. sl_outpoint x \<noteq> out))"

lemma set_first_spent_at:
  "\<lbrakk>sl_outpoint h = out; \<forall>x \<in> set pre. sl_outpoint x \<noteq> out\<rbrakk> \<Longrightarrow>
   set_first_spent out b (pre @ h # post) = Some (pre @ h\<lparr>sl_spent := b\<rparr> # post)"
  by (induction pre) auto

lemma backward_undoes:
  assumes "apply_forward_change change (s, a, r) = Ok (s', a', r')" "fresh_change s change"
    and "funding_double_spent_height s \<noteq> Some (ms_height s)"
  shows "\<exists>b q. apply_backward_change change (s', x, y) = Ok (s, b, q)"
proof (cases change)
  case (HTLCOutputSpent vout second)
  with assms(2) obtain c i where c: "closing_outpoints s = Some c" "index_of vout (htlc_outputs c) = Some i"
    "i < length (htlc_spents c)" "\<not> htlc_spents c ! i" "\<not> includes_second_level_htlc_output c second" by auto
  then have "(htlc_spents c)[i := False] = htlc_spents c" by (metis list_update_id)
  moreover have "filter (\<lambda>h. sl_outpoint h \<noteq> second) (second_level_htlc_outputs c) = second_level_htlc_outputs c"
    using c(5) by (simp add: includes_second_level_htlc_output_def filter_id_conv)
  ultimately show ?thesis using assms(1) c HTLCOutputSpent
    by (auto simp: set_htlc_output_spent_def add_second_level_htlc_output_def remove_second_level_htlc_output_def assert_that_def)
next
  case (SecondLevelHTLCOutputSpent out)
  with assms(2) obtain c pre h post where c: "closing_outpoints s = Some c" "second_level_htlc_outputs c = pre @ h # post"
    "sl_outpoint h = out" "\<not> sl_spent h" "\<forall>x \<in> set pre. sl_outpoint x \<noteq> out" by auto
  then have "h\<lparr>sl_spent := False\<rparr> = h" by simp
  with assms(1) c SecondLevelHTLCOutputSpent show ?thesis
    by (auto simp: set_second_level_htlc_spent_def set_first_spent_at)
qed (use assms in \<open>auto simp: assert_that_def set_our_output_spent_def get_or_insert_def split: option.splits\<close>)

text \<open>Spends of funding inputs write one field, which no other change but the confirmation touches.\<close>

fun about_funding :: "StateChange \<Rightarrow> bool" where
  "about_funding (FundingConfirmed _) = True"
| "about_funding (FundingInputSpent _) = True"
| "about_funding _ = False"

abbreviation with_double_spent :: "u32 option \<Rightarrow> State \<Rightarrow> State" where
  "with_double_spent x s \<equiv> s\<lparr>funding_double_spent_height := x\<rparr>"

lemma forward_double_spent:
  assumes "\<not> about_funding change"
  shows "apply_forward_change change (with_double_spent x s, a, r)
    = map_result (apfst (with_double_spent x)) (\<lambda>e. e) (apply_forward_change change (s, a, r))"
  using assms by (cases change) (simp_all add: map_result_and_then split: result.split)

lemma forward_input_spends:
  "fold_ok apply_forward_change (map FundingInputSpent ins) (s, a, r) =
   Ok (with_double_spent (if ins = [] then funding_double_spent_height s
       else get_or_insert (funding_double_spent_height s) (ms_height s)) s, a, r @ ins)"
  by (induction ins arbitrary: s r) (auto simp: get_or_insert_def split: option.splits)

lemma backward_input_spends:
  "fold_ok apply_backward_change (map FundingInputSpent ins) (s, a, r) =
   Ok (with_double_spent (if ins \<noteq> [] \<and> funding_double_spent_height s = Some (ms_height s) then None
       else funding_double_spent_height s) s, a, r @ ins)"
  by (induction ins arbitrary: s r) auto

lemma forward_keeps_double_spent:
  "\<lbrakk>apply_forward_change change (s, a, r) = Ok (s', a', r'); \<not> about_funding change\<rbrakk> \<Longrightarrow>
   funding_double_spent_height s' = funding_double_spent_height s \<and> ms_height s' = ms_height s"
  by (cases change) (auto simp: result_simps)

text \<open>The changes of one block: input spends of the funding transaction, then at most one other.\<close>

definition one_change :: "State \<Rightarrow> StateChange list \<Rightarrow> bool" where
  "one_change s changes \<longleftrightarrow>
     (\<exists>ins rest. changes = map FundingInputSpent ins @ rest
        \<and> (rest = [] \<or> (\<exists>c. rest = [c] \<and> fresh_change s c \<and> (\<forall>out. c \<noteq> FundingInputSpent out))))"

lemma one_change_undone:
  assumes "fold_ok apply_forward_change changes (s, [], []) = Ok (s', a, r)" "one_change s changes"
    and "funding_double_spent_height s \<noteq> Some (ms_height s)"
  shows "\<exists>b q. fold_ok apply_backward_change changes (s', [], []) = Ok (s, b, q)"
proof -
  obtain ins rest where changes: "changes = map FundingInputSpent ins @ rest"
    and rest: "rest = [] \<or> (\<exists>c. rest = [c] \<and> fresh_change s c \<and> (\<forall>out. c \<noteq> FundingInputSpent out))"
    using assms(2) by (auto simp: one_change_def)
  let ?x = "if ins = [] then funding_double_spent_height s else get_or_insert (funding_double_spent_height s) (ms_height s)"
  have restored: "with_double_spent (if ins \<noteq> [] \<and> ?x = Some (ms_height s) then None else ?x) s = s"
    using assms(3) by (auto simp: get_or_insert_def split: option.splits)
  from rest show ?thesis
  proof (elim disjE exE conjE)
    assume "rest = []"
    with assms(1) restored show ?thesis
      by (auto simp: changes forward_input_spends backward_input_spends)
  next
    fix c assume c: "rest = [c]" "fresh_change s c" "\<forall>out. c \<noteq> FundingInputSpent out"
    show ?thesis
    proof (cases "about_funding c")
      case True
      with c(3) obtain out where "c = FundingConfirmed out" by (cases c) auto
      with c assms(1) show ?thesis
        by (auto simp: changes forward_input_spends backward_input_spends fold_ok_append assert_that_def)
    next
      case False
      from assms(1) c(1) have forward: "map_result (apfst (with_double_spent ?x)) (\<lambda>e. e) (apply_forward_change c (s, [], ins))
          = Ok (s', a, r)"
        unfolding changes fold_ok_append forward_input_spends forward_double_spent [OF False, symmetric]
        by (auto simp: and_then_eq_Ok)
      then obtain t where t: "apply_forward_change c (s, [], ins) = Ok (t, a, r)" "s' = with_double_spent ?x t"
        by (cases "apply_forward_change c (s, [], ins)") auto
      have same: "funding_double_spent_height t = funding_double_spent_height s" "ms_height t = ms_height s"
        using forward_keeps_double_spent [OF t(1) False] by auto
      obtain b q where "apply_backward_change c (t, [], ins) = Ok (s, b, q)"
        using backward_undoes [OF t(1) c(2) assms(3)] by blast
      moreover have "fold_ok apply_backward_change (map FundingInputSpent ins) (s', [], []) = Ok (t, [], ins)"
        unfolding backward_input_spends t(2) using assms(3) same by (auto simp: get_or_insert_def split: option.splits)
      ultimately show ?thesis using c(1) by (auto simp: changes fold_ok_append)
    qed
  qed
qed

definition swept_ok :: "State \<Rightarrow> bool" where
  "swept_ok s \<longleftrightarrow>
     (is_closing_swept s \<or> closing_swept_height s = None) \<and> (is_our_output_swept s \<or> our_output_swept_height s = None)"

abbreviation with_swept :: "u32 option \<Rightarrow> u32 option \<Rightarrow> State \<Rightarrow> State" where
  "with_swept x y s \<equiv> s\<lparr>closing_swept_height := x, our_output_swept_height := y\<rparr>"

lemma backward_swept:
  "apply_backward_change change (with_swept x y s, a, r)
    = map_result (apfst (with_swept x y)) (\<lambda>e. e) (apply_backward_change change (s, a, r))"
  by (cases change) (simp_all add: map_result_and_then split: result.split)

lemma fold_backward_swept:
  "fold_ok apply_backward_change changes (with_swept x y s, a, r)
    = map_result (apfst (with_swept x y)) (\<lambda>e. e) (fold_ok apply_backward_change changes (s, a, r))"
proof (induction changes arbitrary: s a r)
  case (Cons c changes)
  then show ?case by (cases "apply_backward_change c (s, a, r)") (auto simp: backward_swept)
qed simp

lemma forward_keeps_swept:
  "apply_forward_change change (s, a, r) = Ok (s', a', r') \<Longrightarrow>
   closing_swept_height s' = closing_swept_height s \<and> our_output_swept_height s' = our_output_swept_height s"
  by (cases change) (auto simp: result_simps)

lemma fold_forward_keeps_swept:
  assumes "fold_ok apply_forward_change changes (s, a, r) = Ok (s', a', r')"
  shows "closing_swept_height s' = closing_swept_height s \<and> our_output_swept_height s' = our_output_swept_height s"
proof -
  have "(\<lambda>(t, _, _). closing_swept_height t = closing_swept_height s \<and> our_output_swept_height t = our_output_swept_height s)
      (s', a', r')"
    by (rule fold_ok_invariant [OF assms]) (use forward_keeps_swept in fastforce)+
  then show ?thesis by simp
qed

lemma map_result_eq_Ok: "map_result f g r = Ok y \<longleftrightarrow> (\<exists>x. r = Ok x \<and> f x = y)"
  by (cases r) auto

lemma forward_saw_block:
  "\<lbrakk>saw_block (fst x); apply_forward_change change x = Ok y\<rbrakk> \<Longrightarrow> saw_block (fst y)"
  by (cases change; cases x) (auto simp: result_simps)

lemma add_block_end_saw_block:
  assumes "on_add_block_end s changes = Ok (s', adds, removes)"
  shows "saw_block s'"
proof -
  let ?s = "s\<lparr>saw_block := True, ms_height := ms_height s + 1\<rparr>"
  obtain t a r where t: "fold_ok apply_forward_change changes (?s, [], []) = Ok (t, a, r)"
    and s': "s' = note_swept (is_closing_swept ?s) (is_our_output_swept ?s) t"
    using assms by (auto simp: on_add_block_end_def Let_def and_then_eq_Ok)
  have "saw_block (fst (t, a, r))"
    by (rule fold_ok_invariant [OF t, where P = "\<lambda>x. saw_block (fst x)"]) (simp, erule forward_saw_block)
  then show ?thesis by (simp add: s' note_swept_def Let_def)
qed

lemma is_swept_height [simp]:
  "is_closing_swept (with_swept x y s) = is_closing_swept s" "is_our_output_swept (with_swept x y s) = is_our_output_swept s"
  "is_closing_swept (s\<lparr>saw_block := b, ms_height := h\<rparr>) = is_closing_swept s"
  "is_our_output_swept (s\<lparr>saw_block := b, ms_height := h\<rparr>) = is_our_output_swept s"
  by (simp_all add: is_closing_swept_def is_our_output_swept_def)

lemma note_swept_eq:
  "note_swept b c s = with_swept (if \<not> b \<and> is_closing_swept s then Some (ms_height s) else closing_swept_height s)
     (if \<not> c \<and> is_our_output_swept s then Some (ms_height s) else our_output_swept_height s) s"
  by (simp add: note_swept_def Let_def is_our_output_swept_def)

lemma note_unswept_eq:
  "note_unswept b c s = with_swept (if b \<and> \<not> is_closing_swept s then None else closing_swept_height s)
     (if c \<and> \<not> is_our_output_swept s then None else our_output_swept_height s) s"
  by (simp add: note_unswept_def Let_def is_our_output_swept_def)

lemma add_block_end_undone:
  assumes "on_add_block_end s changes = Ok (s', adds, removes)" "one_change (s\<lparr>saw_block := True, ms_height := ms_height s + 1\<rparr>) changes"
    and "swept_ok s" "funding_double_spent_height s \<noteq> Some (ms_height s + 1)"
  shows "\<exists>b q. on_remove_block_end s' changes = Ok (s\<lparr>saw_block := True\<rparr>, b, q)"
proof -
  let ?s = "s\<lparr>saw_block := True, ms_height := ms_height s + 1\<rparr>"
  obtain s1 a r where s1: "fold_ok apply_forward_change changes (?s, [], []) = Ok (s1, a, r)"
    using assms(1) by (auto simp: on_add_block_end_def Let_def and_then_eq_Ok)
  have kept: "closing_swept_height s1 = closing_swept_height s" "our_output_swept_height s1 = our_output_swept_height s"
    using fold_forward_keeps_swept [OF s1] by auto
  define x where "x = (if \<not> is_closing_swept s \<and> is_closing_swept s1 then Some (ms_height s1) else closing_swept_height s)"
  define y where "y = (if \<not> is_our_output_swept s \<and> is_our_output_swept s1 then Some (ms_height s1) else our_output_swept_height s)"
  have "s' = note_swept (is_closing_swept s) (is_our_output_swept s) s1"
    using assms(1) s1 by (simp add: on_add_block_end_def Let_def)
  then have s': "s' = with_swept x y s1" unfolding note_swept_eq kept x_def y_def .
  obtain b q where "fold_ok apply_backward_change changes (s1, [], []) = Ok (?s, b, q)"
    using one_change_undone [OF s1 assms(2)] assms(4) by auto
  then have "fold_ok apply_backward_change changes (s', [], []) = Ok (with_swept x y ?s, b, q)"
    by (simp add: s' fold_backward_swept)
  moreover have "(if is_closing_swept s1 \<and> \<not> is_closing_swept s then None else x) = closing_swept_height s"
    "(if is_our_output_swept s1 \<and> \<not> is_our_output_swept s then None else y) = our_output_swept_height s"
    using assms(3) by (auto simp: x_def y_def swept_ok_def)
  ultimately show ?thesis by (simp add: on_remove_block_end_def note_unswept_eq s' Let_def split del: if_split cong: if_cong)
qed

text \<open>
  Undoing a change reports the outpoints that making it reported, except for the spends of HTLC outputs,
  which report them the other way round.
\<close>

fun watch_symmetric :: "StateChange \<Rightarrow> bool" where
  "watch_symmetric (HTLCOutputSpent _ _) = False"
| "watch_symmetric (SecondLevelHTLCOutputSpent _) = False"
| "watch_symmetric _ = True"

lemma same_watches:
  assumes "apply_forward_change c (s, x, y) = Ok (s', a, r)" "apply_backward_change c (t, x, y) = Ok (t', b, q)"
    and "watch_symmetric c" "closing_outpoints t = closing_outpoints s'"
  shows "b = a \<and> q = r"
  using assms by (cases c) (auto simp: result_simps set_our_output_spent_def)

lemma same_watches_in_block:
  assumes "fold_ok apply_forward_change changes (s, [], []) = Ok (s', a, r)"
    and "fold_ok apply_backward_change changes (t, [], []) = Ok (t', b, q)"
    and "one_change s changes" "list_all watch_symmetric changes" "closing_outpoints t = closing_outpoints s'"
  shows "b = a \<and> q = r"
proof -
  obtain ins rest where changes: "changes = map FundingInputSpent ins @ rest"
    and "rest = [] \<or> (\<exists>c. rest = [c])"
    using assms(3) by (auto simp: one_change_def)
  from this(2) show ?thesis
  proof (elim disjE exE)
    assume "rest = []"
    with assms(1,2) show ?thesis by (auto simp: changes forward_input_spends backward_input_spends)
  next
    fix c assume "rest = [c]"
    with assms show ?thesis
      by (auto simp: changes fold_ok_append forward_input_spends backward_input_spends and_then_eq_Ok
          dest: same_watches)
  qed
qed

lemma same_watches_at_end:
  assumes "on_add_block_end s changes = Ok (s', a, r)" "on_remove_block_end s' changes = Ok (t, b, q)"
    and "one_change (s\<lparr>saw_block := True, ms_height := ms_height s + 1\<rparr>) changes" "list_all watch_symmetric changes"
  shows "b = a \<and> q = r"
proof -
  let ?s = "s\<lparr>saw_block := True, ms_height := ms_height s + 1\<rparr>"
  obtain s1 where s1: "fold_ok apply_forward_change changes (?s, [], []) = Ok (s1, a, r)"
    "s' = note_swept (is_closing_swept ?s) (is_our_output_swept ?s) s1"
    using assms(1) by (auto simp: on_add_block_end_def Let_def and_then_eq_Ok)
  obtain t1 where "fold_ok apply_backward_change changes (s', [], []) = Ok (t1, b, q)"
    using assms(2) by (auto simp: on_remove_block_end_def Let_def and_then_eq_Ok)
  from same_watches_in_block [OF s1(1) this assms(3,4)] show ?thesis by (simp add: s1(2) note_swept_eq)
qed

lemma block_undone:
  assumes "monitor_ok m" "swept_ok (mon_state m)" "ms_height (mon_state m) \<noteq> - 1"
    and "provider_total pp" "list_all (tx_ok (mon_state m) txid_of) txs"
    and "on_add_block pp txid_of txs hash m = Ok (m', adds, removes)"
    and "push_transactions pp txid_of hash txs (mon_state m) = Ok (s, ds)"
    and "push_transactions pp txid_of hash' txs (mon_state m') = Ok (s', ds')"
    and "ds_changes ds' = ds_changes ds" "one_change (s\<lparr>ms_height := ms_height s + 1\<rparr>) (ds_changes ds)"
  shows "\<exists>b q. on_remove_block pp txid_of txs hash' m' = Ok (m\<lparr>mon_state := (mon_state m)\<lparr>saw_block := True\<rparr>\<rparr>, b, q)
    \<and> (list_all watch_symmetric (ds_changes ds) \<longrightarrow> b = adds \<and> q = removes)"
proof -
  have s: "s = (mon_state m)\<lparr>saw_block := True\<rparr>" "s' = (mon_state m')\<lparr>saw_block := True\<rparr>"
    using assms(7,8) by (auto simp: push_transactions_def Let_def and_then_eq_Ok)
  obtain t where t: "on_add_block_end s (ds_changes ds) = Ok (t, adds, removes)" "m' = m\<lparr>mon_state := t\<rparr>"
    and hash: "ds_block_hash ds = Some hash"
    using assms(6,7) by (auto simp: on_add_block_def and_then_eq_Ok assert_that_def split: if_splits)
  have "saw_block t" using t(1) by (rule add_block_end_saw_block)
  then have "s' = t" using s(2) t(2) by simp
  have "funding_double_spent_height s \<noteq> Some (ms_height s + 1)"
    using assms(1,3) less_plus_1 [of "ms_height s"] by (auto simp: monitor_ok_def heights_ok_def s)
  moreover have "swept_ok s" using assms(2) by (simp add: s swept_ok_def is_closing_swept_def is_our_output_swept_def)
  moreover have "s\<lparr>saw_block := True, ms_height := ms_height s + 1\<rparr> = s\<lparr>ms_height := ms_height s + 1\<rparr>" by (simp add: s)
  ultimately obtain b q where removed: "on_remove_block_end t (ds_changes ds) = Ok (s\<lparr>saw_block := True\<rparr>, b, q)"
    using add_block_end_undone [OF t(1)] assms(10) by auto
  moreover have "b = adds \<and> q = removes" if "list_all watch_symmetric (ds_changes ds)"
    using same_watches_at_end [OF t(1) removed _ that] assms(10) by (simp add: s)
  moreover have "ds_block_hash ds' = Some hash'"
  proof -
    have "monitor_ok m'" "funding_txids (mon_state m') = funding_txids (mon_state m)"
      "funding_vouts (mon_state m') = funding_vouts (mon_state m)"
      using monitor_add_block_total [OF assms(1,5,4,3), of hash] assms(6) by simp_all
    then have "state_ok (mon_state m')" "list_all (tx_ok (mon_state m') txid_of) txs"
      using assms(5) by (auto simp: monitor_ok_def tx_ok_def [abs_def])
    from push_transactions_total [OF this assms(4), of hash'] assms(8) show ?thesis by auto
  qed
  ultimately show ?thesis using assms(8,9) \<open>s' = t\<close> t(2) by (simp add: on_remove_block_def s(1) assert_that_def)
qed

section \<open>Example\<close>

text \<open>A funding transaction, a commitment that spends it, and a sweep of our output of the commitment.\<close>

definition example_provider :: CommitmentPointProvider where
  "example_provider = \<lparr>pp_ldk = example_ldk, get_holder_commitment_point = (\<lambda>n. Ok (ucast n)),
     provider_counterparty_point = (\<lambda>n. Ok None), get_transaction_parameters = example_params,
     provider_spendable_htlc_indices = (\<lambda>tx n. Ok [])\<rparr>"

definition spend_of :: "Txid \<Rightarrow> u32 \<Rightarrow> TxIn" where
  "spend_of txid sequence = \<lparr>previous_output = outpoint txid 0, tx_sequence = sequence\<rparr>"

definition example_funding_tx :: Transaction where
  "example_funding_tx = \<lparr>tx_version = 2, lock_time = 5, tx_input = [spend_of 99 0],
     tx_output = [\<lparr>txout_value = 3000000, script_pubkey = [0]\<rparr>]\<rparr>"

definition example_close_tx :: Transaction where
  "example_close_tx = \<lparr>tx_version = 2, lock_time = 0x20000000 OR 39, tx_input = [spend_of 5 0x80000000],
     tx_output = [\<lparr>txout_value = 2999000, script_pubkey = [1, 12]\<rparr>]\<rparr>"

definition example_sweep_tx :: Transaction where
  "example_sweep_tx = \<lparr>tx_version = 2, lock_time = 8, tx_input = [spend_of (0x20000000 OR 39) 0],
     tx_output = [\<lparr>txout_value = 2998000, script_pubkey = [2]\<rparr>]\<rparr>"

definition example_txid :: "Transaction \<Rightarrow> Txid" where
  "example_txid tx = ucast (lock_time tx)"

definition example_monitor :: ChainMonitor where
  "example_monitor =
     (let m = monitor_new (outpoint 5 0) 100; s = mon_state m
      in m\<lparr>mon_state := s\<lparr>funding_txids := [5], funding_vouts := [0], funding_inputs := {outpoint 99 0}\<rparr>\<rparr>)"

lemma example_provider_total: "provider_total example_provider"
  by (simp add: provider_total_def example_provider_def example_params_def is_ok_def)

lemma example_monitor_ok: "monitor_ok example_monitor"
  by (simp add: monitor_ok_def state_ok_def heights_ok_def example_monitor_def monitor_new_def Let_def)

section \<open>Properties\<close>

text \<open>
  Adding blocks to a well-formed monitor never panics and keeps it well formed: every change
  that is decoded from a block can be applied, on the copy of the state while the block is read and
  on the state at its end. It is enough that the channel answers the questions about a commitment, that a transaction
  has at most 600 outputs and does not spend itself, that a funding transaction has its funding
  output, and that the height does not run over.
\<close>

theorem adding_blocks_never_panics:
  assumes "monitor_ok m" "provider_total pp" "\<forall>(txs, _) \<in> set blocks. list_all (tx_ok (mon_state m) txid_of) txs"
    and "unat (ms_height (mon_state m)) + length blocks < 2 ^ 32"
  shows "\<exists>m'. add_blocks pp txid_of blocks m = Ok m' \<and> monitor_ok m'
    \<and> unat (ms_height (mon_state m')) = unat (ms_height (mon_state m)) + length blocks"
  using assms(1,3,4)
proof (induction blocks arbitrary: m)
  case Nil
  then show ?case by (simp add: add_blocks_def)
next
  case (Cons b blocks)
  obtain txs hash where b: "b = (txs, hash)" by force
  let ?h = "ms_height (mon_state m)"
  have "?h \<noteq> - 1" using Cons.prems(3) by (auto simp: unat_max_word)
  from monitor_add_block_total [OF Cons.prems(1) _ assms(2) this, of txid_of txs hash] Cons.prems(2) obtain m1 adds removes where
    m1: "on_add_block pp txid_of txs hash m = Ok (m1, adds, removes)" "monitor_ok m1" "ms_height (mon_state m1) = ?h + 1"
    "funding_txids (mon_state m1) = funding_txids (mon_state m)" "funding_vouts (mon_state m1) = funding_vouts (mon_state m)"
    by (auto simp: b)
  have height: "unat (ms_height (mon_state m1)) = Suc (unat ?h)" using \<open>?h \<noteq> - 1\<close> m1(3) by (simp add: unat_plus_1)
  have "tx_ok (mon_state m1) txid_of = tx_ok (mon_state m) txid_of" by (intro ext) (simp add: tx_ok_def m1(4,5))
  with Cons.IH [OF m1(2)] Cons.prems(2,3) height m1(1) show ?case by (simp add: add_blocks_def b)
qed

theorem adding_blocks_never_panics_witness:
  "\<exists>m'. add_blocks example_provider example_txid [([example_funding_tx], 1), ([example_close_tx, example_sweep_tx], 2)]
      example_monitor = Ok m' \<and> monitor_ok m' \<and> unat (ms_height (mon_state m')) = 102"
proof -
  let ?blocks = "[([example_funding_tx], 1), ([example_close_tx, example_sweep_tx], 2)] :: (Transaction list \<times> BlockHash) list"
  have "\<forall>(txs, _) \<in> set ?blocks. list_all (tx_ok (mon_state example_monitor) example_txid) txs"
    by (simp add: tx_ok_def example_txid_def example_funding_tx_def example_close_tx_def example_sweep_tx_def spend_of_def
        outpoint_def example_monitor_def monitor_new_def Let_def)
  with adding_blocks_never_panics [OF example_monitor_ok example_provider_total, of ?blocks example_txid]
  show ?thesis by (simp add: example_monitor_def monitor_new_def Let_def)
qed

text \<open>
  The depths that the validators see are exact and agree with the monitor's own: one more than
  the number of blocks on top, and zero before. The source computes one of them with a subtraction
  that can wrap around and the other with one that saturates.
\<close>

theorem chain_state_depths_exact:
  assumes "monitor_ok m" "ms_height (mon_state m) \<noteq> - 1"
  shows "unat (funding_depth (as_chain_state m)) =
      (case funding_height (mon_state m) of None \<Rightarrow> 0 | Some h \<Rightarrow> Suc (unat (ms_height (mon_state m)) - unat h))
    \<and> funding_depth (as_chain_state m) = monitor_funding_depth m
    \<and> unat (funding_double_spent_depth (as_chain_state m)) =
      (case funding_double_spent_height (mon_state m) of None \<Rightarrow> 0 | Some h \<Rightarrow> Suc (unat (ms_height (mon_state m)) - unat h))
    \<and> funding_double_spent_depth (as_chain_state m) = monitor_funding_double_spent_depth m"
proof -
  let ?h = "ms_height (mon_state m)"
  have "unat (?h + 1 - h) = Suc (unat ?h - unat h) \<and> saturating_sub (?h + 1) h = ?h + 1 - h" if "h \<le> ?h" for h
  proof -
    have "h \<le> ?h + 1" "unat h \<le> unat ?h"
      using that less_plus_1 [OF assms(2)] by (auto simp: word_le_nat_alt word_less_nat_alt)
    then show ?thesis using assms(2) by (simp add: unat_sub unat_plus_1 saturating_sub_def Suc_diff_le)
  qed
  moreover have "saturating_sub x x = 0" for x :: u32 by (simp add: saturating_sub_def)
  ultimately show ?thesis using assms(1)
    by (auto simp: as_chain_state_def Let_def monitor_funding_depth_def monitor_funding_double_spent_depth_def depth_of_def
        monitor_ok_def heights_ok_def split: option.splits)
qed

theorem chain_state_depths_exact_witness:
  "unat (funding_depth (as_chain_state (example_monitor\<lparr>mon_state := (mon_state example_monitor)\<lparr>funding_height := Some 91\<rparr>\<rparr>))) = 10"
proof -
  let ?m = "example_monitor\<lparr>mon_state := (mon_state example_monitor)\<lparr>funding_height := Some 91\<rparr>\<rparr>"
  have "monitor_ok ?m" "ms_height (mon_state ?m) \<noteq> - 1"
    by (simp_all add: monitor_ok_def state_ok_def heights_ok_def example_monitor_def monitor_new_def Let_def)
  from chain_state_depths_exact [OF this, THEN conjunct1] show ?thesis by (simp add: example_monitor_def monitor_new_def Let_def)
qed

text \<open>
  Removing the block that was added last restores the state, when the block made at most one
  change besides spending the inputs of the funding, the change was not yet recorded, and the block
  decodes to the same changes again.
\<close>

theorem removing_last_block_restores:
  assumes "monitor_ok m" "swept_ok (mon_state m)" "ms_height (mon_state m) \<noteq> - 1"
    and "provider_total pp" "list_all (tx_ok (mon_state m) txid_of) txs"
    and "on_add_block pp txid_of txs hash m = Ok (m', adds, removes)"
    and "push_transactions pp txid_of hash txs (mon_state m) = Ok (s, ds)"
    and "push_transactions pp txid_of hash txs (mon_state m') = Ok (s', ds')"
    and "ds_changes ds' = ds_changes ds" "one_change (s\<lparr>ms_height := ms_height s + 1\<rparr>) (ds_changes ds)"
  shows "\<exists>b q. on_remove_block pp txid_of txs hash m' = Ok (m\<lparr>mon_state := (mon_state m)\<lparr>saw_block := True\<rparr>\<rparr>, b, q)"
  using block_undone [OF assms] by blast

theorem removing_last_block_restores_witness:
  "\<exists>m' a r b q. on_add_block example_provider example_txid [example_funding_tx] 1 example_monitor = Ok (m', a, r)
      \<and> m' \<noteq> example_monitor
      \<and> on_remove_block example_provider example_txid [example_funding_tx] 1 m' =
          Ok (example_monitor\<lparr>mon_state := (mon_state example_monitor)\<lparr>saw_block := True\<rparr>\<rparr>, b, q)"
proof -
  have "swept_ok (mon_state example_monitor)" "ms_height (mon_state example_monitor) \<noteq> - 1"
    "list_all (tx_ok (mon_state example_monitor) example_txid) [example_funding_tx]"
    by (simp_all add: swept_ok_def is_closing_swept_def is_our_output_swept_def tx_ok_def example_txid_def
        example_funding_tx_def spend_of_def outpoint_def example_monitor_def monitor_new_def Let_def)
  note restores = removing_last_block_restores [OF example_monitor_ok this(1,2) example_provider_total this(3)]
  let ?push = "\<lambda>m. push_transactions example_provider example_txid 1 [example_funding_tx] (mon_state m)"
  let ?changes = "[FundingInputSpent (outpoint 99 0), FundingConfirmed (outpoint 5 0)]"
  have "case on_add_block example_provider example_txid [example_funding_tx] 1 example_monitor of
      Ok (m', _) \<Rightarrow> mon_decode_state m' = None \<and> ms_height (mon_state m') = 101
        \<and> map_result (\<lambda>(_, ds). ds_changes ds) id (?push m') = Ok ?changes | _ \<Rightarrow> False"
    by code_simp
  then obtain m' a r s' ds' where m': "on_add_block example_provider example_txid [example_funding_tx] 1 example_monitor = Ok (m', a, r)"
    "ms_height (mon_state m') = 101" "?push m' = Ok (s', ds')" "ds_changes ds' = ?changes"
    by (auto split: result.splits simp: map_result_eq_Ok)
  have "case ?push example_monitor of Ok (s, ds) \<Rightarrow> ds_changes ds = ?changes \<and> funding_height s = None
      \<and> ms_funding_outpoint s = None \<and> funding_double_spent_height s = None | _ \<Rightarrow> False"
    by code_simp
  then obtain s ds where s: "?push example_monitor = Ok (s, ds)" "ds_changes ds = ?changes" "funding_height s = None"
    "ms_funding_outpoint s = None" "funding_double_spent_height s = None"
    by (auto split: result.splits)
  have "one_change (s\<lparr>ms_height := ms_height s + 1\<rparr>) (ds_changes ds)"
    using s(2-) by (auto simp: one_change_def intro!: exI [of _ "[outpoint 99 0]"] exI [of _ "[FundingConfirmed (outpoint 5 0)]"])
  from restores [OF m'(1) s(1) m'(3) _ this] m' s(2) show ?thesis
    by (auto simp: example_monitor_def monitor_new_def Let_def)
qed

text \<open>
  C39: A block that closes the channel unilaterally and also spends one of the outputs of the close
  cannot be removed: the changes are undone in the order in which they were made, so the outputs of
  the close are dropped before the spend is undone.
\<close>

theorem removing_swept_close_panics:
  assumes "push_transactions pp txid_of hash txs (mon_state m) = Ok (s, ds)"
    and "ds_changes ds = before @ UnilateralCloseConfirmed txid funding our_index htlcs # after"
    and "\<exists>c \<in> set after. output_spend c"
  shows "on_remove_block pp txid_of txs hash m = Panic"
  using assms(1) removing_swept_close [OF assms(2,3), of s]
  by (auto simp: on_remove_block_def assert_that_def)

theorem removing_swept_close_panics_witness:
  "\<exists>m. add_blocks example_provider example_txid [([example_funding_tx], 1), ([example_close_tx, example_sweep_tx], 2)]
      example_monitor = Ok m
    \<and> on_remove_block example_provider example_txid [example_close_tx, example_sweep_tx] 2 m = Panic"
proof -
  let ?push = "\<lambda>m. push_transactions example_provider example_txid 2 [example_close_tx, example_sweep_tx] (mon_state m)"
  have "case add_blocks example_provider example_txid [([example_funding_tx], 1), ([example_close_tx, example_sweep_tx], 2)]
      example_monitor of
      Ok m \<Rightarrow> map_result (\<lambda>(_, ds). ds_changes ds) id (?push m) =
        Ok [UnilateralCloseConfirmed (0x20000000 OR 39) (outpoint 5 0) (Some 0) [], OurOutputSpent 0]
    | _ \<Rightarrow> False"
    by code_simp
  then obtain m s ds where "add_blocks example_provider example_txid
      [([example_funding_tx], 1), ([example_close_tx, example_sweep_tx], 2)] example_monitor = Ok m"
    and "?push m = Ok (s, ds)"
    and "ds_changes ds = [] @ UnilateralCloseConfirmed (0x20000000 OR 39) (outpoint 5 0) (Some 0) [] # [OurOutputSpent 0]"
    by (auto split: result.splits simp: map_result_eq_Ok)
  with removing_swept_close_panics [OF this(2,3)] show ?thesis by simp
qed

end
