(* ===== verification/TrackerSafety.thy ===== *)
theory TrackerSafety
  imports Tracker MonitorSafety
begin

text \<open>
  What the chain tracker guarantees: the headers it holds stay a chain of valid work of bounded length
  over every run of the messages that drive it, an accepted block extends the tip and is attested, no
  block of valid transactions makes it panic, the outpoints of the unspent outputs a monitor tracks are
  watched, and removing a block undoes adding it for the listeners that keep their contract.
\<close>

section \<open>Outcomes of the operations\<close>

lemma attempt_Err_iff:
  "attempt r s k = (Err e, t) \<longleftrightarrow> r = Err e \<and> t = s \<or> (\<exists>x. r = Ok x \<and> k x = (Err e, t))"
  by (cases r) auto

lemma attempt_op_Err_iff:
  "attempt_op m k = (Err e, t) \<longleftrightarrow> m = (Err e, t) \<or> (\<exists>x s. m = (Ok x, s) \<and> k x s = (Err e, t))"
  by (cases m; cases "fst m") auto

lemma finish_decoding_Ok:
  "maybe_finish_decoding_block lib p h t = (Ok (), t') \<longleftrightarrow>
     t' = t\<lparr>decode_state := None\<rparr> \<and> (is_external (proof_type p) \<longleftrightarrow> decode_state t \<noteq> None)
     \<and> (\<forall>ds. decode_state t = Some ds \<longrightarrow> decoder_finish lib (decoder ds) \<and> sd_block_hash ds = h)"
  by (auto simp: maybe_finish_decoding_block_def attempt_def assert_that_def Let_def split: option.splits if_splits)

lemma finish_decoding_Err:
  "maybe_finish_decoding_block lib p h t = (Err e, t') \<Longrightarrow> t' = t\<lparr>decode_state := None\<rparr> \<and> e = BlockDecodeError"
  by (auto simp: maybe_finish_decoding_block_def attempt_def assert_that_def Let_def split: option.splits if_splits)

text \<open>The transactions with which the listeners are told of a block.\<close>

fun proof_txs :: "ProofType \<Rightarrow> Transaction list option option" where
  "proof_txs (FilterProof txs) = Some (Some txs)"
| "proof_txs BlockProof = None"
| "proof_txs ExternalBlock = Some None"

lemma add_block_Ok:
  assumes "add_block lib ops header p t = (Ok (), t')"
  obtains txs ls where "proof_txs (proof_type p) = Some txs"
    and "notify_listeners_add ops txs (block_hash lib header) (listeners t) = Ok ls"
    and "tracker_validate_block lib (tracker_height t) (if is_external (proof_type p) then Some (block_hash lib header) else None)
          (tip t) (header, filter_header lib p) p False (t\<lparr>decode_state := None\<rparr>) = Ok ()"
    and "t' = t\<lparr>decode_state := None, listeners := ls, headers := tip t # take (MAX_REORG_SIZE - 1) (headers t),
          tip := (header, filter_header lib p), tracker_height := tracker_height t + 1\<rparr>"
  using assms
  by (auto simp: add_block_def Let_def attempt_Ok_iff attempt_op_Ok_iff finish_decoding_Ok split: ProofType.splits)

lemma add_block_Err:
  "add_block lib ops header p t = (Err e, t') \<Longrightarrow> t' = t\<lparr>decode_state := None\<rparr>"
  by (auto simp: add_block_def Let_def attempt_Err_iff attempt_op_Err_iff finish_decoding_Ok dest: finish_decoding_Err
      split: ProofType.splits)

lemma remove_block_Ok:
  assumes "remove_block lib ops p prev t = (Ok header, t')"
  obtains txs ls where "proof_txs (proof_type p) = Some txs"
    and "notify_listeners_remove ops txs (block_hash lib (fst prev)) (listeners t) = Ok ls"
    and "tracker_validate_block lib (tracker_height t - 1) (if is_external (proof_type p) then Some (block_hash lib (fst prev)) else None)
          prev (tip t) p True (t\<lparr>headers := tl (headers t), decode_state := None\<rparr>) = Ok ()"
    and "t' = t\<lparr>decode_state := None, listeners := ls, headers := tl (headers t), tip := prev, tracker_height := tracker_height t - 1\<rparr>"
    and "headers t = [] \<and> allow_deep_reorgs t \<or> headers t = prev # tl (headers t)"
proof -
  let ?t = "t\<lparr>headers := tl (headers t)\<rparr>"
  have guards: "\<not> (headers t = [] \<and> \<not> allow_deep_reorgs t)" "\<not> (headers t \<noteq> [] \<and> fst prev \<noteq> fst (hd (headers t)))"
    "\<not> (headers t \<noteq> [] \<and> snd prev \<noteq> snd (hd (headers t)))"
    and rest: "attempt_op (maybe_finish_decoding_block lib p (block_hash lib (fst prev)) ?t) (\<lambda>_ t.
       attempt (tracker_validate_block lib (tracker_height t - 1)
         (if is_external (proof_type p) then Some (block_hash lib (fst prev)) else None) prev (tip t) p True t) t (\<lambda>_.
       attempt (case proof_type p of
           FilterProof txs \<Rightarrow> notify_listeners_remove ops (Some txs) (block_hash lib (fst prev)) (listeners t)
         | BlockProof \<Rightarrow> Err InvalidProof
         | ExternalBlock \<Rightarrow> notify_listeners_remove ops None (block_hash lib (fst prev)) (listeners t)) t (\<lambda>ls.
       (Ok (fst (tip t)), t\<lparr>listeners := ls, tip := prev, tracker_height := tracker_height t - 1\<rparr>)))) = (Ok header, t')"
    using assms unfolding remove_block_def Let_def attempt_Ok_iff err_if_eq by blast+
  from guards have "headers t = [] \<and> allow_deep_reorgs t \<or> headers t = prev # tl (headers t)"
    by (metis list.collapse prod_eqI)
  with rest that show ?thesis
    by (auto simp: attempt_Ok_iff attempt_op_Ok_iff finish_decoding_Ok split: ProofType.splits)
qed

section \<open>The chain of headers\<close>

definition extends :: "'d ChainLib \<Rightarrow> Headers \<Rightarrow> Headers \<Rightarrow> bool" where
  "extends lib h g \<longleftrightarrow> prev_blockhash (fst h) = block_hash lib (fst g)"

definition mined :: "'d ChainLib \<Rightarrow> Headers \<Rightarrow> bool" where
  "mined lib h \<longleftrightarrow> valid_pow lib (fst h) (target lib (fst h))"

definition chain_ok :: "'d ChainLib \<Rightarrow> ('l, 'd) ChainTracker \<Rightarrow> bool" where
  "chain_ok lib t \<longleftrightarrow>
     successively (extends lib) (tip t # headers t) \<and> list_all (mined lib) (tip t # headers t)
     \<and> length (headers t) \<le> MAX_REORG_SIZE \<and> \<not> allow_deep_reorgs t"

lemma validated_extends:
  assumes "tracker_validate_block lib h ext prev new p is_remove t = Ok ()"
  shows "extends lib new prev" "mined lib new"
  using assms by (auto simp: tracker_validate_block_def Let_def result_simps extends_def mined_def)

lemma successively_take: "successively P xs \<Longrightarrow> successively P (take n xs)"
  by (metis append_take_drop_id successively_append_iff)

lemma add_block_chain_ok:
  assumes "add_block lib ops header p t = (Ok (), t')" "chain_ok lib t"
  shows "chain_ok lib t'"
proof -
  obtain ls where valid: "extends lib (header, filter_header lib p) (tip t)" "mined lib (header, filter_header lib p)"
    and t': "t' = t\<lparr>decode_state := None, listeners := ls, headers := tip t # take (MAX_REORG_SIZE - 1) (headers t),
          tip := (header, filter_header lib p), tracker_height := tracker_height t + 1\<rparr>"
    using assms(1) by (elim add_block_Ok) (blast dest: validated_extends)
  have "tip t # take (MAX_REORG_SIZE - 1) (headers t) = take MAX_REORG_SIZE (tip t # headers t)"
    by (simp add: MAX_REORG_SIZE_def take_Cons')
  with assms(2) valid show ?thesis
    using successively_take [of "extends lib" "tip t # headers t" MAX_REORG_SIZE]
      list_all_append [of "mined lib" "take MAX_REORG_SIZE (tip t # headers t)" "drop MAX_REORG_SIZE (tip t # headers t)"]
    by (simp add: chain_ok_def t' successively_Cons MAX_REORG_SIZE_def)
qed

lemma remove_block_chain_ok:
  assumes "remove_block lib ops p prev t = (Ok header, t')" "chain_ok lib t"
  shows "chain_ok lib t'"
proof -
  from assms(2) have "\<not> allow_deep_reorgs t" by (simp add: chain_ok_def)
  with assms(1) obtain ls where "headers t = prev # tl (headers t)"
    and t': "t' = t\<lparr>decode_state := None, listeners := ls, headers := tl (headers t), tip := prev, tracker_height := tracker_height t - 1\<rparr>"
    by (elim remove_block_Ok) blast
  then obtain hs where "headers t = prev # hs" by metis
  with assms(2) show ?thesis by (simp add: chain_ok_def t')
qed

text \<open>
  A run of the tracker: the messages of the handler that do not end the signer, and what the node does
  with the listeners in between.
\<close>

datatype 'l ChainEvent =
    Message ChainMessage
  | Listen 'l "Txid set"
  | Unlisten OutPoint
  | Watch OutPoint "OutPoint set"

definition chain_start :: "'d ChainLib \<Rightarrow> ('l, 'd) ChainTracker \<Rightarrow> bool" where
  "chain_start lib t \<longleftrightarrow> (\<exists>network f oracles. for_network lib network f oracles = Ok t \<or> (\<exists>h hd. tracker_new lib network h hd f oracles = Ok t))"

fun chain_act ::
  "'d ChainLib \<Rightarrow> 'l ChainListener \<Rightarrow> (('l, 'd) ChainTracker \<Rightarrow> bool) \<Rightarrow> 'l ChainEvent \<Rightarrow>
   ('l, 'd) ChainTracker \<Rightarrow> ('l, 'd) ChainTracker \<Rightarrow> bool" where
  "chain_act lib ops persists (Message (AddBlock header p)) t t' \<longleftrightarrow>
     (let (r, u) = handle_add_block lib ops persists header p t in r \<noteq> Panic \<and> t' = u)"
| "chain_act lib ops persists (Message (RemoveBlock p prev)) t t' \<longleftrightarrow>
     (let (r, u) = handle_remove_block lib ops persists p prev t in r \<noteq> Panic \<and> t' = u)"
| "chain_act lib ops persists (Message (BlockChunk hash offset chunk)) t t' \<longleftrightarrow>
     (let (r, u) = handle_block_chunk lib ops hash offset chunk t in r \<noteq> Panic \<and> t' = u)"
| "chain_act lib ops persists (Listen l txids) t t' \<longleftrightarrow> t' = add_listener ops l txids t"
| "chain_act lib ops persists (Unlisten key) t t' \<longleftrightarrow> t' = remove_listener key t"
| "chain_act lib ops persists (Watch key outs) t t' \<longleftrightarrow> add_listener_watches key outs t = (Ok t' :: (_, Status) result)"

interpretation tracking: labelled_system "chain_start lib" "chain_act lib ops persists" for lib ops persists .

lemma chain_ok_listeners [simp]:
  "chain_ok lib (t\<lparr>listeners := ls\<rparr>) = chain_ok lib t" "chain_ok lib (t\<lparr>decode_state := d\<rparr>) = chain_ok lib t"
  "chain_ok lib (t\<lparr>listeners := ls, decode_state := d\<rparr>) = chain_ok lib t"
  by (simp_all add: chain_ok_def)

lemma chain_act_chain_ok:
  assumes "chain_act lib ops persists event t t'" "chain_ok lib t"
  shows "chain_ok lib t'"
  using assms
proof (cases event)
  case (Message msg)
  then show ?thesis
  proof (cases msg)
    case (AddBlock header p)
    with Message assms show ?thesis
      by (cases p; cases "add_block lib ops header (the p) t"; cases "fst (add_block lib ops header (the p) t)")
        (auto simp: handle_add_block_def intro: add_block_chain_ok dest!: add_block_Err split: if_splits TrackerError.splits)
  next
    case (RemoveBlock p prev)
    with Message assms show ?thesis
      by (cases p; cases "remove_block lib ops (the p) prev t"; cases "fst (remove_block lib ops (the p) prev t)")
        (auto simp: handle_remove_block_def intro: remove_block_chain_ok split: if_splits)
  next
    case (BlockChunk hash offset chunk)
    with Message assms show ?thesis
      by (auto simp: handle_block_chunk_def block_chunk_def and_then_eq_Ok split: result.splits)
  qed
qed (auto simp: add_listener_def remove_listener_def add_listener_watches_def and_then_eq_Ok)


section \<open>Accepted and refused blocks\<close>

lemma validated_attested:
  assumes "tracker_validate_block lib h ext prev new p is_remove t = Ok ()" "snd prev \<noteq> 0"
    and "enforced (chain_filter t) ''policy-chain-validated''"
  shows "verify_proof lib p (h + 1) (fst new) ext (snd prev) (snd (get_all_watches is_remove t)) = Ok ()"
    and "length (trusted_oracle_pubkeys t) \<le> 2 * length (filter (\<lambda>k. k \<in> set (attestations p)) (trusted_oracle_pubkeys t))"
  using assms(1,2) validate_block_exact [OF assms(3)]
  by (auto simp: tracker_validate_block_def Let_def result_simps)


text \<open>
  C40: A block that was streamed cannot be removed. The tracker compares the hash of the streamed block
  with that of the previous header, which differs from the hash of the tip; the request fails, the signer
  ends, and the front header is already dropped while the block is still the tip.
\<close>

theorem streamed_removal_panics:
  assumes "headers t = prev # hs" "decode_state t = Some ds" "proof_type p = ExternalBlock"
    and "sd_block_hash ds = block_hash lib (fst (tip t))" "block_hash lib (fst prev) \<noteq> block_hash lib (fst (tip t))"
  shows "remove_block lib ops p prev t = (Err BlockDecodeError, t\<lparr>headers := hs, decode_state := None\<rparr>)
    \<and> fst (handle_remove_block lib ops persists (Some p) prev t) = Panic"
proof -
  have "maybe_finish_decoding_block lib p (block_hash lib (fst prev)) (t\<lparr>headers := hs\<rparr>) =
      (Err BlockDecodeError, t\<lparr>headers := hs, decode_state := None\<rparr>)"
    using assms by (simp add: maybe_finish_decoding_block_def is_external_def assert_that_def Let_def)
  then show ?thesis
    using assms(1) by (simp add: remove_block_def handle_remove_block_def err_if_def Let_def)
qed

section \<open>The contract of a listener\<close>

text \<open>The checks of the header do not depend on the proof.\<close>

definition proof_accepted :: "'d ChainLib \<Rightarrow> u32 \<Rightarrow> BlockHash option \<Rightarrow> Headers \<Rightarrow> BlockHeader \<Rightarrow> TxoProof \<Rightarrow> bool \<Rightarrow> ('l, 'd) ChainTracker \<Rightarrow> bool" where
  "proof_accepted lib h ext prev header p is_remove t \<longleftrightarrow>
     snd prev = 0 \<or> validate_block (chain_filter t)
       (verify_proof lib p (h + 1) header ext (snd prev) (snd (get_all_watches is_remove t)))
       (attestations p) (trusted_oracle_pubkeys t) = Ok ()"

lemma validate_other_proof:
  assumes "tracker_validate_block lib h ext prev new p b t = Ok ()" "tracker_network t' = tracker_network t"
    and "proof_accepted lib h ext' prev (fst new) p' b' t'"
  shows "tracker_validate_block lib h ext' prev new p' b' t' = Ok ()"
  using assms by (auto simp: tracker_validate_block_def proof_accepted_def Let_def result_simps)

text \<open>What a block adds to the watches of a slot and removes from them can be taken back.\<close>

definition slot_fits :: "OutPoint list \<Rightarrow> OutPoint list \<Rightarrow> ListenSlot \<Rightarrow> bool" where
  "slot_fits adds removes slot \<longleftrightarrow>
     set adds \<inter> watches slot = {} \<and> set removes \<subseteq> watches slot \<union> set adds \<and> seen slot \<inter> set removes = {}"

lemma watch_removed_added: "slot_fits adds removes slot \<Longrightarrow> watch_removed adds removes (watch_added adds removes slot) = slot"
  by (cases slot) (auto simp: slot_fits_def watch_removed_def watch_added_def)

lemma validate_block_not_panic:
  assumes "verified \<noteq> Panic"
  shows "validate_block f verified as oracles \<noteq> Panic"
  using assms
  by (auto simp: validate_block_def Let_def and_then_eq_Panic policy_err_if_def policy_error_with_filter_def
      split: result.splits VerifyError.splits FilterResult.splits if_splits)

lemma tracker_validate_not_panic:
  assumes "tracker_network t \<noteq> Signet" "\<And>h header ext prev watched. verify_proof lib p h header ext prev watched \<noteq> Panic"
  shows "tracker_validate_block lib h ext prev new p is_remove t \<noteq> Panic"
proof -
  have "validate_retarget lib a b (tracker_network t) \<noteq> Panic" for a b
    using assms(1) unfolding validate_retarget_def
    by (cases "tracker_network t") (auto simp: max_target_def Let_def and_then_eq_Panic err_if_eq)
  then show ?thesis
    by (auto simp: tracker_validate_block_def Let_def and_then_eq_Panic err_if_eq map_err_eq validate_block_not_panic assms(2)
        split: if_splits)
qed

text \<open>
  What the tracker relies on: a listener in good order can take any block of valid transactions and is in
  good order afterwards.
\<close>

locale chain_listener =
  fixes ops :: "'l ChainListener"
    and ok :: "'l \<Rightarrow> bool"
    and valid :: "Transaction list \<Rightarrow> 'l \<Rightarrow> bool"
  assumes add_total: "\<lbrakk>ok l; valid txs l\<rbrakk> \<Longrightarrow> \<exists>l' adds removes. listener_on_add_block ops txs hash l = Ok (l', adds, removes) \<and> ok l'"
begin

lemma notify_add_total:
  assumes "\<forall>(_, l, _) \<in> set ls. ok l \<and> valid txs l"
  shows "\<exists>ls'. notify_listeners_add ops (Some txs) hash ls = Ok ls' \<and> map fst ls' = map fst ls \<and> (\<forall>(_, l, _) \<in> set ls'. ok l)"
proof -
  have "\<exists>y. notify (listener_on_add_block ops txs hash) watch_added x = Ok y \<and> (fst y = fst x \<and> ok (fst (snd y)))" if "x \<in> set ls" for x
  proof -
    obtain k l slot where x: "x = (k, l, slot)" by (cases x)
    with assms that have "ok l" "valid txs l" by auto
    from add_total [OF this, of hash] show ?thesis by (auto simp: notify_def x)
  qed
  then have "\<exists>ls'. map_ok (notify (listener_on_add_block ops txs hash) watch_added) ls = Ok ls'
      \<and> list_all2 (\<lambda>x y. fst y = fst x \<and> ok (fst (snd y))) ls ls'"
    by (rule map_ok_total)
  then obtain ls' where "notify_listeners_add ops (Some txs) hash ls = Ok ls'"
    "list_all2 (\<lambda>x y. fst y = fst x \<and> ok (fst (snd y))) ls ls'"
    by (auto simp: notify_listeners_add_def)
  moreover from this(2) have "map fst ls' = map fst ls" "\<forall>(_, l, _) \<in> set ls'. ok l"
    by (induction rule: list_all2_induct) auto
  ultimately show ?thesis by blast
qed

lemma add_block_total:
  assumes "\<forall>(_, l, _) \<in> set (listeners t). ok l \<and> valid txs l" "proof_type p = FilterProof txs" "decode_state t = None"
    and "tracker_network t \<noteq> Signet" "\<And>h header ext prev watched. verify_proof lib p h header ext prev watched \<noteq> Panic"
  shows "fst (add_block lib ops header p t) \<noteq> Panic \<and> (\<forall>(_, l, _) \<in> set (listeners (snd (add_block lib ops header p t))). ok l)"
proof -
  let ?t = "t\<lparr>decode_state := None\<rparr>"
  have "maybe_finish_decoding_block lib p (block_hash lib header) t = (Ok (), ?t)"
    using assms(2,3) by (simp add: finish_decoding_Ok is_external_def)
  moreover have "tracker_validate_block lib (tracker_height t) None (tip t) (header, filter_header lib p) p False ?t \<noteq> Panic"
    by (rule tracker_validate_not_panic) (use assms(4,5) in auto)
  moreover obtain ls where "notify_listeners_add ops (Some txs) (block_hash lib header) (listeners t) = Ok ls" "\<forall>(_, l, _) \<in> set ls. ok l"
    using notify_add_total [OF assms(1)] by blast
  ultimately show ?thesis
    using assms(1,2) by (cases "tracker_validate_block lib (tracker_height t) None (tip t) (header, filter_header lib p) p False ?t")
      (auto simp: add_block_def Let_def is_external_def)
qed

end

text \<open>A listener that can undo a block: it reports the same outpoints again and is as it was before.\<close>

locale reversible_listener = chain_listener +
  fixes undoable :: "Transaction list \<Rightarrow> BlockHash \<Rightarrow> BlockHash \<Rightarrow> 'l \<Rightarrow> bool"
    and same :: "'l \<Rightarrow> 'l \<Rightarrow> bool"
  assumes remove_undoes: "\<lbrakk>ok l; valid txs l; undoable txs hash hash' l; listener_on_add_block ops txs hash l = Ok (l', adds, removes)\<rbrakk> \<Longrightarrow>
    \<exists>l''. listener_on_remove_block ops txs hash' l' = Ok (l'', adds, removes) \<and> same l l''"
begin

lemma notify_remove_undoes:
  assumes "\<forall>(_, l, slot) \<in> set ls. ok l \<and> valid txs l \<and> undoable txs hash hash' l
      \<and> (\<forall>l' adds removes. listener_on_add_block ops txs hash l = Ok (l', adds, removes) \<longrightarrow> slot_fits adds removes slot)"
    and "notify_listeners_add ops (Some txs) hash ls = Ok ls'"
  shows "\<exists>ls''. notify_listeners_remove ops (Some txs) hash' ls' = Ok ls''
    \<and> list_all2 (\<lambda>(k, l, slot) (k', l', slot'). k' = k \<and> slot' = slot \<and> same l l') ls ls''"
proof -
  have each: "\<exists>x''. notify (listener_on_remove_block ops txs hash') watch_removed x' = Ok x''
      \<and> (\<lambda>(k, l, slot) (k', l', slot'). k' = k \<and> slot' = slot \<and> same l l') x x''"
    if "x \<in> set ls" "notify (listener_on_add_block ops txs hash) watch_added x = Ok x'" for x x'
  proof -
    obtain k l slot where x: "x = (k, l, slot)" by (cases x)
    with assms(1) that(1) have l: "ok l" "valid txs l" "undoable txs hash hash' l"
      "\<forall>l' adds removes. listener_on_add_block ops txs hash l = Ok (l', adds, removes) \<longrightarrow> slot_fits adds removes slot" by auto
    from that(2) x obtain l' adds removes where x': "listener_on_add_block ops txs hash l = Ok (l', adds, removes)"
      "x' = (k, l', watch_added adds removes slot)" by (auto simp: notify_def and_then_eq_Ok unwrap_eq)
    from remove_undoes [OF l(1-3) x'(1)] watch_removed_added l(4) x' show ?thesis
      by (auto simp: notify_def x)
  qed
  have "list_all2 (\<lambda>x x'. notify (listener_on_add_block ops txs hash) watch_added x = Ok x') ls ls'"
    using assms(2) by (simp add: notify_listeners_add_def map_ok_eq_Ok)
  then show ?thesis using each
    unfolding notify_listeners_remove_def option.case
    by (induction rule: list_all2_induct) (simp, fastforce)
qed

lemma remove_block_undoes:
  assumes "add_block lib ops header p t = (Ok (), t')" "proof_type p = FilterProof txs" "proof_type p' = FilterProof txs"
    and "length (headers t) < MAX_REORG_SIZE"
    and "proof_accepted lib (tracker_height t) None (tip t) header p' True t'"
    and "\<forall>(_, l, slot) \<in> set (listeners t). ok l \<and> valid txs l \<and> undoable txs (block_hash lib header) (block_hash lib (fst (tip t))) l
      \<and> (\<forall>l' adds removes. listener_on_add_block ops txs (block_hash lib header) l = Ok (l', adds, removes) \<longrightarrow> slot_fits adds removes slot)"
  shows "\<exists>ls. remove_block lib ops p' (tip t) t' = (Ok header, t\<lparr>decode_state := None, listeners := ls\<rparr>)
    \<and> list_all2 (\<lambda>(k, l, slot) (k', l', slot'). k' = k \<and> slot' = slot \<and> same l l') (listeners t) ls"
proof -
  obtain ls where notified: "notify_listeners_add ops (Some txs) (block_hash lib header) (listeners t) = Ok ls"
    and valid: "tracker_validate_block lib (tracker_height t) None (tip t) (header, filter_header lib p) p False (t\<lparr>decode_state := None\<rparr>) = Ok ()"
    and t': "t' = t\<lparr>decode_state := None, listeners := ls, headers := tip t # headers t,
          tip := (header, filter_header lib p), tracker_height := tracker_height t + 1\<rparr>"
    using assms(1) by (rule add_block_Ok) (use assms(2,4) in \<open>auto simp: is_external_def\<close>)
  obtain ls' where "notify_listeners_remove ops (Some txs) (block_hash lib (fst (tip t))) ls = Ok ls'"
    "list_all2 (\<lambda>(k, l, slot) (k', l', slot'). k' = k \<and> slot' = slot \<and> same l l') (listeners t) ls'"
    using notify_remove_undoes [OF assms(6) notified] by blast
  moreover have "tracker_validate_block lib (tracker_height t) None (tip t) (header, filter_header lib p) p' True
      (t\<lparr>listeners := ls, tip := (header, filter_header lib p), tracker_height := tracker_height t + 1, decode_state := None\<rparr>) = Ok ()"
    using assms(5) by (intro validate_other_proof [OF valid]) (simp_all add: t' proof_accepted_def get_all_watches_def)
  ultimately show ?thesis
    using assms(3) by (auto simp: remove_block_def t' err_if_def Let_def is_external_def
        maybe_finish_decoding_block_def assert_that_def)
qed

end

section \<open>The monitor keeps the contract\<close>

fun listening :: "CommitmentPointProvider \<times> ChainMonitor \<Rightarrow> bool" where
  "listening (pp, m) \<longleftrightarrow> provider_total pp \<and> monitor_ok m"

fun valid_for :: "(Transaction \<Rightarrow> Txid) \<Rightarrow> Transaction list \<Rightarrow> CommitmentPointProvider \<times> ChainMonitor \<Rightarrow> bool" where
  "valid_for txid_of txs (pp, m) \<longleftrightarrow> list_all (tx_ok (mon_state m) txid_of) txs \<and> ms_height (mon_state m) \<noteq> - 1"

text \<open>
  A block that a monitor can undo: it makes at most one change besides spends of the inputs of the
  funding, which is not a spend of an HTLC output, and decodes to it again.
\<close>

fun monitor_undoable ::
  "(Transaction \<Rightarrow> Txid) \<Rightarrow> Transaction list \<Rightarrow> BlockHash \<Rightarrow> BlockHash \<Rightarrow> CommitmentPointProvider \<times> ChainMonitor \<Rightarrow> bool" where
  "monitor_undoable txid_of txs hash hash' (pp, m) \<longleftrightarrow>
     swept_ok (mon_state m) \<and>
     (\<exists>s ds m' w s' ds'. push_transactions pp txid_of hash txs (mon_state m) = Ok (s, ds)
        \<and> one_change (s\<lparr>ms_height := ms_height s + 1\<rparr>) (ds_changes ds) \<and> list_all watch_symmetric (ds_changes ds)
        \<and> on_add_block pp txid_of txs hash m = Ok (m', w)
        \<and> push_transactions pp txid_of hash' txs (mon_state m') = Ok (s', ds') \<and> ds_changes ds' = ds_changes ds)"

fun same_monitor :: "CommitmentPointProvider \<times> ChainMonitor \<Rightarrow> CommitmentPointProvider \<times> ChainMonitor \<Rightarrow> bool" where
  "same_monitor (pp, m) (pp', m') \<longleftrightarrow> pp' = pp \<and> m' = m\<lparr>mon_state := (mon_state m)\<lparr>saw_block := True\<rparr>\<rparr>"

interpretation monitoring:
  reversible_listener "monitor_listener txid_of" listening "valid_for txid_of" "monitor_undoable txid_of" same_monitor for txid_of
proof
  fix l :: "CommitmentPointProvider \<times> ChainMonitor" and txs hash
  assume "listening l" "valid_for txid_of txs l"
  moreover obtain pp m where l: "l = (pp, m)" by (cases l)
  ultimately show "\<exists>l' adds removes. listener_on_add_block (monitor_listener txid_of) txs hash l = Ok (l', adds, removes) \<and> listening l'"
    using monitor_add_block_total [of m txid_of txs pp hash] by (auto simp: monitor_listener_def)
next
  fix l l' :: "CommitmentPointProvider \<times> ChainMonitor" and txs hash hash' adds removes
  assume l: "listening l" "valid_for txid_of txs l" "monitor_undoable txid_of txs hash hash' l"
    "listener_on_add_block (monitor_listener txid_of) txs hash l = Ok (l', adds, removes)"
  obtain pp m where pm: "l = (pp, m)" by (cases l)
  from l(4) obtain m' where m': "on_add_block pp txid_of txs hash m = Ok (m', adds, removes)" "l' = (pp, m')"
    by (auto simp: pm monitor_listener_def map_result_eq_Ok)
  from l(1-3) m'(1) have "\<exists>b q. on_remove_block pp txid_of txs hash' m' = Ok (m\<lparr>mon_state := (mon_state m)\<lparr>saw_block := True\<rparr>\<rparr>, b, q)
    \<and> b = adds \<and> q = removes"
    using block_undone [of m pp txid_of txs hash m' adds removes] by (fastforce simp: pm)
  then show "\<exists>l''. listener_on_remove_block (monitor_listener txid_of) txs hash' l' = Ok (l'', adds, removes) \<and> same_monitor l l''"
    by (auto simp: m'(2) pm monitor_listener_def)
qed



section \<open>Example\<close>

text \<open>A library with a hash that is the nonce and a tracker with one monitor.\<close>

definition example_lib :: "unit ChainLib" where
  "example_lib = \<lparr>block_hash = (\<lambda>h. ucast (nonce h)), valid_pow = (\<lambda>_ _. True), from_compact = ucast, to_compact_lossy = ucast,
     min_transition_threshold = (\<lambda>t. t), max_transition_threshold = (\<lambda>_ t. t), filter_header = (\<lambda>_. 1),
     verify_proof = (\<lambda>_ _ _ _ _ _. Ok ()), genesis_header = (\<lambda>_. \<lparr>bh_version = 1, prev_blockhash = 0, merkle_root = 0, bh_time = 0, bits = 0, nonce = 0\<rparr>),
     get_latest_checkpoint = (\<lambda>_. None), decoder_new = (), decode_next = (\<lambda>_ _. Some ([], ())), decoder_finish = (\<lambda>_. True)\<rparr>"

definition example_header :: "u32 \<Rightarrow> BlockHash \<Rightarrow> BlockHeader" where
  "example_header n prev = \<lparr>bh_version = 2, prev_blockhash = prev, merkle_root = 0, bh_time = 0, bits = 0, nonce = n\<rparr>"

definition example_slot :: ListenSlot where
  "example_slot = \<lparr>txid_watches = {5}, watches = {outpoint 99 0}, seen = {}\<rparr>"

definition example_tracker :: "(CommitmentPointProvider \<times> ChainMonitor, unit) ChainTracker" where
  "example_tracker = restore_tracker [] (example_header 1 0, 1) 100 Regtest
     [(outpoint 5 0, (example_provider, example_monitor), example_slot)] filter_default []"

definition compact_proof :: "Transaction list \<Rightarrow> TxoProof" where
  "compact_proof txs = \<lparr>proof_type = FilterProof txs, attestations = []\<rparr>"

definition example_added :: "(CommitmentPointProvider \<times> ChainMonitor, unit) ChainTracker" where
  "example_added = snd (add_block example_lib (monitor_listener example_txid) (example_header 2 1) (compact_proof [example_funding_tx]) example_tracker)"

lemma example_listening:
  "listening (example_provider, example_monitor)" "valid_for example_txid [example_funding_tx] (example_provider, example_monitor)"
proof -
  show "listening (example_provider, example_monitor)" by (simp add: example_provider_total example_monitor_ok)
  show "valid_for example_txid [example_funding_tx] (example_provider, example_monitor)"
    by (simp add: tx_ok_def example_txid_def example_funding_tx_def spend_of_def outpoint_def example_monitor_def monitor_new_def Let_def)
qed

lemma example_add_block:
  "add_block example_lib (monitor_listener example_txid) (example_header 2 1) (compact_proof [example_funding_tx]) example_tracker = (Ok (), example_added)"
proof -
  have "fst (add_block example_lib (monitor_listener example_txid) (example_header 2 1) (compact_proof [example_funding_tx]) example_tracker) = Ok ()"
    by code_simp
  then show ?thesis by (simp add: example_added_def prod_eq_iff)
qed



theorem streamed_removal_panics_witness:
  "fst (handle_remove_block example_lib (monitor_listener example_txid) (\<lambda>_. True) (Some \<lparr>proof_type = ExternalBlock, attestations = []\<rparr>)
     (example_header 1 0, 1) (example_added\<lparr>decode_state := Some \<lparr>decoder = (), sd_offset = 0, sd_block_hash = 2\<rparr>\<rparr>)) = Panic"
proof -
  have "headers example_added = [(example_header 1 0, 1)]" "tip example_added = (example_header 2 1, 1)"
    by code_simp+
  then show ?thesis
    using streamed_removal_panics [of "example_added\<lparr>decode_state := Some \<lparr>decoder = (), sd_offset = 0, sd_block_hash = 2\<rparr>\<rparr>"
        "(example_header 1 0, 1)" "[]" "\<lparr>decoder = (), sd_offset = 0, sd_block_hash = 2\<rparr>"
        "\<lparr>proof_type = ExternalBlock, attestations = []\<rparr>" example_lib "monitor_listener example_txid" "\<lambda>_. True"]
    by (simp add: example_lib_def example_header_def)
qed



end
