(* ===== verification/WatchSafety.thy ===== *)
theory WatchSafety
  imports TrackerSafety
begin

text \<open>
  The outpoints the tracker watches for a monitor. The proofs of blocks are made for the watched
  outpoints only, so a monitor sees the spend of an output only when the output is watched: every output
  that a monitor tracks and that is not spent yet is watched after every block. Removing a block keeps
  this for the changes that report the same outpoints again, but not for the spends of HTLC outputs.
\<close>

section \<open>Tracked outputs\<close>

fun our_entry :: "Txid \<Rightarrow> (u32 \<times> bool) option \<Rightarrow> (OutPoint \<times> bool) list" where
  "our_entry txid None = []"
| "our_entry txid (Some (vout, spent)) = [(outpoint txid vout, spent)]"

fun funding_entry :: "OutPoint option \<Rightarrow> bool \<Rightarrow> (OutPoint \<times> bool) list" where
  "funding_entry None spent = []"
| "funding_entry (Some out) spent = [(out, spent)]"

definition closing_outputs :: "ClosingOutpoints \<Rightarrow> (OutPoint \<times> bool) list" where
  "closing_outputs c =
     our_entry (co_txid c) (our_output c)
     @ zip (map (outpoint (co_txid c)) (htlc_outputs c)) (htlc_spents c)
     @ map (\<lambda>h. (sl_outpoint h, sl_spent h)) (second_level_htlc_outputs c)"

definition tracked_outputs :: "State \<Rightarrow> (OutPoint \<times> bool) list" where
  "tracked_outputs s =
     funding_entry (ms_funding_outpoint s) (mutual_closing_height s \<noteq> None \<or> unilateral_closing_height s \<noteq> None)
     @ (case closing_outpoints s of None \<Rightarrow> [] | Some c \<Rightarrow> closing_outputs c)"

definition outputs_ok :: "State \<Rightarrow> bool" where
  "outputs_ok s \<longleftrightarrow> distinct (map fst (tracked_outputs s))
     \<and> (case closing_outpoints s of None \<Rightarrow> True | Some c \<Rightarrow> length (htlc_spents c) = length (htlc_outputs c))"

definition unspent_in :: "OutPoint set \<Rightarrow> Changed \<Rightarrow> bool" where
  "unspent_in W = (\<lambda>(s, adds, removes).
     outputs_ok s \<and> (\<forall>out. (out, False) \<in> set (tracked_outputs s) \<longrightarrow> out \<in> (W \<union> set adds) - set removes))"

text \<open>
  What a change relies on: an output is created once and before it is spent, and the inputs of the funding
  transaction are no tracked outputs.
\<close>

fun change_ok :: "StateChange \<Rightarrow> State \<Rightarrow> OutPoint list \<Rightarrow> bool" where
  "change_ok (FundingConfirmed out) s removes \<longleftrightarrow>
     (case closing_outpoints s of None \<Rightarrow> True | Some c \<Rightarrow> out \<notin> fst ` set (closing_outputs c)) \<and> out \<notin> set removes"
| "change_ok (FundingInputSpent out) s removes \<longleftrightarrow> out \<notin> fst ` set (tracked_outputs s)"
| "change_ok (UnilateralCloseConfirmed txid funding our_index htlcs) s removes \<longleftrightarrow>
     ms_funding_outpoint s = Some funding \<and> distinct (funding # closing_adds txid our_index htlcs)
     \<and> set (closing_adds txid our_index htlcs) \<inter> set removes = {}"
| "change_ok (MutualCloseConfirmed txid funding) s removes \<longleftrightarrow> ms_funding_outpoint s = Some funding"
| "change_ok (HTLCOutputSpent vout second) s removes \<longleftrightarrow> second \<notin> fst ` set (tracked_outputs s) \<and> second \<notin> set removes"
| "change_ok _ s removes \<longleftrightarrow> True"

text \<open>Spending an output turns the mark of its entry and leaves the others.\<close>

definition spends :: "OutPoint \<Rightarrow> (OutPoint \<times> bool) list \<Rightarrow> (OutPoint \<times> bool) list \<Rightarrow> bool" where
  "spends out xs ys \<longleftrightarrow> (\<exists>pre b post. xs = pre @ (out, b) # post \<and> ys = pre @ (out, True) # post)"

lemma spends_append: "spends out xs ys \<Longrightarrow> spends out (us @ xs @ vs) (us @ ys @ vs)"
  unfolding spends_def by (elim exE conjE, rule_tac x = "us @ pre" in exI) auto

lemma spends_fst: "spends out xs ys \<Longrightarrow> map fst ys = map fst xs"
  by (auto simp: spends_def)

lemma spends_unspent:
  assumes "spends out xs ys" "distinct (map fst xs)" "(o', False) \<in> set ys"
  shows "(o', False) \<in> set xs \<and> o' \<noteq> out"
  using assms by (force simp: spends_def)

lemma our_output_spends:
  "set_our_output_spent vout True c = Ok c' \<Longrightarrow>
   spends (outpoint (co_txid c) vout) (closing_outputs c) (closing_outputs c')
   \<and> co_txid c' = co_txid c \<and> htlc_spents c' = htlc_spents c \<and> htlc_outputs c' = htlc_outputs c"
  by (auto simp: set_our_output_spent_def closing_outputs_def spends_def result_simps intro!: exI [of _ "[]"])

lemma index_of_Some: "index_of x xs = Some i \<Longrightarrow> i < length xs \<and> xs ! i = x"
  by (induction xs arbitrary: i) (auto split: if_splits)

lemma htlc_output_spends:
  assumes "set_htlc_output_spent vout True c = Ok c'" "length (htlc_spents c) = length (htlc_outputs c)"
  shows "spends (outpoint (co_txid c) vout) (closing_outputs c) (closing_outputs c')
    \<and> co_txid c' = co_txid c \<and> length (htlc_spents c') = length (htlc_spents c) \<and> htlc_outputs c' = htlc_outputs c"
proof -
  obtain i where i: "index_of vout (htlc_outputs c) = Some i" "i < length (htlc_spents c)"
    "c' = c\<lparr>htlc_spents := (htlc_spents c)[i := True]\<rparr>"
    using assms(1) by (auto simp: set_htlc_output_spent_def result_simps)
  let ?outs = "map (outpoint (co_txid c)) (htlc_outputs c)"
  let ?z = "zip ?outs (htlc_spents c)"
  have z: "i < length ?z" "?z ! i = (outpoint (co_txid c) vout, htlc_spents c ! i)"
    using i(1,2) assms(2) index_of_Some [OF i(1)] by auto
  have "zip ?outs ((htlc_spents c)[i := True]) = ?z[i := (outpoint (co_txid c) vout, True)]"
    using index_of_Some [OF i(1)] by (simp add: zip_update [symmetric])
      (metis list_update_id map_update)
  also have "\<dots> = take i ?z @ (outpoint (co_txid c) vout, True) # drop (Suc i) ?z"
    using z(1) by (simp add: upd_conv_take_nth_drop)
  finally have "spends (outpoint (co_txid c) vout) ?z (zip ?outs ((htlc_spents c)[i := True]))"
    using id_take_nth_drop [OF z(1)] z(2) unfolding spends_def by metis
  from spends_append [OF this] show ?thesis by (simp add: closing_outputs_def i(3))
qed

lemma set_first_spent_spends:
  "set_first_spent out True hs = Some hs' \<Longrightarrow>
   spends out (map (\<lambda>h. (sl_outpoint h, sl_spent h)) hs) (map (\<lambda>h. (sl_outpoint h, sl_spent h)) hs')"
proof (induction hs arbitrary: hs')
  case (Cons h hs)
  show ?case
  proof (cases "sl_outpoint h = out")
    case True
    with Cons.prems show ?thesis by (force simp: spends_def)
  next
    case False
    with Cons.prems obtain hs'' where "set_first_spent out True hs = Some hs''" "hs' = h # hs''" by auto
    with Cons.IH spends_append [where us = "[(sl_outpoint h, sl_spent h)]" and vs = "[]"] show ?thesis by force
  qed
qed simp

lemma second_level_spends:
  assumes "set_second_level_htlc_spent out True c = Ok c'"
  shows "spends out (closing_outputs c) (closing_outputs c') \<and> htlc_spents c' = htlc_spents c \<and> htlc_outputs c' = htlc_outputs c"
proof -
  obtain hs where "set_first_spent out True (second_level_htlc_outputs c) = Some hs" "c' = c\<lparr>second_level_htlc_outputs := hs\<rparr>"
    using assms by (auto simp: set_second_level_htlc_spent_def result_simps)
  from spends_append [OF set_first_spent_spends [OF this(1)], of "our_entry (co_txid c) (our_output c)
      @ zip (map (outpoint (co_txid c)) (htlc_outputs c)) (htlc_spents c)" "[]"] this(2)
  show ?thesis by (simp add: closing_outputs_def)
qed

lemma closing_outputs_add_second:
  "closing_outputs (add_second_level_htlc_output out c) = closing_outputs c @ [(out, False)]"
  by (simp add: closing_outputs_def add_second_level_htlc_output_def)

lemma closing_outputs_new:
  "closing_outputs (closing_outpoints_new txid our_index htlcs) = map (\<lambda>out. (out, False)) (closing_adds txid our_index htlcs)"
  by (auto simp: closing_outputs_def closing_outpoints_new_def closing_adds_def zip_replicate2 comp_def split: option.splits)

text \<open>One change keeps every unspent output among the watched ones.\<close>

lemma spend_unspent_in:
  assumes "unspent_in W (s, adds, removes)" "closing_outpoints s = Some c" "spends out (closing_outputs c) (closing_outputs c')"
    and "length (htlc_spents c') = length (htlc_outputs c')"
  shows "unspent_in W (s\<lparr>closing_outpoints := Some c'\<rparr>, adds, removes @ [out])"
proof -
  have "spends out (tracked_outputs s) (tracked_outputs (s\<lparr>closing_outpoints := Some c'\<rparr>))"
    using spends_append [OF assms(3), where vs = "[]"] assms(2) by (simp add: tracked_outputs_def)
  with assms(1,4) show ?thesis
    using spends_unspent [of out "tracked_outputs s" "tracked_outputs (s\<lparr>closing_outpoints := Some c'\<rparr>)"]
      spends_fst [of out "tracked_outputs s" "tracked_outputs (s\<lparr>closing_outpoints := Some c'\<rparr>)"]
    by (auto simp: unspent_in_def outputs_ok_def)
qed

lemma outputs_update [simp]:
  "tracked_outputs (s\<lparr>ms_height := h\<rparr>) = tracked_outputs s" "outputs_ok (s\<lparr>ms_height := h\<rparr>) = outputs_ok s"
  "tracked_outputs (s\<lparr>saw_block := b\<rparr>) = tracked_outputs s" "outputs_ok (s\<lparr>saw_block := b\<rparr>) = outputs_ok s"
  "tracked_outputs (with_swept x y s) = tracked_outputs s" "outputs_ok (with_swept x y s) = outputs_ok s"
  "tracked_outputs (with_double_spent z s) = tracked_outputs s" "outputs_ok (with_double_spent z s) = outputs_ok s"
  by (simp_all add: outputs_ok_def tracked_outputs_def)

lemma outputs_length:
  "\<lbrakk>unspent_in W (s, adds, removes); closing_outpoints s = Some c\<rbrakk> \<Longrightarrow> length (htlc_spents c) = length (htlc_outputs c)"
  by (simp add: unspent_in_def outputs_ok_def)

lemma add_second_unspent_in:
  assumes "unspent_in W (s\<lparr>closing_outpoints := Some c\<rparr>, adds, removes)" "second \<notin> set removes"
    and "second \<notin> fst ` set (tracked_outputs (s\<lparr>closing_outpoints := Some c\<rparr>))"
  shows "unspent_in W (s\<lparr>closing_outpoints := Some (add_second_level_htlc_output second c)\<rparr>, adds @ [second], removes)"
proof -
  have "tracked_outputs (s\<lparr>closing_outpoints := Some (add_second_level_htlc_output second c)\<rparr>) =
      tracked_outputs (s\<lparr>closing_outpoints := Some c\<rparr>) @ [(second, False)]"
    by (simp add: tracked_outputs_def closing_outputs_add_second)
  moreover have "length (htlc_spents (add_second_level_htlc_output second c)) = length (htlc_outputs (add_second_level_htlc_output second c))"
    using assms(1) by (simp add: unspent_in_def outputs_ok_def add_second_level_htlc_output_def)
  ultimately show ?thesis using assms by (auto simp: unspent_in_def outputs_ok_def)
qed

lemma forward_unspent_in:
  assumes "apply_forward_change c (s, adds, removes) = Ok y" "unspent_in W (s, adds, removes)" "change_ok c s removes"
  shows "unspent_in W y"
proof (cases c)
  case (FundingConfirmed out)
  with assms show ?thesis
    by (cases "ms_funding_outpoint s"; cases "closing_outpoints s")
      (auto simp: unspent_in_def outputs_ok_def tracked_outputs_def rev_image_eqI)
next
  case (FundingInputSpent out)
  with assms show ?thesis
    by (auto simp: unspent_in_def rev_image_eqI)
next
  case (UnilateralCloseConfirmed txid funding our_index htlcs)
  let ?s = "s\<lparr>unilateral_closing_height := Some (ms_height s), closing_outpoints := Some (closing_outpoints_new txid our_index htlcs)\<rparr>"
  let ?adds = "closing_adds txid our_index htlcs"
  have "tracked_outputs ?s = (funding, True) # map (\<lambda>out. (out, False)) ?adds"
    using assms(3) UnilateralCloseConfirmed by (simp add: tracked_outputs_def closing_outputs_new)
  moreover have "y = (?s, adds @ ?adds, removes @ [funding])" using assms(1) UnilateralCloseConfirmed by simp
  ultimately show ?thesis using assms(3) UnilateralCloseConfirmed
    by (auto simp: unspent_in_def outputs_ok_def comp_def closing_outpoints_new_def)
next
  case (MutualCloseConfirmed txid funding)
  with assms show ?thesis
    by (cases "closing_outpoints s") (auto simp: unspent_in_def outputs_ok_def tracked_outputs_def rev_image_eqI)
next
  case (OurOutputSpent vout)
  with assms(1) obtain c0 c1 where c: "closing_outpoints s = Some c0" "set_our_output_spent vout True c0 = Ok c1"
    "y = (s\<lparr>closing_outpoints := Some c1\<rparr>, adds, removes @ [outpoint (co_txid c1) vout])"
    by (auto simp: result_simps)
  from our_output_spends [OF c(2)] spend_unspent_in [OF assms(2) c(1)] outputs_length [OF assms(2) c(1)] show ?thesis
    by (simp add: c(3))
next
  case (HTLCOutputSpent vout second)
  with assms(1) obtain c0 c1 where c: "closing_outpoints s = Some c0" "set_htlc_output_spent vout True c0 = Ok c1"
    "y = (s\<lparr>closing_outpoints := Some (add_second_level_htlc_output second c1)\<rparr>, adds @ [second], removes @ [outpoint (co_txid c1) vout])"
    by (auto simp: result_simps)
  note lengths = outputs_length [OF assms(2) c(1)]
  note spent = htlc_output_spends [OF c(2) lengths]
  then have "unspent_in W (s\<lparr>closing_outpoints := Some c1\<rparr>, adds, removes @ [outpoint (co_txid c1) vout])"
    using spend_unspent_in [OF assms(2) c(1), of _ c1] lengths by simp
  moreover have "map fst (tracked_outputs (s\<lparr>closing_outpoints := Some c1\<rparr>)) = map fst (tracked_outputs s)"
    using spends_fst spent c(1) by (auto simp: tracked_outputs_def)
  then have "fst ` set (tracked_outputs (s\<lparr>closing_outpoints := Some c1\<rparr>)) = fst ` set (tracked_outputs s)"
    by (metis list.set_map)
  moreover have "outpoint (co_txid c1) vout \<in> fst ` set (tracked_outputs s)"
    using spent c(1) by (auto simp: tracked_outputs_def spends_def image_Un)
  ultimately show ?thesis
    using add_second_unspent_in [of W c1 s adds "removes @ [outpoint (co_txid c1) vout]" second] assms(3) HTLCOutputSpent
    by (auto simp: c(3))
next
  case (SecondLevelHTLCOutputSpent out)
  with assms(1) obtain c0 c1 where c: "closing_outpoints s = Some c0" "set_second_level_htlc_spent out True c0 = Ok c1"
    "y = (s\<lparr>closing_outpoints := Some c1\<rparr>, adds, removes @ [out])"
    by (auto simp: result_simps)
  from second_level_spends [OF c(2)] spend_unspent_in [OF assms(2) c(1)] outputs_length [OF assms(2) c(1)] show ?thesis
    by (simp add: c(3))
qed

fun changes_ok :: "StateChange list \<Rightarrow> Changed \<Rightarrow> bool" where
  "changes_ok [] x \<longleftrightarrow> True"
| "changes_ok (c # cs) (s, adds, removes) \<longleftrightarrow>
     change_ok c s removes \<and> (case apply_forward_change c (s, adds, removes) of Ok y \<Rightarrow> changes_ok cs y | _ \<Rightarrow> True)"

lemma fold_unspent_in:
  "\<lbrakk>fold_ok apply_forward_change changes x = Ok y; unspent_in W x; changes_ok changes x\<rbrakk> \<Longrightarrow> unspent_in W y"
proof (induction changes arbitrary: x)
  case (Cons c changes)
  obtain s adds removes where x: "x = (s, adds, removes)" by (cases x)
  with Cons.prems(1) obtain z where "apply_forward_change c (s, adds, removes) = Ok z" "fold_ok apply_forward_change changes z = Ok y"
    by (auto simp: and_then_eq_Ok)
  with Cons forward_unspent_in x show ?case by fastforce
qed simp

section \<open>The watches of a monitor\<close>

text \<open>The changes that a block decodes to, and what they rely on.\<close>

definition spends_in_order :: "(Transaction \<Rightarrow> Txid) \<Rightarrow> Transaction list \<Rightarrow> BlockHash \<Rightarrow> CommitmentPointProvider \<times> ChainMonitor \<Rightarrow> bool" where
  "spends_in_order txid_of txs hash = (\<lambda>(pp, m).
     case push_transactions pp txid_of hash txs (mon_state m) of
       Ok (s, ds) \<Rightarrow> changes_ok (ds_changes ds) (s\<lparr>ms_height := ms_height s + 1\<rparr>, [], [])
     | _ \<Rightarrow> True)"

definition covered :: "CommitmentPointProvider \<times> ChainMonitor \<Rightarrow> ListenSlot \<Rightarrow> bool" where
  "covered = (\<lambda>(pp, m) slot.
     outputs_ok (mon_state m) \<and> (\<forall>out. (out, False) \<in> set (tracked_outputs (mon_state m)) \<longrightarrow> out \<in> watches slot))"

lemma add_block_covered:
  assumes "listener_on_add_block (monitor_listener txid_of) txs hash l = Ok (l', adds, removes)" "covered l slot"
    and "spends_in_order txid_of txs hash l"
  shows "covered l' (watch_added adds removes slot)"
proof -
  obtain pp m where l: "l = (pp, m)" by (cases l)
  let ?s = "(mon_state m)\<lparr>saw_block := True\<rparr>"
  obtain s ds s' where ds: "push_transactions pp txid_of hash txs (mon_state m) = Ok (s, ds)"
    and s': "on_add_block_end s (ds_changes ds) = Ok (s', adds, removes)" "l' = (pp, m\<lparr>mon_state := s'\<rparr>)"
    using assms(1) by (auto simp: l monitor_listener_def map_result_eq_Ok on_add_block_def and_then_eq_Ok)
  have s: "s = ?s" using ds by (auto simp: push_transactions_def Let_def and_then_eq_Ok)
  obtain t where t: "fold_ok apply_forward_change (ds_changes ds) (s\<lparr>ms_height := ms_height s + 1\<rparr>, [], []) = Ok (t, adds, removes)"
    "s' = note_swept (is_closing_swept s) (is_our_output_swept s) t"
    using s'(1) by (auto simp: on_add_block_end_def Let_def and_then_eq_Ok s is_closing_swept_def is_our_output_swept_def)
  have "unspent_in (watches slot) (t, adds, removes)"
    using assms(2,3) by (intro fold_unspent_in [OF t(1)]) (auto simp: unspent_in_def covered_def spends_in_order_def l ds s)
  then show ?thesis by (auto simp: covered_def s'(2) t(2) note_swept_eq unspent_in_def watch_added_def)
qed


section \<open>Removing a block with an HTLC spend\<close>

lemma unspent_htlc_output:
  assumes "set_htlc_output_spent vout False c = Ok c'" "length (htlc_spents c) = length (htlc_outputs c)"
  shows "(outpoint (co_txid c) vout, False) \<in> set (closing_outputs (remove_second_level_htlc_output out c'))"
proof -
  obtain i where i: "index_of vout (htlc_outputs c) = Some i" "i < length (htlc_spents c)"
    "c' = c\<lparr>htlc_spents := (htlc_spents c)[i := False]\<rparr>"
    using assms(1) by (auto simp: set_htlc_output_spent_def result_simps)
  have "(outpoint (co_txid c) vout, False) \<in> set (zip (map (outpoint (co_txid c)) (htlc_outputs c)) ((htlc_spents c)[i := False]))"
    using index_of_Some [OF i(1)] i(2) assms(2) by (auto simp: in_set_zip intro!: exI [of _ i])
  then show ?thesis by (simp add: closing_outputs_def remove_second_level_htlc_output_def i(3))
qed

lemma htlc_spend_added:
  assumes "on_add_block_end s [HTLCOutputSpent vout second] = Ok (s', adds, removes)" "closing_outpoints s = Some c"
  obtains c1 where "set_htlc_output_spent vout True c = Ok c1"
    and "closing_outpoints s' = Some (add_second_level_htlc_output second c1)"
    and "adds = [second]" "removes = [outpoint (co_txid c1) vout]"
  using assms by (auto simp: on_add_block_end_def Let_def result_simps note_swept_eq)

lemma htlc_spend_removed:
  assumes "on_remove_block_end s [HTLCOutputSpent vout second] = Ok (s', adds, removes)" "closing_outpoints s = Some c"
  obtains c1 where "set_htlc_output_spent vout False c = Ok c1"
    and "closing_outpoints s' = Some (remove_second_level_htlc_output second c1)"
    and "adds = [outpoint (co_txid c1) vout]" "removes = [second]"
  using assms by (auto simp: on_remove_block_end_def Let_def result_simps note_unswept_eq)

text \<open>
  C34: When the block that spends an HTLC output is removed again, the monitor tracks the output as
  unspent, but the tracker does not watch it: undoing this change reports the outpoints the other way
  round, and the tracker then drops the output and watches the second-level output that is gone.
\<close>

theorem reorged_htlc_spend_unwatched:
  assumes "push_transactions pp txid_of hash txs (mon_state m) = Ok (s, ds)" "ds_changes ds = [HTLCOutputSpent vout second]"
    and "on_add_block pp txid_of txs hash m = Ok (m', adds, removes)"
    and "push_transactions pp txid_of hash' txs (mon_state m') = Ok (s', ds')" "ds_changes ds' = ds_changes ds"
    and "on_remove_block pp txid_of txs hash' m' = Ok (m'', adds', removes')"
    and "closing_outpoints (mon_state m) = Some c" "length (htlc_spents c) = length (htlc_outputs c)"
  shows "(outpoint (co_txid c) vout, False) \<in> set (tracked_outputs (mon_state m''))
    \<and> outpoint (co_txid c) vout \<notin> watches (watch_removed adds' removes' (watch_added adds removes slot))
    \<and> (second = outpoint (co_txid c) vout \<or> second \<in> watches (watch_removed adds' removes' (watch_added adds removes slot)))"
proof -
  have s: "s = (mon_state m)\<lparr>saw_block := True\<rparr>" "s' = (mon_state m')\<lparr>saw_block := True\<rparr>"
    using assms(1,4) by (auto simp: push_transactions_def Let_def and_then_eq_Ok)
  have "on_add_block_end s [HTLCOutputSpent vout second] = Ok (mon_state m', adds, removes)"
    using assms(1-3) by (auto simp: on_add_block_def and_then_eq_Ok)
  then obtain c1 where c1: "set_htlc_output_spent vout True c = Ok c1"
    "closing_outpoints (mon_state m') = Some (add_second_level_htlc_output second c1)"
    "adds = [second]" "removes = [outpoint (co_txid c1) vout]"
    using assms(7) by (elim htlc_spend_added [of s]) (auto simp: s intro: that)
  have "on_remove_block_end s' [HTLCOutputSpent vout second] = Ok (mon_state m'', adds', removes')"
    using assms(2,4-6) by (auto simp: on_remove_block_def and_then_eq_Ok)
  then obtain c2 where c2: "set_htlc_output_spent vout False (add_second_level_htlc_output second c1) = Ok c2"
    "closing_outpoints (mon_state m'') = Some (remove_second_level_htlc_output second c2)"
    "adds' = [outpoint (co_txid c2) vout]" "removes' = [second]"
    using c1(2) by (elim htlc_spend_removed [of s']) (auto simp: s intro: that)
  have "co_txid c1 = co_txid c" "length (htlc_spents c1) = length (htlc_outputs c1)"
    using htlc_output_spends [OF c1(1) assms(8)] assms(8) by auto
  moreover from this have "(outpoint (co_txid c) vout, False) \<in> set (closing_outputs (remove_second_level_htlc_output second c2))"
    using unspent_htlc_output [OF c2(1)] by (simp add: add_second_level_htlc_output_def)
  moreover have "co_txid c2 = co_txid c1"
    using c2(1) by (auto simp: set_htlc_output_spent_def add_second_level_htlc_output_def result_simps)
  ultimately show ?thesis
    by (auto simp: tracked_outputs_def c1(3,4) c2(2-4) watch_removed_def watch_added_def)
qed

section \<open>Example\<close>


text \<open>A monitor after a close with one HTLC output, and the transaction that spends it.\<close>

definition example_closed :: ChainMonitor where
  "example_closed = example_monitor\<lparr>mon_state := (mon_state example_monitor)\<lparr>funding_height := Some 80,
     ms_funding_outpoint := Some (outpoint 5 0), unilateral_closing_height := Some 90,
     closing_outpoints := Some (closing_outpoints_new 7 None [0])\<rparr>\<rparr>"

definition example_htlc_tx :: Transaction where
  "example_htlc_tx = example_sweep_tx\<lparr>lock_time := 9, tx_input := [spend_of 7 0]\<rparr>"

theorem reorged_htlc_spend_unwatched_witness:
  "case on_add_block example_provider example_txid [example_htlc_tx] 2 example_closed of
     Ok (m', adds, removes) \<Rightarrow>
       (case on_remove_block example_provider example_txid [example_htlc_tx] 1 m' of
          Ok (m'', adds', removes') \<Rightarrow>
            (outpoint 7 0, False) \<in> set (tracked_outputs (mon_state m''))
            \<and> outpoint 7 0 \<notin> watches (watch_removed adds' removes' (watch_added adds removes
                \<lparr>txid_watches = {}, watches = {outpoint 7 0}, seen = {}\<rparr>))
        | _ \<Rightarrow> False)
   | _ \<Rightarrow> False"
proof -
  let ?push = "\<lambda>hash m. push_transactions example_provider example_txid hash [example_htlc_tx] (mon_state m)"
  let ?changes = "[HTLCOutputSpent 0 (outpoint 9 0)]"
  have "case on_add_block example_provider example_txid [example_htlc_tx] 2 example_closed of
      Ok (m', w) \<Rightarrow> map_result (\<lambda>(_, ds). ds_changes ds) id (?push 1 m') = Ok ?changes
        \<and> is_ok (on_remove_block example_provider example_txid [example_htlc_tx] 1 m') | _ \<Rightarrow> False"
    by code_simp
  then obtain m' adds removes s' ds' m'' adds' removes' where m':
    "on_add_block example_provider example_txid [example_htlc_tx] 2 example_closed = Ok (m', adds, removes)"
    "?push 1 m' = Ok (s', ds')" "ds_changes ds' = ?changes"
    "on_remove_block example_provider example_txid [example_htlc_tx] 1 m' = Ok (m'', adds', removes')"
    by (auto split: result.splits simp: map_result_eq_Ok is_ok_iff)
  have "map_result (\<lambda>(_, ds). ds_changes ds) id (?push 2 example_closed) = Ok ?changes"
    by code_simp
  then obtain s ds where s: "?push 2 example_closed = Ok (s, ds)" "ds_changes ds = ?changes"
    by (auto simp: map_result_eq_Ok)
  have "closing_outpoints (mon_state example_closed) = Some (closing_outpoints_new 7 None [0])"
    by (simp add: example_closed_def)
  from reorged_htlc_spend_unwatched [OF s m'(1,2) _ m'(4) this] m' s(2) show ?thesis
    by (simp add: closing_outpoints_new_def)
qed

end
