(* ===== verification/Node.thy ===== *)
theory Node
  imports Channel Tracker "HOL-Library.List_Lexorder"
begin

text \<open>
  The node of \<^verbatim>\<open>vls-core/src/node.rs\<close>: its channels from stub to pruning, the wallet it is for the
  validators, its allowlist, its heartbeat and the blocks it is told of.

  A channel slot is shared: the map of channels may name it by two identifiers, and the provider of a
  monitor reads it. The model keeps the slots in a store, and identifiers and listeners hold addresses.
  The state of a monitor is shared between its channel and the tracker; it is kept in the listener of the
  tracker while there is one and in \<open>detached\<close> otherwise.
\<close>

section \<open>The node\<close>

datatype ChannelSlot = Stub ChannelStub | Ready Channel

type_synonym SlotListener = "nat \<times> ChainMonitor"

record 'd Node =
  node_network :: Network
  node_state :: NodeState
  channel_ids :: "(ChannelId \<times> nat) list"
  slots :: "(nat \<times> ChannelSlot) list"
  next_slot :: nat
  node_tracker :: "(SlotListener, 'd) ChainTracker"
  detached :: "(nat \<times> ChainMonitor) list"

text \<open>What the node writes to its persister; an entry of the environment tells which writes succeed.\<close>

datatype PersistOp =
    PersistNewChannel ChannelId
  | PersistUpdateChannel ChannelId
  | PersistDeleteChannel ChannelId
  | PersistUpdateTracker
  | PersistUpdateNode
  | PersistUpdateAllowlist

text \<open>Keys and addresses of the wallet; an extended key cannot be derived along a hardened path.\<close>

record WalletLib =
  get_wallet_pubkey :: "DerivationPath \<Rightarrow> (PublicKey, Status) result"
  p2wpkh_script :: "PublicKey \<Rightarrow> Script"
  p2shwpkh_script :: "PublicKey \<Rightarrow> Script"
  p2tr_script :: "PublicKey \<Rightarrow> Script"
  p2pkh_script :: "PublicKey \<Rightarrow> Script"
  derive_pub :: "u8 list \<Rightarrow> DerivationPath \<Rightarrow> PublicKey option"

record 'd NodeEnv =
  ne_crypto :: CryptoLib
  ne_ldk :: Ldk
  ne_validator :: Validator
  ne_wallet :: WalletLib
  ne_channel_keys :: "ChannelId \<Rightarrow> VlsChannelSigner \<times> Secret"
  ne_persist :: "PersistOp \<Rightarrow> bool"
  ne_aux :: "Sighash \<Rightarrow> Secret \<Rightarrow> Signature"
  ne_sha :: Sha256
  ne_payment_hash :: "PaymentPreimage \<Rightarrow> PaymentHash"
  ne_chain :: "'d ChainLib"

definition persist :: "'d NodeEnv \<Rightarrow> PersistOp \<Rightarrow> (unit, Status) result" where
  "persist ne p = err_if (\<not> ne_persist ne p) Internal"

definition persist_or_panic :: "'d NodeEnv \<Rightarrow> PersistOp \<Rightarrow> (unit, Status) result" where
  "persist_or_panic ne p = assert_that (ne_persist ne p)"

text \<open>The map of channels is iterated in the order of the identifiers.\<close>

fun ordered_insert :: "'k::linorder \<Rightarrow> 'v \<Rightarrow> ('k \<times> 'v) list \<Rightarrow> ('k \<times> 'v) list" where
  "ordered_insert k v [] = [(k, v)]"
| "ordered_insert k v ((k', v') # m) =
     (if k < k' then (k, v) # (k', v') # m else if k = k' then (k, v) # m else (k', v') # ordered_insert k v m)"

definition slot_at :: "'d Node \<Rightarrow> nat \<Rightarrow> ChannelSlot option" where
  "slot_at n a = map_of (slots n) a"

definition set_slot :: "nat \<Rightarrow> ChannelSlot \<Rightarrow> 'd Node \<Rightarrow> 'd Node" where
  "set_slot a slot n = n\<lparr>slots := AList.update a slot (slots n)\<rparr>"

definition listener_of :: "'d Node \<Rightarrow> nat \<Rightarrow> ChainMonitor option" where
  "listener_of n a =
     (case filter (\<lambda>(_, (a', _), _). a' = a) (listeners (node_tracker n)) of
        [] \<Rightarrow> None | (_, (_, m), _) # _ \<Rightarrow> Some m)"

definition monitor_of :: "'d Node \<Rightarrow> nat \<Rightarrow> ChainMonitor option" where
  "monitor_of n a = (case listener_of n a of Some m \<Rightarrow> Some m | None \<Rightarrow> map_of (detached n) a)"

definition modify_monitor :: "nat \<Rightarrow> (ChainMonitor \<Rightarrow> ChainMonitor) \<Rightarrow> 'd Node \<Rightarrow> 'd Node" where
  "modify_monitor a f n =
     n\<lparr>node_tracker := (node_tracker n)\<lparr>listeners :=
         map (\<lambda>(k, (a', m), slot). (k, (a', if a' = a then f m else m), slot)) (listeners (node_tracker n))\<rparr>,
       detached := map (\<lambda>(a', m). (a', if a' = a then f m else m)) (detached n)\<rparr>"

text \<open>A listener that is replaced or removed leaves its monitor with the channel.\<close>

definition detach :: "OutPoint \<Rightarrow> 'd Node \<Rightarrow> 'd Node" where
  "detach key n =
     (case map_of (listeners (node_tracker n)) key of
        None \<Rightarrow> n
      | Some ((a, m), _) \<Rightarrow>
          n\<lparr>node_tracker := remove_listener key (node_tracker n), detached := AList.update a m (detached n)\<rparr>)"

section \<open>The wallet\<close>

definition node_can_spend :: "WalletLib \<Rightarrow> DerivationPath \<Rightarrow> Script \<Rightarrow> (bool, Status) result" where
  "node_can_spend wl path script =
     (if path = [] then Ok False
      else and_then (get_wallet_pubkey wl path) (\<lambda>key.
        Ok (script \<in> set [p2wpkh_script wl key, p2shwpkh_script wl key, p2tr_script wl key])))"

fun xpub_matches :: "WalletLib \<Rightarrow> Script \<Rightarrow> DerivationPath \<Rightarrow> Allowable list \<Rightarrow> (bool, Status) result" where
  "xpub_matches wl script path [] = Ok False"
| "xpub_matches wl script path (AllowXPub xp # as) =
     and_then (expect (derive_pub wl xp path)) (\<lambda>key.
     if script \<in> set [p2wpkh_script wl key, p2pkh_script wl key, p2tr_script wl key] then Ok True
     else xpub_matches wl script path as)"
| "xpub_matches wl script path (_ # as) = xpub_matches wl script path as"

definition node_allowlist_contains :: "WalletLib \<Rightarrow> NodeState \<Rightarrow> Script \<Rightarrow> DerivationPath \<Rightarrow> (bool, Status) result" where
  "node_allowlist_contains wl ns script path =
     (if AllowScript script \<in> set (allowlist ns) then Ok True
      else if path = [] then Ok False
      else xpub_matches wl script path (allowlist ns))"

definition allowlist_contains_payee :: "NodeState \<Rightarrow> PublicKey \<Rightarrow> bool" where
  "allowlist_contains_payee ns key \<longleftrightarrow> AllowPayee key \<in> set (allowlist ns)"

text \<open>The validators ask for a yes or no; a path that panics is a no to them here.\<close>

definition node_wallet :: "'d NodeEnv \<Rightarrow> NodeState \<Rightarrow> Wallet" where
  "node_wallet ne ns =
     \<lparr>can_spend = node_can_spend (ne_wallet ne),
      allowlist_contains = (\<lambda>script path. node_allowlist_contains (ne_wallet ne) ns script path = Ok True)\<rparr>"

text \<open>
  Changing the allowlist; the entries are parsed by a function of a library. A text that cannot be parsed
  ends the loop, with the entries before it already in the list.
\<close>

definition parse_allowable :: "(string \<Rightarrow> Allowable option) \<Rightarrow> string \<Rightarrow> (Allowable, Status) result" where
  "parse_allowable from_str s = ok_or (from_str s) InvalidArgument"

fun each_allowable ::
  "(string \<Rightarrow> Allowable option) \<Rightarrow> (Allowable \<Rightarrow> Allowable list \<Rightarrow> Allowable list) \<Rightarrow> string list \<Rightarrow> NodeState \<Rightarrow>
   (NodeState, unit, Status) outcome" where
  "each_allowable from_str f [] ns = (Ok (), ns)"
| "each_allowable from_str f (s # ss) ns =
     attempt (parse_allowable from_str s) ns (\<lambda>a. each_allowable from_str f ss (ns\<lparr>allowlist := f a (allowlist ns)\<rparr>))"

definition update_allowlist :: "'d NodeEnv \<Rightarrow> NodeState \<Rightarrow> (NodeState, unit, Status) outcome" where
  "update_allowlist ne ns = attempt (persist ne PersistUpdateAllowlist) ns (\<lambda>_. (Ok (), ns))"

definition add_allowlist ::
  "'d NodeEnv \<Rightarrow> (string \<Rightarrow> Allowable option) \<Rightarrow> string list \<Rightarrow> NodeState \<Rightarrow> (NodeState, unit, Status) outcome" where
  "add_allowlist ne from_str adds ns =
     attempt_op (each_allowable from_str List.insert adds ns) (\<lambda>_. update_allowlist ne)"

definition set_allowlist ::
  "'d NodeEnv \<Rightarrow> (string \<Rightarrow> Allowable option) \<Rightarrow> string list \<Rightarrow> NodeState \<Rightarrow> (NodeState, unit, Status) outcome" where
  "set_allowlist ne from_str entries ns =
     attempt_op (each_allowable from_str List.insert entries (ns\<lparr>allowlist := []\<rparr>)) (\<lambda>_. update_allowlist ne)"

definition remove_allowlist ::
  "'d NodeEnv \<Rightarrow> (string \<Rightarrow> Allowable option) \<Rightarrow> string list \<Rightarrow> NodeState \<Rightarrow> (NodeState, unit, Status) outcome" where
  "remove_allowlist ne from_str removes ns =
     attempt_op (each_allowable from_str removeAll removes ns) (\<lambda>_. update_allowlist ne)"

section \<open>Using a channel\<close>

text \<open>A read of the channel through the provider of its monitor.\<close>

definition channel_env :: "'d NodeEnv \<Rightarrow> 'd Node \<Rightarrow> ChainMonitor \<Rightarrow> Env" where
  "channel_env ne n m =
     \<lparr>env_lib = ne_crypto ne, env_validator = ne_validator ne, env_wallet = node_wallet ne (node_state n),
      env_chain = as_chain_state m, env_persist = (\<lambda>ch. persist ne (PersistUpdateChannel (id0 ch))),
      env_aux = ne_aux ne, env_sha = ne_sha ne, env_payment_hash = ne_payment_hash ne\<rparr>"

definition channel_point_provider :: "'d NodeEnv \<Rightarrow> 'd Node \<Rightarrow> ChainMonitor \<Rightarrow> Channel \<Rightarrow> CommitmentPointProvider" where
  "channel_point_provider ne n m ch =
     \<lparr>pp_ldk = ne_ldk ne,
      get_holder_commitment_point = get_per_commitment_point_unchecked (ne_crypto ne) ch,
      provider_counterparty_point = get_counterparty_commitment_point (ne_crypto ne) (ne_sha ne) ch,
      get_transaction_parameters = make_channel_parameters ch,
      provider_spendable_htlc_indices = get_spendable_htlc_indices (channel_env ne n m) ch (node_state n)\<rparr>"

text \<open>The monitor of a channel as a listener of the tracker; the provider of a stub panics.\<close>

definition provider_at :: "'d NodeEnv \<Rightarrow> 'd Node \<Rightarrow> SlotListener \<Rightarrow> (CommitmentPointProvider, Status) result" where
  "provider_at ne n = (\<lambda>(a, m).
     case slot_at n a of Some (Ready ch) \<Rightarrow> Ok (channel_point_provider ne n m ch) | _ \<Rightarrow> Panic)"

definition node_listener :: "'d NodeEnv \<Rightarrow> 'd Node \<Rightarrow> SlotListener ChainListener" where
  "node_listener ne n =
     (let txid_of = compute_txid (ne_crypto ne);
          tell = (\<lambda>f l. and_then (provider_at ne n l) (\<lambda>pp. map_result (apfst (Pair (fst l))) id (f pp (snd l)))) in
      \<lparr>listener_key = (\<lambda>l. mon_funding_outpoint (snd l)),
       listener_on_add_block = (\<lambda>txs hash. tell (\<lambda>pp. on_add_block pp txid_of txs hash)),
       listener_on_add_streamed_block_end = (\<lambda>hash. tell (\<lambda>_. on_add_streamed_block_end hash)),
       listener_on_remove_block = (\<lambda>txs hash. tell (\<lambda>pp. on_remove_block pp txid_of txs hash)),
       listener_on_remove_streamed_block_end = (\<lambda>hash. tell (\<lambda>_. on_remove_streamed_block_end hash)),
       listener_on_push = (\<lambda>event l. and_then (provider_at ne n l) (\<lambda>pp. map_result (Pair (fst l)) id (on_push pp event (snd l))))\<rparr>)"

definition get_channel :: "'d Node \<Rightarrow> ChannelId \<Rightarrow> (nat, Status) result" where
  "get_channel n channel_id = ok_or (map_of (channel_ids n) channel_id) InvalidArgument"

definition with_channel ::
  "'d NodeEnv \<Rightarrow> ChannelId \<Rightarrow> (Env \<Rightarrow> ChanWorld \<Rightarrow> (ChanWorld, 'a, Status) outcome) \<Rightarrow> 'd Node \<Rightarrow> ('d Node, 'a, Status) outcome" where
  "with_channel ne channel_id f n =
     attempt (get_channel n channel_id) n (\<lambda>a.
     attempt (expect (slot_at n a)) n (\<lambda>slot.
     case slot of
       Stub _ \<Rightarrow> (Err InvalidArgument, n)
     | Ready ch \<Rightarrow>
         attempt (expect (monitor_of n a)) n (\<lambda>m.
         let (r, ch', ns') = f (channel_env ne n m) (ch, node_state n)
         in (r, set_slot a (Ready ch') (n\<lparr>node_state := ns'\<rparr>)))))"

definition confirm_funding_lock :: "'d NodeEnv \<Rightarrow> ChannelId \<Rightarrow> OutPoint \<Rightarrow> 'd Node \<Rightarrow> ('d Node, unit, Status) outcome" where
  "confirm_funding_lock ne channel_id out n =
     attempt (get_channel n channel_id) n (\<lambda>a.
     attempt (expect (slot_at n a)) n (\<lambda>slot.
     case slot of
       Stub _ \<Rightarrow> (Ok (), n)
     | Ready _ \<Rightarrow> with_channel ne channel_id (\<lambda>env. confirm_funding_locked env out) n))"

fun find_funding :: "'d Node \<Rightarrow> OutPoint \<Rightarrow> (ChannelId \<times> nat) list \<Rightarrow> nat option" where
  "find_funding n out [] = None"
| "find_funding n out ((_, a) # ids) =
     (case slot_at n a of
        Some (Ready ch) \<Rightarrow> if funding_outpoint (chan_setup ch) = out then Some a else find_funding n out ids
      | _ \<Rightarrow> find_funding n out ids)"

definition find_channel_with_funding_outpoint :: "'d Node \<Rightarrow> OutPoint \<Rightarrow> nat option" where
  "find_channel_with_funding_outpoint n out = find_funding n out (channel_ids n)"

section \<open>Creating a channel\<close>

definition channel_id_from_peer_and_oid :: "u8 list \<Rightarrow> u64 \<Rightarrow> ChannelId" where
  "channel_id_from_peer_and_oid peer_id oid = peer_id @ map (\<lambda>i. ucast (drop_bit (8 * i) oid)) [0..<8]"

text \<open>The last eight bytes, least significant first; a shorter identifier is out of range.\<close>

definition channel_oid :: "ChannelId \<Rightarrow> (u64, 'e) result" where
  "channel_oid cid =
     (if length cid < 8 then Panic
      else Ok (foldr (\<lambda>b acc. acc * 256 + ucast b) (drop (length cid - 8) cid) 0))"

definition find_or_create_channel :: "'d NodeEnv \<Rightarrow> ChannelId \<Rightarrow> 'd Node \<Rightarrow> ('d Node, ChannelSlot, Status) outcome" where
  "find_or_create_channel ne channel_id n =
     attempt (err_if (length (channel_ids n) \<ge> v_max_channels (ne_validator ne)) FailedPrecondition) n (\<lambda>_.
     case map_of (channel_ids n) channel_id of
       Some a \<Rightarrow> attempt (expect (slot_at n a)) n (\<lambda>slot. (Ok slot, n))
     | None \<Rightarrow>
         let (keys, payment_key) = ne_channel_keys ne channel_id;
             stub = \<lparr>stub_keys = keys, stub_payment_key = payment_key, stub_id0 = channel_id,
                     blockheight = tracker_height (node_tracker n)\<rparr>;
             n' = set_slot (next_slot n) (Stub stub)
                    (n\<lparr>channel_ids := ordered_insert channel_id (next_slot n) (channel_ids n), next_slot := next_slot n + 1\<rparr>)
         in attempt (persist_or_panic ne (PersistNewChannel channel_id)) n' (\<lambda>_. (Ok (Stub stub), n')))"

definition new_channel :: "'d NodeEnv \<Rightarrow> u64 \<Rightarrow> u8 list \<Rightarrow> 'd Node \<Rightarrow> ('d Node, ChannelSlot, Status) outcome" where
  "new_channel ne dbid peer_id n =
     attempt (err_if (dbid_high_water_mark (node_state n) \<ge> dbid) FailedPrecondition) n (\<lambda>_.
     find_or_create_channel ne (channel_id_from_peer_and_oid peer_id dbid) n)"

section \<open>Setting up a channel\<close>

definition watch_funding :: "'d NodeEnv \<Rightarrow> nat \<Rightarrow> ChainMonitor \<Rightarrow> 'd Node \<Rightarrow> 'd Node" where
  "watch_funding ne a m n =
     (let n' = detach (mon_funding_outpoint m) n in
      n'\<lparr>node_tracker := add_listener (node_listener ne n') (a, m) {op_txid (mon_funding_outpoint m)} (node_tracker n'),
         detached := AList.delete a (detached n')\<rparr>)"

definition persist_setup :: "'d NodeEnv \<Rightarrow> Channel \<Rightarrow> 'd Node \<Rightarrow> ('d Node, Channel, Status) outcome" where
  "persist_setup ne ch n =
     attempt (persist ne PersistUpdateTracker) n (\<lambda>_.
     attempt (persist ne (PersistUpdateChannel (id0 ch))) n (\<lambda>_. (Ok ch, n)))"

text \<open>A ready channel is set up again with another funding: a splice.\<close>

definition splice_channel :: "Channel \<Rightarrow> ChannelSetup \<Rightarrow> Channel" where
  "splice_channel ch new_setup =
     ch\<lparr>enforcement_state := snapshot_funding_for_splice (enforcement_state ch) (funding_outpoint (chan_setup ch))
          (push_value_msat (chan_setup ch)),
        prev_prev_setup := prev_setup ch, prev_setup := Some (chan_setup ch), chan_setup := new_setup\<rparr>"

definition setup_splice ::
  "'d NodeEnv \<Rightarrow> nat \<Rightarrow> Channel \<Rightarrow> ChannelSetup \<Rightarrow> DerivationPath \<Rightarrow> 'd Node \<Rightarrow> ('d Node, Channel, Status) outcome" where
  "setup_splice ne a ch new_setup path n =
     (if chan_setup ch = new_setup then (Ok ch, n)
      else if \<not> is_splice_compatible ch new_setup then (Err InvalidArgument, n)
      else if push_value_msat new_setup \<le> 2 ^ 63 - 1 \<and> push_value_msat new_setup > channel_value_sat new_setup * 1000
      then (Err InvalidArgument, n)
      else
        let old_funding_outpoint = funding_outpoint (chan_setup ch);
            spliced = splice_channel ch new_setup;
            n1 = set_slot a (Ready spliced) (modify_monitor a (replace_funding_outpoint (funding_outpoint new_setup)) n)
        in attempt (to_status (v_validate_setup_channel (ne_validator ne) (node_wallet ne (node_state n1)) new_setup path)) n1 (\<lambda>_.
           attempt (expect (monitor_of n1 a)) n1 (\<lambda>m.
           persist_setup ne spliced (watch_funding ne a (m\<lparr>mon_decode_state := None\<rparr>) (detach old_funding_outpoint n1)))))"

text \<open>A stub becomes a ready channel, in a slot of its own.\<close>

definition to_holder_msat :: "ChannelSetup \<Rightarrow> (u64, Status) result" where
  "to_holder_msat setup =
     (if is_outbound setup
      then ok_or (checked_sub (channel_value_sat setup * 1000) (push_value_msat setup)) FailedPrecondition
      else Ok (push_value_msat setup))"

definition ready_channel :: "ChannelStub \<Rightarrow> ChannelId \<Rightarrow> ChannelId option \<Rightarrow> ChannelSetup \<Rightarrow> u64 \<Rightarrow> Channel" where
  "ready_channel stub channel_id0 opt_channel_id setup initial_holder_value_sat =
     \<lparr>chan_keys = stub_keys stub, chan_payment_key = stub_payment_key stub,
      enforcement_state = enforcement_new initial_holder_value_sat, chan_setup = setup, id0 = channel_id0,
      permanent_id = opt_channel_id, prev_setup = None, prev_prev_setup = None, funding_locked = None\<rparr>"

definition setup_stub ::
  "'d NodeEnv \<Rightarrow> ChannelStub \<Rightarrow> ChannelId \<Rightarrow> ChannelId option \<Rightarrow> ChannelSetup \<Rightarrow> DerivationPath \<Rightarrow> 'd Node \<Rightarrow>
   ('d Node, Channel, Status) outcome" where
  "setup_stub ne stub channel_id0 opt_channel_id setup path n =
     (let chan_id = (case opt_channel_id of Some i \<Rightarrow> i | None \<Rightarrow> channel_id0);
          out = funding_outpoint setup; v = ne_validator ne in
      attempt (add_funding_outpoint out (monitor_new out (tracker_height (node_tracker n)))) n (\<lambda>m.
      attempt (to_holder_msat setup) n (\<lambda>to_holder.
      let ch = ready_channel stub channel_id0 opt_channel_id setup (v_minimum_initial_balance v to_holder) in
      attempt (to_status (v_validate_setup_channel v (node_wallet ne (node_state n)) setup path)) n (\<lambda>_.
      let a = next_slot n;
          ids = ordered_insert chan_id a (channel_ids n);
          ids = (if channel_id0 \<noteq> chan_id then ordered_insert channel_id0 a ids else ids);
          n1 = set_slot a (Ready ch) (n\<lparr>channel_ids := ids, next_slot := a + 1\<rparr>)
      in persist_setup ne ch (watch_funding ne a m n1)))))"

definition setup_channel ::
  "'d NodeEnv \<Rightarrow> ChannelId \<Rightarrow> ChannelId option \<Rightarrow> ChannelSetup \<Rightarrow> DerivationPath \<Rightarrow> 'd Node \<Rightarrow> ('d Node, Channel, Status) outcome" where
  "setup_channel ne channel_id0 opt_channel_id setup path n =
     attempt (get_channel n channel_id0) n (\<lambda>a.
     attempt (expect (slot_at n a)) n (\<lambda>slot.
     case slot of
       Ready ch \<Rightarrow> setup_splice ne a ch setup path n
     | Stub stub \<Rightarrow> setup_stub ne stub channel_id0 opt_channel_id setup path n))"

section \<open>Forgetting and pruning\<close>

definition forget_channel :: "'d NodeEnv \<Rightarrow> ChannelId \<Rightarrow> 'd Node \<Rightarrow> ('d Node, unit, Status) outcome" where
  "forget_channel ne channel_id n =
     (case map_of (channel_ids n) channel_id of
        None \<Rightarrow> (Ok (), n)
      | Some a \<Rightarrow>
          attempt (expect (slot_at n a)) n (\<lambda>slot.
          let forgotten =
            (case slot of
               Stub _ \<Rightarrow> (Ok (), n)
             | Ready ch \<Rightarrow>
                 let n' = modify_monitor a monitor_forget_channel n
                 in attempt (persist ne (PersistUpdateChannel (id0 ch))) n' (\<lambda>_. (Ok (), n')))
          in attempt_op forgotten (\<lambda>_ n.
             attempt (channel_oid channel_id) n (\<lambda>oid.
             let raise_mark = oid > dbid_high_water_mark (node_state n);
                 n = (if raise_mark then n\<lparr>node_state := (node_state n)\<lparr>dbid_high_water_mark := oid\<rparr>\<rparr> else n) in
             attempt (if raise_mark then persist_or_panic ne PersistUpdateNode else Ok ()) n (\<lambda>_.
             case slot of
               Ready _ \<Rightarrow> (Ok (), n)
             | Stub _ \<Rightarrow>
                 let n = n\<lparr>channel_ids := AList.delete channel_id (channel_ids n)\<rparr>
                 in attempt (persist_or_panic ne (PersistDeleteChannel channel_id)) n (\<lambda>_. (Ok (), n)))))))"

definition CHANNEL_STUB_PRUNE_BLOCKS :: u32 where "CHANNEL_STUB_PRUNE_BLOCKS = 6"

definition prunable :: "'d Node \<Rightarrow> nat \<Rightarrow> bool" where
  "prunable n a =
     (case slot_at n a of
        None \<Rightarrow> False
      | Some (Ready ch) \<Rightarrow> (case monitor_of n a of None \<Rightarrow> False | Some m \<Rightarrow> is_done (mon_state m))
      | Some (Stub stub) \<Rightarrow>
          let stub_prune_time = (if node_network n = Regtest then CHANNEL_STUB_PRUNE_BLOCKS + 100 else CHANNEL_STUB_PRUNE_BLOCKS)
          in saturating_sub (tracker_height (node_tracker n)) (blockheight stub) > stub_prune_time)"

text \<open>The keys to remove are gathered first; each is then removed with the listener of its channel.\<close>

fun prune_keys :: "'d NodeEnv \<Rightarrow> (ChannelId \<times> nat) list \<Rightarrow> 'd Node \<Rightarrow> ('d Node, unit, Status) outcome" where
  "prune_keys ne [] n = (Ok (), n)"
| "prune_keys ne ((key, a) # keys) n =
     (let n' = n\<lparr>channel_ids := AList.delete key (channel_ids n)\<rparr>;
          n' = (case slot_at n a of
                  Some (Ready ch) \<Rightarrow> detach (funding_outpoint (chan_setup ch)) n'
                | _ \<Rightarrow> n')
      in attempt (persist_or_panic ne (PersistDeleteChannel key)) n' (\<lambda>_. prune_keys ne keys n'))"

definition prune_channels :: "'d NodeEnv \<Rightarrow> 'd Node \<Rightarrow> ('d Node, unit, Status) outcome" where
  "prune_channels ne n =
     (let keys = filter (\<lambda>(_, a). prunable n a) (channel_ids n);
          tracker_modified = list_ex (\<lambda>(_, a). case slot_at n a of Some (Ready _) \<Rightarrow> True | _ \<Rightarrow> False) keys
      in attempt_op (prune_keys ne keys n) (\<lambda>_ n.
         attempt (if tracker_modified then persist_or_panic ne PersistUpdateTracker else Ok ()) n (\<lambda>_. (Ok (), n))))"

section \<open>The heartbeat\<close>

fun sum_balances :: "'d NodeEnv \<Rightarrow> 'd Node \<Rightarrow> nat list \<Rightarrow> ChannelBalance \<Rightarrow> (ChannelBalance, Status) result" where
  "sum_balances ne n [] acc = Ok acc"
| "sum_balances ne n (a # as) acc =
     and_then (expect (slot_at n a)) (\<lambda>slot.
     and_then
       (case slot of
          Stub _ \<Rightarrow> Ok balance_stub
        | Ready ch \<Rightarrow> and_then (expect (monitor_of n a)) (\<lambda>m. balance_of_channel (channel_env ne n m) ch (node_state n)))
       (\<lambda>b. sum_balances ne n as (balance_accumulate acc b)))"

definition node_channel_balance :: "'d NodeEnv \<Rightarrow> 'd Node \<Rightarrow> (ChannelBalance, Status) result" where
  "node_channel_balance ne n = sum_balances ne n (map snd (channel_ids n)) balance_zero"

record Heartbeat =
  chain_tip :: BlockHash
  chain_height :: u32
  chain_timestamp :: u32
  current_timestamp :: u32

definition get_heartbeat :: "'d NodeEnv \<Rightarrow> Duration \<Rightarrow> 'd Node \<Rightarrow> ('d Node, Heartbeat, Status) outcome" where
  "get_heartbeat ne now n =
     attempt (heartbeat_prune (node_state n) now) n (\<lambda>(ns, pruned).
     let n = n\<lparr>node_state := ns\<rparr> in
     attempt (if pruned then persist_or_panic ne PersistUpdateNode else Ok ()) n (\<lambda>_.
     attempt (node_channel_balance ne n) n (\<lambda>_.
     attempt_op (prune_channels ne n) (\<lambda>_ n.
     let t = node_tracker n in
     (Ok \<lparr>chain_tip = block_hash (ne_chain ne) (fst (tip t)), chain_height = tracker_height t,
          chain_timestamp = bh_time (fst (tip t)), current_timestamp = ucast (as_secs now)\<rparr>, n)))))"

section \<open>Blocks\<close>

definition node_add_block ::
  "'d NodeEnv \<Rightarrow> BlockHeader \<Rightarrow> TxoProof option \<Rightarrow> 'd Node \<Rightarrow> ('d Node, AddBlockReply, Status) outcome" where
  "node_add_block ne header p n =
     (let (r, t) = handle_add_block (ne_chain ne) (node_listener ne n) (\<lambda>_. ne_persist ne PersistUpdateTracker) header p (node_tracker n)
      in (r, n\<lparr>node_tracker := t\<rparr>))"

definition node_remove_block ::
  "'d NodeEnv \<Rightarrow> TxoProof option \<Rightarrow> Headers \<Rightarrow> 'd Node \<Rightarrow> ('d Node, unit, Status) outcome" where
  "node_remove_block ne p prev n =
     (let (r, t) = handle_remove_block (ne_chain ne) (node_listener ne n) (\<lambda>_. ne_persist ne PersistUpdateTracker) p prev (node_tracker n)
      in (r, n\<lparr>node_tracker := t\<rparr>))"

definition node_block_chunk ::
  "'d NodeEnv \<Rightarrow> BlockHash \<Rightarrow> u32 \<Rightarrow> u8 list \<Rightarrow> 'd Node \<Rightarrow> ('d Node, unit, Status) outcome" where
  "node_block_chunk ne hash offset chunk n =
     (let (r, t) = handle_block_chunk (ne_chain ne) (node_listener ne n) hash offset chunk (node_tracker n)
      in (r, n\<lparr>node_tracker := t\<rparr>))"

end
