(* ===== verification/Onchain.thy ===== *)
theory Onchain
  imports Node
begin

text \<open>
  On-chain transactions at the node, from \<^verbatim>\<open>vls-core/src/node.rs\<close>: the check of a transaction against the
  channels it funds and the velocity of fees, and its signing, which also puts the inputs of a funding
  transaction under watch.
\<close>

section \<open>Kinds of output\<close>

text \<open>The kinds of output script are told apart by functions of a library.\<close>

datatype SpendType = Invalid | P2pkh | P2wpkh | P2shP2wpkh | P2wsh | P2tr

record ScriptKinds =
  is_p2pkh :: "Script \<Rightarrow> bool"
  is_p2sh :: "Script \<Rightarrow> bool"
  is_p2wpkh :: "Script \<Rightarrow> bool"
  is_p2wsh :: "Script \<Rightarrow> bool"
  is_p2tr :: "Script \<Rightarrow> bool"

definition spend_type_of_script :: "ScriptKinds \<Rightarrow> Script \<Rightarrow> SpendType" where
  "spend_type_of_script sk script =
     (if is_p2pkh sk script then P2pkh
      else if is_p2sh sk script then P2shP2wpkh
      else if is_p2wpkh sk script then P2wpkh
      else if is_p2wsh sk script then P2wsh
      else if is_p2tr sk script then P2tr
      else Invalid)"

fun input_weight :: "ScriptKinds \<Rightarrow> TxOut \<Rightarrow> (Secret \<times> u8 list list) option \<Rightarrow> nat" where
  "input_weight sk prev uck =
     (if spend_type_of_script sk (script_pubkey prev) = Invalid then 0
      else 2 + 1 + 1 + 72 + 1 + (case uck of Some (_, stack) \<Rightarrow> (\<Sum>v\<leftarrow>stack. 1 + length v) | None \<Rightarrow> 33))"

fun weight_of_inputs :: "ScriptKinds \<Rightarrow> TxOut list \<Rightarrow> (Secret \<times> u8 list list) option list \<Rightarrow> (nat, ValidationError) result" where
  "weight_of_inputs sk prevs [] = Ok 0"
| "weight_of_inputs sk [] (uck # ucks) = Panic"
| "weight_of_inputs sk (prev # prevs) (uck # ucks) =
     and_then (weight_of_inputs sk prevs ucks) (\<lambda>w. Ok (input_weight sk prev uck + w))"

section \<open>The check\<close>

definition slot_view :: "'d Node \<Rightarrow> nat \<Rightarrow> SlotView" where
  "slot_view n a =
     (case slot_at n a of
        Some (Ready ch) \<Rightarrow>
          ReadyView \<lparr>fc_setup = chan_setup ch, fc_estate = enforcement_state ch,
                     fc_holder_funding_pubkey = funding_pubkey (sk_holder_pubkeys (chan_keys ch))\<rparr>
      | _ \<Rightarrow> StubView)"

text \<open>The channel that each output of a transaction funds.\<close>

definition funded_channels :: "'d NodeEnv \<Rightarrow> 'd Node \<Rightarrow> Transaction \<Rightarrow> nat option list" where
  "funded_channels ne n tx =
     map (\<lambda>i. find_channel_with_funding_outpoint n (outpoint (compute_txid (ne_crypto ne) tx) (of_nat i)))
       [0..<length (tx_output tx)]"

definition check_onchain_tx ::
  "'d NodeEnv \<Rightarrow> ScriptKinds \<Rightarrow> Duration \<Rightarrow> Transaction \<Rightarrow> bool list \<Rightarrow> TxOut list \<Rightarrow> (Secret \<times> u8 list list) option list \<Rightarrow>
   DerivationPath list \<Rightarrow> 'd Node \<Rightarrow> ('d Node, unit, ValidationError) outcome" where
  "check_onchain_tx ne sk now tx segwit_flags prev_outs uniclosekeys opaths n =
     (let lib = ne_crypto ne; v = ne_validator ne; channels = map (map_option (slot_view n)) (funded_channels ne n tx) in
      attempt (weight_of_inputs sk prev_outs uniclosekeys) n (\<lambda>w.
      attempt (v_validate_onchain_tx v (node_wallet ne (node_state n)) channels tx segwit_flags (map txout_value prev_outs) opaths
                 (tx_weight lib tx + w)) n (\<lambda>non_beneficial_sat.
      attempt (velocity_insert (node_fee_velocity_control (node_state n)) (as_secs now) (non_beneficial_sat * 1000)) n (\<lambda>(vc, accepted).
      let n = n\<lparr>node_state := (node_state n)\<lparr>node_fee_velocity_control := vc\<rparr>\<rparr> in
      attempt (policy_err_if (v_filter v) (\<not> accepted) ''policy-onchain-fee-range'') n (\<lambda>_. (Ok (), n))))))"

section \<open>Signing\<close>

text \<open>Keys, signature hashes and the bytes of signatures; the random bytes of a Schnorr signature are in its function.\<close>

record OnchainLib =
  wallet_privkey :: "DerivationPath \<Rightarrow> (Secret, Status) result"
  pubkey_bytes :: "PublicKey \<Rightarrow> u8 list"
  legacy_signature_hash :: "Transaction \<Rightarrow> nat \<Rightarrow> Script \<Rightarrow> Sighash option"
  p2wpkh_signature_hash :: "Transaction \<Rightarrow> nat \<Rightarrow> Script \<Rightarrow> u64 \<Rightarrow> Sighash option"
  taproot_signature_hash :: "Transaction \<Rightarrow> nat \<Rightarrow> TxOut list \<Rightarrow> Sighash option"
  ecdsa_bytes :: "Sighash \<Rightarrow> Secret \<Rightarrow> u8 list"
  schnorr_bytes :: "Sighash \<Rightarrow> Secret \<Rightarrow> u8 list"
  has_address :: "Script \<Rightarrow> bool"

definition element_at :: "'a list \<Rightarrow> nat \<Rightarrow> ('a, 'e) result" where
  "element_at xs i = (if i < length xs then Ok (xs ! i) else Panic)"

fun input_key ::
  "CryptoLib \<Rightarrow> OnchainLib \<Rightarrow> (Secret \<times> u8 list list) option \<Rightarrow> DerivationPath list \<Rightarrow> nat \<Rightarrow> (Secret \<times> u8 list list, Status) result" where
  "input_key lib ol (Some uck) ipaths idx = Ok uck"
| "input_key lib ol None ipaths idx =
     and_then (element_at ipaths idx) (\<lambda>path.
     and_then (wallet_privkey ol path) (\<lambda>key. Ok (key, [pubkey_bytes ol (public_key_of lib key)])))"

fun sign_spend ::
  "'d NodeEnv \<Rightarrow> OnchainLib \<Rightarrow> Transaction \<Rightarrow> DerivationPath list \<Rightarrow> TxOut list \<Rightarrow> nat \<Rightarrow> TxOut \<Rightarrow> Secret \<Rightarrow> u8 list list \<Rightarrow>
   SpendType \<Rightarrow> (u8 list, Status) result" where
  "sign_spend ne ol tx ipaths prev_outs idx prev key witness P2pkh =
     (let script = p2pkh_script (ne_wallet ne) (public_key_of (ne_crypto ne) key) in
      and_then (assert_that (script_pubkey prev = script)) (\<lambda>_.
      and_then (ok_or (legacy_signature_hash ol tx idx script) Internal) (\<lambda>sighash. Ok (ecdsa_bytes ol sighash key))))"
| "sign_spend ne ol tx ipaths prev_outs idx prev key witness P2wpkh =
     (let script = p2wpkh_script (ne_wallet ne) (public_key_of (ne_crypto ne) key) in
      and_then (assert_that (script_pubkey prev = script)) (\<lambda>_.
      and_then (expect (p2wpkh_signature_hash ol tx idx script (txout_value prev))) (\<lambda>sighash. Ok (ecdsa_bytes ol sighash key))))"
| "sign_spend ne ol tx ipaths prev_outs idx prev key witness P2shP2wpkh =
     (let pubkey = public_key_of (ne_crypto ne) key in
      and_then (assert_that (script_pubkey prev = p2shwpkh_script (ne_wallet ne) pubkey)) (\<lambda>_.
      and_then (expect (p2wpkh_signature_hash ol tx idx (p2wpkh_script (ne_wallet ne) pubkey) (txout_value prev)))
        (\<lambda>sighash. Ok (ecdsa_bytes ol sighash key))))"
| "sign_spend ne ol tx ipaths prev_outs idx prev key witness P2wsh =
     and_then (expect (if witness = [] then None else Some (last witness))) (\<lambda>script.
     and_then (expect (p2wsh_signature_hash (ne_crypto ne) tx idx script (txout_value prev) SighashAll)) (\<lambda>sighash.
     Ok (ecdsa_bytes ol sighash key)))"
| "sign_spend ne ol tx ipaths prev_outs idx prev key witness P2tr =
     and_then (element_at ipaths idx) (\<lambda>path.
     and_then (get_wallet_pubkey (ne_wallet ne) path) (\<lambda>pubkey.
     and_then (err_if (\<not> has_address ol (script_pubkey prev)) InvalidArgument) (\<lambda>_.
     and_then (err_if (p2tr_script (ne_wallet ne) pubkey \<noteq> script_pubkey prev) InvalidArgument) (\<lambda>_.
     and_then (expect (taproot_signature_hash ol tx idx prev_outs)) (\<lambda>sighash. Ok (schnorr_bytes ol sighash key))))))"
| "sign_spend ne ol tx ipaths prev_outs idx prev key witness Invalid = Err InvalidArgument"

definition sign_input ::
  "'d NodeEnv \<Rightarrow> ScriptKinds \<Rightarrow> OnchainLib \<Rightarrow> Transaction \<Rightarrow> DerivationPath list \<Rightarrow> TxOut list \<Rightarrow>
   nat \<times> (Secret \<times> u8 list list) option \<Rightarrow> (u8 list list, Status) result" where
  "sign_input ne sk ol tx ipaths prev_outs = (\<lambda>(idx, uck).
     and_then (element_at prev_outs idx) (\<lambda>prev.
     let st = spend_type_of_script sk (script_pubkey prev) in
     and_then (if st = Invalid then Ok True else if uck \<noteq> None then Ok False
               else and_then (element_at ipaths idx) (\<lambda>path. Ok (path = []))) (\<lambda>skipped.
     if skipped then Ok []
     else
       and_then (input_key (ne_crypto ne) ol uck ipaths idx) (\<lambda>(key, witness).
       and_then (sign_spend ne ol tx ipaths prev_outs idx prev key witness st) (\<lambda>sigvec.
       Ok (sigvec # (if st = P2tr then [] else witness)))))))"

text \<open>
  The channels that the transaction funds: its inputs are watched, so that a double spend is seen. The monitor of
  a channel is kept under the funding outpoint of the channel's setup.
\<close>

fun watch_inputs :: "'d NodeEnv \<Rightarrow> Transaction \<Rightarrow> nat option list \<Rightarrow> 'd Node \<Rightarrow> ('d Node, unit, Status) outcome" where
  "watch_inputs ne tx [] n = (Ok (), n)"
| "watch_inputs ne tx (None # channels) n = watch_inputs ne tx channels n"
| "watch_inputs ne tx (Some a # channels) n =
     (case slot_at n a of
        Some (Ready ch) \<Rightarrow>
          attempt (add_listener_watches (funding_outpoint (chan_setup ch)) (set (map previous_output (tx_input tx))) (node_tracker n)) n (\<lambda>t.
          let n = modify_monitor a (add_funding_inputs tx) (n\<lparr>node_tracker := t\<rparr>) in
          attempt (persist ne (PersistUpdateChannel (id0 ch))) n (\<lambda>_. watch_inputs ne tx channels n))
      | _ \<Rightarrow> (Panic, n))"

definition unchecked_sign_onchain_tx ::
  "'d NodeEnv \<Rightarrow> ScriptKinds \<Rightarrow> OnchainLib \<Rightarrow> Transaction \<Rightarrow> DerivationPath list \<Rightarrow> TxOut list \<Rightarrow>
   (Secret \<times> u8 list list) option list \<Rightarrow> 'd Node \<Rightarrow> ('d Node, u8 list list list, Status) outcome" where
  "unchecked_sign_onchain_tx ne sk ol tx ipaths prev_outs uniclosekeys n =
     attempt (map_ok (sign_input ne sk ol tx ipaths prev_outs) (enumerate 0 uniclosekeys)) n (\<lambda>witvec.
     attempt_op (watch_inputs ne tx (funded_channels ne n tx) n) (\<lambda>_ n.
     attempt (persist ne PersistUpdateTracker) n (\<lambda>_. (Ok witvec, n))))"

end
