(* ===== verification/Approver.thy ===== *)
theory Approver
  imports Onchain
begin

text \<open>
  The approvers of \<^verbatim>\<open>vls-protocol-signer/src/approver.rs\<close> and the requests that ask them: an invoice, a
  keysend and an on-chain transaction. An approver is a record of the three answers it gives, each a function
  of its own state; the velocity and the memo approver are built over a delegate.
\<close>

section \<open>Approvers\<close>

record 'a Approver =
  approve_invoice :: "Duration \<Rightarrow> Invoice \<Rightarrow> 'a \<Rightarrow> (bool \<times> 'a, Status) result"
  approve_keysend :: "Duration \<Rightarrow> PaymentHash \<Rightarrow> u64 \<Rightarrow> 'a \<Rightarrow> (bool \<times> 'a, Status) result"
  approve_onchain :: "Transaction \<Rightarrow> TxOut list \<Rightarrow> nat list \<Rightarrow> 'a \<Rightarrow> (bool \<times> 'a, Status) result"

definition constant_approver :: "bool \<Rightarrow> 'a Approver" where
  "constant_approver answer =
     \<lparr>approve_invoice = (\<lambda>_ _ s. Ok (answer, s)), approve_keysend = (\<lambda>_ _ _ s. Ok (answer, s)),
      approve_onchain = (\<lambda>_ _ _ s. Ok (answer, s))\<rparr>"

definition PositiveApprover :: "'a Approver" where "PositiveApprover = constant_approver True"

text \<open>It differs from the one above in the log only.\<close>

definition WarningPositiveApprover :: "'a Approver" where "WarningPositiveApprover = constant_approver True"

definition NegativeApprover :: "'a Approver" where "NegativeApprover = constant_approver False"

text \<open>A payment over the velocity goes to the delegate; its approval clears the control.\<close>

definition within_velocity ::
  "Duration \<Rightarrow> u64 \<Rightarrow> ('a \<Rightarrow> (bool \<times> 'a, Status) result) \<Rightarrow> VelocityControl \<times> 'a \<Rightarrow> (bool \<times> VelocityControl \<times> 'a, Status) result" where
  "within_velocity now amount ask = (\<lambda>(vc, s).
     and_then (velocity_insert vc (as_secs now) amount) (\<lambda>(vc, success).
     if success then Ok (True, vc, s)
     else and_then (ask s) (\<lambda>(approved, s). Ok (approved, if approved then velocity_clear vc else vc, s))))"

definition VelocityApprover :: "'a Approver \<Rightarrow> (VelocityControl \<times> 'a) Approver" where
  "VelocityApprover delegate =
     \<lparr>approve_invoice = (\<lambda>now invoice. within_velocity now (inv_amount_milli_satoshis invoice) (approve_invoice delegate now invoice)),
      approve_keysend = (\<lambda>now hash amount. within_velocity now amount (approve_keysend delegate now hash amount)),
      approve_onchain = (\<lambda>tx prev_outs unknowns (vc, s).
        and_then (approve_onchain delegate tx prev_outs unknowns s) (\<lambda>(approved, s). Ok (approved, vc, s)))\<rparr>"

datatype MemoApproval = MemoInvoice Invoice | MemoKeySend PaymentHash u64 | MemoOnchain Transaction

text \<open>Every request empties the memory, whether an approval in it matches or not.\<close>

definition from_memory ::
  "(MemoApproval \<Rightarrow> bool) \<Rightarrow> ('a \<Rightarrow> (bool \<times> 'a, Status) result) \<Rightarrow> MemoApproval list \<times> 'a \<Rightarrow> (bool \<times> MemoApproval list \<times> 'a, Status) result" where
  "from_memory matches ask = (\<lambda>(memory, s).
     if list_ex matches memory then Ok (True, [], s)
     else and_then (ask s) (\<lambda>(approved, s). Ok (approved, [], s)))"

fun memo_invoice :: "Invoice \<Rightarrow> MemoApproval \<Rightarrow> bool" where
  "memo_invoice invoice (MemoInvoice approved) = (inv_invoice_hash approved = inv_invoice_hash invoice)"
| "memo_invoice invoice _ = False"

fun memo_keysend :: "PaymentHash \<Rightarrow> u64 \<Rightarrow> MemoApproval \<Rightarrow> bool" where
  "memo_keysend hash amount (MemoKeySend approved_hash approved_amount) = (approved_hash = hash \<and> approved_amount = amount)"
| "memo_keysend hash amount _ = False"

fun memo_onchain :: "Transaction \<Rightarrow> MemoApproval \<Rightarrow> bool" where
  "memo_onchain tx (MemoOnchain approved) = (approved = tx)"
| "memo_onchain tx _ = False"

definition MemoApprover :: "'a Approver \<Rightarrow> (MemoApproval list \<times> 'a) Approver" where
  "MemoApprover delegate =
     \<lparr>approve_invoice = (\<lambda>now invoice. from_memory (memo_invoice invoice) (approve_invoice delegate now invoice)),
      approve_keysend = (\<lambda>now hash amount. from_memory (memo_keysend hash amount) (approve_keysend delegate now hash amount)),
      approve_onchain = (\<lambda>tx prev_outs unknowns. from_memory (memo_onchain tx) (approve_onchain delegate tx prev_outs unknowns))\<rparr>"

definition memo_approve :: "MemoApproval list \<Rightarrow> MemoApproval list \<times> 'a \<Rightarrow> MemoApproval list \<times> 'a" where
  "memo_approve approvals = (\<lambda>(_, s). (approvals, s))"

section \<open>Payments\<close>

text \<open>Adding a payment at the node, which is written out when the payment is new.\<close>

definition node_add_payment ::
  "'d NodeEnv \<Rightarrow> (NodeState \<Rightarrow> (NodeState \<times> bool, Status) result) \<Rightarrow> 'd Node \<Rightarrow> ('d Node, bool, Status) outcome" where
  "node_add_payment ne add n =
     attempt (add (node_state n)) n (\<lambda>(ns, added).
     let n' = n\<lparr>node_state := ns\<rparr>
     in attempt (if invoices ns \<noteq> invoices (node_state n) then persist_or_panic ne PersistUpdateNode else Ok ()) n' (\<lambda>_. (Ok added, n')))"

text \<open>Both requests with the state of the approver in front of the node; a request reads the clock once.\<close>

type_synonym ('a, 'd) ApprovedNode = "'a \<times> 'd Node"

definition on_node :: "('d Node \<Rightarrow> ('d Node, 'b, Status) outcome) \<Rightarrow> ('a, 'd) ApprovedNode \<Rightarrow> (('a, 'd) ApprovedNode, 'b, Status) outcome" where
  "on_node f = (\<lambda>(s, n). apsnd (Pair s) (f n))"

definition handle_proposed_invoice ::
  "'d NodeEnv \<Rightarrow> 'a Approver \<Rightarrow> Duration \<Rightarrow> Invoice \<Rightarrow> ('a, 'd) ApprovedNode \<Rightarrow> (('a, 'd) ApprovedNode, bool, Status) outcome" where
  "handle_proposed_invoice ne ap now invoice = (\<lambda>(s, n).
     let (hash, _, invoice_hash) = payment_state_from_invoice invoice;
         add = on_node (node_add_payment ne (\<lambda>ns. add_invoice (ne_validator ne) ns now invoice)) in
     attempt (has_payment (node_state n) hash invoice_hash) (s, n) (\<lambda>known.
     if known then (Ok True, (s, n))
     else if allowlist_contains_payee (node_state n) (inv_payee_pub_key invoice) then add (s, n)
     else
       attempt (approve_invoice ap now invoice s) (s, n) (\<lambda>(approved, s).
       if approved then add (s, n) else (Ok False, (s, n)))))"

definition handle_proposed_keysend ::
  "'d NodeEnv \<Rightarrow> 'a Approver \<Rightarrow> Duration \<Rightarrow> PublicKey \<Rightarrow> PaymentHash \<Rightarrow> u64 \<Rightarrow> ('a, 'd) ApprovedNode \<Rightarrow>
   (('a, 'd) ApprovedNode, bool, Status) outcome" where
  "handle_proposed_keysend ne ap now key hash amount = (\<lambda>(s, n).
     let (_, invoice_hash) = payment_state_from_keysend key hash amount now in
     attempt (has_payment (node_state n) hash invoice_hash) (s, n) (\<lambda>known.
     if known then (Ok True, (s, n))
     else
       attempt (approve_keysend ap now hash amount s) (s, n) (\<lambda>(approved, s).
       if approved then on_node (node_add_payment ne (\<lambda>ns. add_keysend (ne_validator ne) ns now key hash amount)) (s, n)
       else (Ok False, (s, n)))))"

section \<open>On-chain transactions\<close>

definition handle_proposed_onchain ::
  "'d NodeEnv \<Rightarrow> ScriptKinds \<Rightarrow> 'a Approver \<Rightarrow> Duration \<Rightarrow> Transaction \<Rightarrow> bool list \<Rightarrow> TxOut list \<Rightarrow>
   (Secret \<times> u8 list list) option list \<Rightarrow> DerivationPath list \<Rightarrow> ('a, 'd) ApprovedNode \<Rightarrow> (('a, 'd) ApprovedNode, bool, Status) outcome" where
  "handle_proposed_onchain ne sk ap now tx segwit_flags prev_outs uniclosekeys opaths = (\<lambda>(s, n).
     case check_onchain_tx ne sk now tx segwit_flags prev_outs uniclosekeys opaths n of
       (Ok _, n) \<Rightarrow> (Ok True, (s, n))
     | (Panic, n) \<Rightarrow> (Panic, (s, n))
     | (Err ve, n) \<Rightarrow>
         (case ve_kind ve of
            UnknownDestinations indices \<Rightarrow>
              attempt (approve_onchain ap tx prev_outs indices s) (s, n) (\<lambda>(approved, s). (Ok approved, (s, n)))
          | _ \<Rightarrow> (Err FailedPrecondition, (s, n))))"

text \<open>The end of the request to sign a withdrawal or a funding transaction.\<close>

definition sign_withdrawal ::
  "'d NodeEnv \<Rightarrow> ScriptKinds \<Rightarrow> OnchainLib \<Rightarrow> 'a Approver \<Rightarrow> Duration \<Rightarrow> Transaction \<Rightarrow> bool list \<Rightarrow> DerivationPath list \<Rightarrow> TxOut list \<Rightarrow>
   (Secret \<times> u8 list list) option list \<Rightarrow> DerivationPath list \<Rightarrow> ('a, 'd) ApprovedNode \<Rightarrow>
   (('a, 'd) ApprovedNode, u8 list list list, Status) outcome" where
  "sign_withdrawal ne sk ol ap now tx segwit_flags ipaths prev_outs uniclosekeys opaths w =
     attempt_op (handle_proposed_onchain ne sk ap now tx segwit_flags prev_outs uniclosekeys opaths w) (\<lambda>approved w.
     attempt (err_if (\<not> approved) FailedPrecondition) w (\<lambda>_.
     on_node (unchecked_sign_onchain_tx ne sk ol tx ipaths prev_outs uniclosekeys) w))"

end
