(* ===== verification/NodeRun.thy ===== *)
theory NodeRun
  imports ChannelSafety TrackerSafety Approver
begin

text \<open>
  The requests of a node as the steps of a labelled transition system, the life of a channel in it, and
  the requests that concern no channel's life: blocks, payments and on-chain transactions. \<open>NodeLife\<close> has
  the others.
\<close>

section \<open>Requests\<close>

text \<open>A request that asks an approver carries its answers of that moment.\<close>

datatype NodeRequest =
    NewChannel u64 "u8 list"
  | SetupChannel ChannelId ChannelSetup DerivationPath
  | ForgetChannel ChannelId
  | OnChannel ChannelId Request
  | LockFundingOf ChannelId OutPoint
  | PreapproveInvoice "unit Approver" Duration Invoice
  | PreapproveKeysend "unit Approver" Duration PublicKey PaymentHash u64
  | SignWithdrawal ScriptKinds OnchainLib "unit Approver" Duration Transaction "bool list" "DerivationPath list" "TxOut list"
      "(Secret \<times> u8 list list) option list" "DerivationPath list"
  | GetHeartbeat Duration
  | Chain ChainMessage

datatype NodeReply =
    Acknowledged
  | Approved bool
  | ChannelReply Reply
  | BlockReply AddBlockReply
  | HeartbeatReply Heartbeat

fun node_serve :: "'d NodeEnv \<Rightarrow> NodeRequest \<Rightarrow> 'd Node \<Rightarrow> ('d Node, NodeReply, Status) outcome" where
  "node_serve ne (NewChannel dbid peer) n = map_prod (map_reply (\<lambda>_. Acknowledged)) id (new_channel ne dbid peer n)"
| "node_serve ne (SetupChannel i setup path) n =
     map_prod (map_reply (\<lambda>_. Acknowledged)) id (setup_channel ne i None setup path n)"
| "node_serve ne (ForgetChannel i) n = map_prod (map_reply (\<lambda>_. Acknowledged)) id (forget_channel ne i n)"
| "node_serve ne (OnChannel i req) n = map_prod (map_reply ChannelReply) id (with_channel ne i (\<lambda>env. serve env req) n)"
| "node_serve ne (LockFundingOf i out) n = map_prod (map_reply (\<lambda>_. Acknowledged)) id (confirm_funding_lock ne i out n)"
| "node_serve ne (PreapproveInvoice ap now invoice) n =
     map_prod (map_reply Approved) snd (handle_proposed_invoice ne ap now invoice ((), n))"
| "node_serve ne (PreapproveKeysend ap now key hash amount) n =
     map_prod (map_reply Approved) snd (handle_proposed_keysend ne ap now key hash amount ((), n))"
| "node_serve ne (SignWithdrawal sk ol ap now tx flags ipaths prevs ucks opaths) n =
     map_prod (map_reply (\<lambda>_. Acknowledged)) snd (sign_withdrawal ne sk ol ap now tx flags ipaths prevs ucks opaths ((), n))"
| "node_serve ne (GetHeartbeat now) n = map_prod (map_reply HeartbeatReply) id (get_heartbeat ne now n)"
| "node_serve ne (Chain (AddBlock header p)) n = map_prod (map_reply BlockReply) id (node_add_block ne header p n)"
| "node_serve ne (Chain (RemoveBlock p prev)) n = map_prod (map_reply (\<lambda>_. Acknowledged)) id (node_remove_block ne p prev n)"
| "node_serve ne (Chain (BlockChunk hash offset chunk)) n =
     map_prod (map_reply (\<lambda>_. Acknowledged)) id (node_block_chunk ne hash offset chunk n)"

section \<open>The life of a channel\<close>

datatype Life = Absent | Opening | Live Channel

fun slot_life :: "ChannelSlot option \<Rightarrow> Life" where
  "slot_life (Some (Ready ch)) = Live ch"
| "slot_life _ = Opening"

definition life :: "'d Node \<Rightarrow> ChannelId \<Rightarrow> Life" where
  "life n i = (case map_of (channel_ids n) i of None \<Rightarrow> Absent | Some a \<Rightarrow> slot_life (slot_at n a))"

abbreviation mark :: "'d Node \<Rightarrow> u64" where
  "mark n \<equiv> dbid_high_water_mark (node_state n)"

definition retired :: "'d Node \<Rightarrow> ChannelId \<Rightarrow> bool" where
  "retired n i = (case (channel_oid i :: (u64, Status) result) of Ok oid \<Rightarrow> oid \<le> mark n | _ \<Rightarrow> False)"

type_synonym 'd NodeLabel = "'d NodeEnv \<times> NodeRequest \<times> (NodeReply, Status) result"

text \<open>
  The requests a run is made of. A panic ends the signer. A channel is not spliced, and a request to
  forget a channel is not refused: it is refused after the monitor was told and before the mark is raised.
\<close>

fun node_allowed :: "NodeRequest \<Rightarrow> (NodeReply, Status) result \<Rightarrow> 'd Node \<Rightarrow> bool" where
  "node_allowed (SetupChannel i setup path) reply n = (case life n i of Live ch \<Rightarrow> chan_setup ch = setup | _ \<Rightarrow> True)"
| "node_allowed (ForgetChannel i) reply n = is_ok reply"
| "node_allowed (OnChannel i req) reply n = (req \<noteq> RevokePrevious (- 1))"
| "node_allowed req reply n = True"

definition node_act :: "Validator \<Rightarrow> Sha256 \<Rightarrow> 'd NodeLabel \<Rightarrow> 'd Node \<Rightarrow> 'd Node \<Rightarrow> bool" where
  "node_act v sha = (\<lambda>(ne, req, reply) n n'.
     ne_validator ne = v \<and> ne_sha ne = sha \<and> node_serve ne req n = (reply, n') \<and> reply \<noteq> Panic \<and> node_allowed req reply n)"

definition node_start :: "'d Node \<Rightarrow> bool" where
  "node_start n \<longleftrightarrow> channel_ids n = [] \<and> listeners (node_tracker n) = [] \<and> detached n = []"

interpretation noderun: labelled_system node_start "node_act v sha" for v sha .

text \<open>What an observer learns of the commitments of one channel.\<close>

fun observe_on :: "ChannelId \<Rightarrow> NodeRequest \<Rightarrow> (NodeReply, Status) result \<Rightarrow> Observation list" where
  "observe_on i (OnChannel j req) (Ok (ChannelReply reply)) = (if j = i then observe req (Ok reply) else [])"
| "observe_on i _ _ = []"

definition observations_on :: "ChannelId \<Rightarrow> 'd NodeLabel list \<Rightarrow> Observation list" where
  "observations_on i ls = concat (map (\<lambda>(_, req, reply). observe_on i req reply) ls)"

text \<open>The steps of a life; the state of the node after the step is the third argument.\<close>

inductive life_step ::
  "Validator \<Rightarrow> Sha256 \<Rightarrow> 'd Node \<Rightarrow> 'd Node \<Rightarrow> ChannelId \<Rightarrow> Observation list \<Rightarrow> Life \<Rightarrow> Life \<Rightarrow> bool"
  for v sha n n' i where
  stay: "life_step v sha n n' i [] l l"
| create: "\<not> retired n i \<Longrightarrow> life_step v sha n n' i [] Absent Opening"
| drop: "life_step v sha n n' i [] Opening Absent"
| open_up: "channel_start (ch, ns) \<Longrightarrow> life_step v sha n n' i [] Opening (Live ch)"
| work: "channel_act v sha (env, req, reply) (ch, ns) (ch', ns') \<Longrightarrow>
    life_step v sha n n' i (observe req reply) (Live ch) (Live ch')"
| prune: "retired n' i \<Longrightarrow> life_step v sha n n' i [] (Live ch) Absent"

section \<open>The registry\<close>

definition monitors :: "'d Node \<Rightarrow> SlotListener set" where
  "monitors n = (\<lambda>x. fst (snd x)) ` set (listeners (node_tracker n)) \<union> set (detached n)"

definition owners :: "'d Node \<Rightarrow> nat set" where
  "owners n = fst ` monitors n"

definition forgotten :: "'d Node \<Rightarrow> nat set" where
  "forgotten n = fst ` {l \<in> monitors n. saw_forget_channel (mon_state (snd l))}"

text \<open>
  Identifiers are in order and no two name the same slot; a channel whose monitor saw that it is forgotten
  has a retired identifier; monitors belong to slots that were handed out.
\<close>

definition registry_ok :: "'d Node \<Rightarrow> bool" where
  "registry_ok n \<longleftrightarrow>
     sorted_wrt (<) (map fst (channel_ids n)) \<and> distinct (map snd (channel_ids n))
     \<and> (\<forall>(i, a) \<in> set (channel_ids n). a < next_slot n \<and> (a \<in> forgotten n \<longrightarrow> retired n i))
     \<and> owners n \<subseteq> {..<next_slot n}"

text \<open>A change that concerns no channel's life.\<close>

definition quiet :: "'d Node \<Rightarrow> 'd Node \<Rightarrow> bool" where
  "quiet n n' \<longleftrightarrow>
     channel_ids n' = channel_ids n \<and> slots n' = slots n \<and> next_slot n' = next_slot n \<and> mark n' = mark n
     \<and> forgotten n' \<subseteq> forgotten n \<and> owners n' \<subseteq> owners n \<union> {..<next_slot n}"

lemma quiet_refl [simp, intro]: "quiet n n"
  by (simp add: quiet_def)

lemma quiet_trans: "\<lbrakk>quiet n n'; quiet n' n''\<rbrakk> \<Longrightarrow> quiet n n''"
  unfolding quiet_def by auto

lemma quiet_state [intro]: "dbid_high_water_mark ns = mark n \<Longrightarrow> quiet n (n\<lparr>node_state := ns\<rparr>)"
  by (simp add: quiet_def owners_def forgotten_def monitors_def)

lemma retired_mono: "\<lbrakk>retired n i; mark n \<le> mark n'\<rbrakk> \<Longrightarrow> retired n' i"
  by (auto simp: retired_def split: result.splits)

lemma retired_cong: "mark n' = mark n \<Longrightarrow> retired n' = retired n"
  by (auto simp: fun_eq_iff retired_def split: result.splits)

lemma quiet_registry: "\<lbrakk>quiet n n'; registry_ok n\<rbrakk> \<Longrightarrow> registry_ok n'"
  unfolding registry_ok_def quiet_def by (auto 0 4 intro: retired_mono)

lemma quiet_life: "quiet n n' \<Longrightarrow> life n' i = life n i"
  by (auto simp: life_def quiet_def slot_at_def split: option.splits)

section \<open>Blocks do not forget a channel\<close>

text \<open>What every call of a listener keeps is kept by the tracker.\<close>

definition related :: "('l \<Rightarrow> 'l \<Rightarrow> bool) \<Rightarrow> (OutPoint \<times> 'l \<times> ListenSlot) list \<Rightarrow> (OutPoint \<times> 'l \<times> ListenSlot) list \<Rightarrow> bool" where
  "related R = list_all2 (\<lambda>(_, l, _) (_, l', _). R l l')"

lemma related_trans:
  assumes "\<And>l l' l''. \<lbrakk>R l l'; R l' l''\<rbrakk> \<Longrightarrow> R l l''" "related R ls ls'" "related R ls' ls''"
  shows "related R ls ls''"
  using list_all2_trans [OF _ assms(2,3) [unfolded related_def], of "\<lambda>(_, l, _) (_, l', _). R l l'"]
  unfolding related_def by (auto intro: assms(1))

lemma notify_related:
  assumes "map_ok (notify tell upd) ls = Ok ls'" "\<And>l l' c. tell l = Ok (l', c) \<Longrightarrow> R l l'"
  shows "related R ls ls'"
  using assms(1) unfolding map_ok_eq_Ok related_def
  by (rule list_all2_mono) (auto simp: notify_def and_then_eq_Ok unwrap_eq dest: assms(2))

locale listener_relation =
  fixes ops :: "'l ChainListener"
    and R :: "'l \<Rightarrow> 'l \<Rightarrow> bool"
  assumes R_refl: "R l l"
    and R_trans: "\<lbrakk>R l l'; R l' l''\<rbrakk> \<Longrightarrow> R l l''"
    and R_add: "listener_on_add_block ops txs hash l = Ok (l', c) \<Longrightarrow> R l l'"
    and R_add_streamed: "listener_on_add_streamed_block_end ops hash l = Ok (l', c) \<Longrightarrow> R l l'"
    and R_remove: "listener_on_remove_block ops txs hash l = Ok (l', c) \<Longrightarrow> R l l'"
    and R_remove_streamed: "listener_on_remove_streamed_block_end ops hash l = Ok (l', c) \<Longrightarrow> R l l'"
    and R_push: "listener_on_push ops event l = Ok l' \<Longrightarrow> R l l'"
begin

lemma related_refl [simp]: "related R ls ls"
  by (auto simp: related_def R_refl intro: list_all2_refl)

lemma add_notified: "notify_listeners_add ops txs hash ls = Ok ls' \<Longrightarrow> related R ls ls'"
  unfolding notify_listeners_add_def by (erule notify_related) (auto intro: R_add R_add_streamed split: option.splits)

lemma remove_notified: "notify_listeners_remove ops txs hash ls = Ok ls' \<Longrightarrow> related R ls ls'"
  unfolding notify_listeners_remove_def
  by (erule notify_related) (auto intro: R_remove R_remove_streamed split: option.splits)

lemma handle_add_block_related:
  assumes "handle_add_block lib ops persists header p t = (reply, t')" "reply \<noteq> Panic"
  shows "related R (listeners t) (listeners t')"
proof (cases p)
  case None
  with assms show ?thesis by (auto simp: handle_add_block_def)
next
  case (Some pr)
  obtain r u where step: "add_block lib ops header pr t = (r, u)" by force
  with Some assms have t': "t' = u" and "r \<noteq> Panic" "\<forall>e. r = Err e \<longrightarrow> e = OrphanBlock"
    by (auto simp: handle_add_block_def split: result.splits TrackerError.splits if_splits)
  show ?thesis
  proof (cases r)
    case (Ok x)
    with step have "add_block lib ops header pr t = (Ok (), u)" by simp
    then show ?thesis by (rule add_block_Ok) (auto simp: t' intro: add_notified)
  qed (use step \<open>r \<noteq> Panic\<close> in \<open>auto simp: t' dest: add_block_Err\<close>)
qed

lemma handle_remove_block_related:
  assumes "handle_remove_block lib ops persists p prev t = (reply, t')" "reply \<noteq> Panic"
  shows "related R (listeners t) (listeners t')"
proof (cases p)
  case None
  with assms show ?thesis by (auto simp: handle_remove_block_def)
next
  case (Some pr)
  with assms obtain header where "remove_block lib ops pr prev t = (Ok header, t')"
    by (auto simp: handle_remove_block_def split: result.splits prod.splits if_splits)
  then show ?thesis by (rule remove_block_Ok) (auto intro: remove_notified)
qed

lemma pushed_related: "push_to_listeners ops hash event ls = Ok ls' \<Longrightarrow> related R ls ls'"
proof -
  have "related R ls ls'" if "do_push ops event ls = Ok ls'"
    using that unfolding do_push_def map_ok_eq_Ok related_def
    by (rule list_all2_mono) (auto simp: and_then_eq_Ok unwrap_eq dest: R_push)
  then show "push_to_listeners ops hash event ls = Ok ls' \<Longrightarrow> ?thesis"
    by (cases event) (auto simp: and_then_eq_Ok)
qed

lemma handle_block_chunk_related:
  assumes "handle_block_chunk lib ops hash offset chunk t = (reply, t')" "reply \<noteq> Panic"
  shows "related R (listeners t) (listeners t')"
proof -
  obtain events ls where ls: "fold_ok (push_to_listeners ops hash) events (listeners t) = Ok ls" and t': "listeners t' = ls"
    using assms by (auto simp: handle_block_chunk_def block_chunk_def and_then_eq_Ok split: result.splits)
  show ?thesis unfolding t'
    by (rule fold_ok_invariant [OF ls]) (auto intro: related_trans [OF R_trans] pushed_related)
qed

end

text \<open>Only a request to forget a channel sets the flag of its monitor.\<close>

definition same_forget :: "SlotListener \<Rightarrow> SlotListener \<Rightarrow> bool" where
  "same_forget l l' \<longleftrightarrow>
     fst l' = fst l \<and> saw_forget_channel (mon_state (snd l')) = saw_forget_channel (mon_state (snd l))"

lemma changes_keep_forget:
  "apply_forward_change c (s, adds, removes) = Ok (s', adds', removes') \<Longrightarrow> saw_forget_channel s' = saw_forget_channel s"
  "apply_backward_change c (s, adds, removes) = Ok (s', adds', removes') \<Longrightarrow> saw_forget_channel s' = saw_forget_channel s"
  by (cases c; auto simp: result_simps Let_def split: if_splits option.splits)+

lemma fold_keeps_forget:
  "fold_ok apply_forward_change changes (s, adds, removes) = Ok (s', w) \<Longrightarrow> saw_forget_channel s' = saw_forget_channel s"
  "fold_ok apply_backward_change changes (s, adds, removes) = Ok (s', w) \<Longrightarrow> saw_forget_channel s' = saw_forget_channel s"
  by (drule fold_ok_invariant [where P = "\<lambda>x. saw_forget_channel (fst x) = saw_forget_channel s"];
      auto dest: changes_keep_forget)+

lemma note_keeps_forget [simp]:
  "saw_forget_channel (note_swept b c s) = saw_forget_channel s"
  "saw_forget_channel (note_unswept b c s) = saw_forget_channel s"
  by (simp_all add: note_swept_def note_unswept_def Let_def)

lemma block_end_keeps_forget:
  "on_add_block_end s changes = Ok (s', w) \<Longrightarrow> saw_forget_channel s' = saw_forget_channel s"
  "on_remove_block_end s changes = Ok (s', w) \<Longrightarrow> saw_forget_channel s' = saw_forget_channel s"
  by (auto simp: on_add_block_end_def on_remove_block_end_def Let_def and_then_eq_Ok dest: fold_keeps_forget)

lemma monitor_keeps_forget:
  "on_add_block pp txid_of txs hash m = Ok (m', w) \<Longrightarrow> saw_forget_channel (mon_state m') = saw_forget_channel (mon_state m)"
  "on_remove_block pp txid_of txs hash m = Ok (m', w) \<Longrightarrow> saw_forget_channel (mon_state m') = saw_forget_channel (mon_state m)"
  "on_add_streamed_block_end hash m = Ok (m', w) \<Longrightarrow> saw_forget_channel (mon_state m') = saw_forget_channel (mon_state m)"
  "on_remove_streamed_block_end hash m = Ok (m', w) \<Longrightarrow> saw_forget_channel (mon_state m') = saw_forget_channel (mon_state m)"
  "on_push pp event m = Ok m' \<Longrightarrow> saw_forget_channel (mon_state m') = saw_forget_channel (mon_state m)"
  by (auto simp: on_add_block_def on_remove_block_def on_add_streamed_block_end_def on_remove_streamed_block_end_def
      streamed_block_end_def on_push_def push_transactions_def Let_def and_then_eq_Ok dest: block_end_keeps_forget split: if_splits)

interpretation keeping: listener_relation "node_listener ne n" same_forget for ne n
  by unfold_locales
    (auto simp: same_forget_def node_listener_def Let_def and_then_eq_Ok map_result_eq_Ok dest: monitor_keeps_forget)

lemma related_monitors:
  assumes "related R ls ls'" "x' \<in> set ls'"
  shows "\<exists>x \<in> set ls. R (fst (snd x)) (fst (snd x'))"
  using assms unfolding related_def by (induction rule: list_all2_induct) auto

section \<open>Quiet changes\<close>

lemma quiet_monitors:
  assumes "channel_ids n' = channel_ids n" "slots n' = slots n" "next_slot n' = next_slot n" "mark n' = mark n"
    and "\<And>l'. l' \<in> monitors n' \<Longrightarrow> (\<exists>l \<in> monitors n. same_forget l l')
      \<or> fst l' < next_slot n \<and> \<not> saw_forget_channel (mon_state (snd l'))"
  shows "quiet n n'"
proof -
  have "fst l' \<in> owners n \<union> {..<next_slot n}" if "l' \<in> monitors n'" for l'
    using assms(5) [OF that] by (auto simp: owners_def same_forget_def intro: rev_image_eqI)
  moreover have "fst l' \<in> forgotten n" if "l' \<in> monitors n'" "saw_forget_channel (mon_state (snd l'))" for l'
    using assms(5) [OF that(1)] that(2) by (auto simp: forgotten_def same_forget_def intro: rev_image_eqI)
  ultimately have "owners n' \<subseteq> owners n \<union> {..<next_slot n}" "forgotten n' \<subseteq> forgotten n"
    by (auto simp: owners_def [of n'] forgotten_def [of n'])
  with assms(1-4) show ?thesis by (simp add: quiet_def)
qed

lemma same_forget_refl [simp]: "same_forget l l"
  by (simp add: same_forget_def)

lemma quiet_subset:
  assumes "channel_ids n' = channel_ids n" "slots n' = slots n" "next_slot n' = next_slot n" "mark n' = mark n"
    and "monitors n' \<subseteq> monitors n \<union> L" "\<And>l. l \<in> L \<Longrightarrow> fst l < next_slot n \<and> \<not> saw_forget_channel (mon_state (snd l))"
  shows "quiet n n'"
  by (rule quiet_monitors [OF assms(1-4)]) (use assms(5,6) same_forget_refl in blast)

lemma related_quiet:
  assumes "related same_forget (listeners (node_tracker n)) (listeners t)"
  shows "quiet n (n\<lparr>node_tracker := t\<rparr>)"
proof (rule quiet_monitors)
  fix l' assume "l' \<in> monitors (n\<lparr>node_tracker := t\<rparr>)"
  then consider x where "x \<in> set (listeners t)" "l' = fst (snd x)" | "l' \<in> set (detached n)"
    by (auto simp: monitors_def)
  then have "\<exists>l \<in> monitors n. same_forget l l'"
  proof cases
    case 1
    with related_monitors [OF assms 1(1)] show ?thesis by (auto simp: monitors_def)
  next
    case 2
    then show ?thesis by (intro bexI [of _ l']) (auto simp: monitors_def)
  qed
  then show "(\<exists>l \<in> monitors n. same_forget l l') \<or> fst l' < next_slot n \<and> \<not> saw_forget_channel (mon_state (snd l'))" ..
qed simp_all

lemma set_update_subset: "set (AList.update k v xs) \<subseteq> insert (k, v) (set xs)"
  by (induction xs) auto

lemma set_delete_subset: "set (AList.delete k xs) \<subseteq> set xs"
  by (induction xs) auto

lemma detach_quiet: "quiet n (detach key n)"
proof (cases "map_of (listeners (node_tracker n)) key")
  case (Some x)
  obtain a m slot where x: "x = ((a, m), slot)" by (metis surj_pair)
  have "(key, x) \<in> set (listeners (node_tracker n))" using Some by (rule map_of_SomeD)
  with x have "(a, m) \<in> monitors n" by (force simp: monitors_def)
  moreover have "monitors (detach key n) \<subseteq> insert (a, m) (monitors n)"
    using Some x set_update_subset [of a m "detached n"] set_delete_subset [of key "listeners (node_tracker n)"]
    by (auto simp: detach_def remove_listener_def monitors_def)
  ultimately have "monitors (detach key n) \<subseteq> monitors n" by blast
  then show ?thesis using Some x by (intro quiet_subset [where L = "{}"]) (simp_all add: detach_def)
qed (simp add: detach_def)

lemma monitors_modify: "monitors (modify_monitor a f n) = (\<lambda>(a', m). (a', if a' = a then f m else m)) ` monitors n"
  by (simp add: monitors_def modify_monitor_def image_Un image_image split_beta)

lemma modify_monitor_quiet:
  assumes "\<And>m. saw_forget_channel (mon_state (f m)) = saw_forget_channel (mon_state m)"
  shows "quiet n (modify_monitor a f n)"
proof (rule quiet_monitors)
  fix l' assume "l' \<in> monitors (modify_monitor a f n)"
  then obtain l where l: "l \<in> monitors n" "l' = (\<lambda>(a', m). (a', if a' = a then f m else m)) l"
    unfolding monitors_modify by blast
  then have "same_forget l l'" by (cases l) (simp add: same_forget_def assms)
  with l(1) show "(\<exists>l \<in> monitors n. same_forget l l') \<or> fst l' < next_slot n \<and> \<not> saw_forget_channel (mon_state (snd l'))"
    by blast
qed (simp_all add: modify_monitor_def)

lemma watch_funding_quiet:
  assumes "a < next_slot n" "\<not> saw_forget_channel (mon_state m)"
  shows "quiet n (watch_funding ne a m n)"
proof -
  let ?n = "detach (mon_funding_outpoint m) n"
  have "monitors (watch_funding ne a m n) \<subseteq> insert (a, m) (monitors ?n)"
    by (auto simp: watch_funding_def Let_def add_listener_def monitors_def node_listener_def
        dest!: subsetD [OF set_update_subset] subsetD [OF set_delete_subset])
  moreover have "next_slot ?n = next_slot n" using detach_quiet [of n "mon_funding_outpoint m"] by (simp add: quiet_def)
  ultimately have "quiet ?n (watch_funding ne a m n)"
    using assms by (intro quiet_subset [where L = "{(a, m)}"]) (auto simp: watch_funding_def Let_def)
  with detach_quiet show ?thesis by (rule quiet_trans)
qed

section \<open>The high-water mark\<close>

lemma payments_keep_mark:
  "apply_payments ns c inc out delta v info = (Ok ns' :: (_, 'e) result) \<Longrightarrow> dbid_high_water_mark ns' = dbid_high_water_mark ns"
  "htlc_fulfilled h ns pre v = (Ok (ns', b) :: (_, 'e) result) \<Longrightarrow> dbid_high_water_mark ns' = dbid_high_water_mark ns"
  "heartbeat_prune ns now = (Ok (ns', b) :: (_, 'e) result) \<Longrightarrow> dbid_high_water_mark ns' = dbid_high_water_mark ns"
  by (auto simp: apply_payments_def htlc_fulfilled_def heartbeat_prune_def prune_invoices_def prune_issued_invoices_def
      prune_forwarded_payments_def Let_def result_simps split: if_splits option.splits prod.splits)

lemma fulfilled_keeps_mark:
  "htlcs_fulfilled h ns pres v = (Ok ns' :: (_, 'e) result) \<Longrightarrow> dbid_high_water_mark ns' = dbid_high_water_mark ns"
  by (induction pres arbitrary: ns) (auto simp: result_simps dest: payments_keep_mark(2) split: prod.splits)

lemma add_payment_keeps_mark:
  "add_payment ns max_inv now hash ps = Ok (ns', b) \<Longrightarrow> dbid_high_water_mark ns' = dbid_high_water_mark ns"
  by (auto simp: add_payment_def Let_def result_simps split: if_splits option.splits prod.splits)

lemma added_keep_mark:
  "add_invoice v ns now invoice = Ok (ns', b) \<Longrightarrow> dbid_high_water_mark ns' = dbid_high_water_mark ns"
  "add_keysend v ns now key hash amount = Ok (ns', b) \<Longrightarrow> dbid_high_water_mark ns' = dbid_high_water_mark ns"
  by (auto simp: add_invoice_def add_keysend_def Let_def result_simps dest: add_payment_keeps_mark split: prod.splits)

text \<open>The requests of a channel keep the mark, whatever their outcome.\<close>

definition keeps_mark :: "u64 \<Rightarrow> (ChanWorld, 'a, Status) outcome \<Rightarrow> bool" where
  "keeps_mark k out \<longleftrightarrow> dbid_high_water_mark (snd (snd out)) = k"

lemma keeps_mark_simps [simp]:
  "keeps_mark k (r, ch, ns) \<longleftrightarrow> dbid_high_water_mark ns = k"
  "keeps_mark k (map_prod f id out) = keeps_mark k out"
  by (simp_all add: keeps_mark_def)

lemma keeps_mark_attempt:
  "\<lbrakk>dbid_high_water_mark (snd w) = k; \<And>x. r = Ok x \<Longrightarrow> keeps_mark k (f x)\<rbrakk> \<Longrightarrow> keeps_mark k (attempt r w f)"
  by (cases r; cases w) auto

lemma keeps_mark_attempt_op:
  "\<lbrakk>keeps_mark k out; \<And>x w. dbid_high_water_mark (snd w) = k \<Longrightarrow> keeps_mark k (f x w)\<rbrakk> \<Longrightarrow> keeps_mark k (attempt_op out f)"
  by (cases out; cases "fst out") auto

lemma tails_keep_mark:
  "dbid_high_water_mark (snd w) = k \<Longrightarrow> keeps_mark k (advance_counterparty_state env view n point info2 inc out delta w)"
  "dbid_high_water_mark (snd w) = k \<Longrightarrow> keeps_mark k (store_holder_commitment env view b n info2 sigs w)"
  "dbid_high_water_mark (snd w) = k \<Longrightarrow> keeps_mark k (advance_holder_commitment_state env n info2 sigs w)"
  "dbid_high_water_mark (snd w) = k \<Longrightarrow> keeps_mark k (mark_closed env sig w)"
  unfolding advance_counterparty_state_def store_holder_commitment_def advance_holder_commitment_state_def mark_closed_def Let_def split_beta
  by (intro keeps_mark_attempt; simp add: payments_keep_mark)+

lemmas keeps_mark_intros = keeps_mark_attempt keeps_mark_attempt_op tails_keep_mark

lemma serve_keeps_mark: "keeps_mark (dbid_high_water_mark (snd w)) (serve env req w)"
  by (cases req; cases w;
      simp add: sign_counterparty_commitment_tx_phase2_def sign_counterparty_commitment_tx_def
        validate_holder_commitment_tx_phase2_def validate_holder_commitment_tx_phase1_def
        revoke_previous_holder_commitment_def activate_initial_commitment_def validate_revocation_def
        sign_holder_commitment_tx_phase2_def sign_mutual_close_tx_phase2_def sign_mutual_close_tx_def
        confirm_funding_locked_def channel_htlcs_fulfilled_def Let_def;
      (auto intro!: keeps_mark_intros simp: Let_def payments_keep_mark fulfilled_keeps_mark split: option.splits prod.splits if_splits)?)

section \<open>Quiet requests\<close>

lemma quiet_attempt:
  "\<lbrakk>quiet n s; \<And>x. r = Ok x \<Longrightarrow> quiet n (snd (k x))\<rbrakk> \<Longrightarrow> quiet n (snd (attempt r s k))"
  by (cases r) auto

lemma quiet_attempt_op:
  "\<lbrakk>quiet n (snd out); \<And>x s. quiet n s \<Longrightarrow> quiet n (snd (k x s))\<rbrakk> \<Longrightarrow> quiet n (snd (attempt_op out k))"
  by (cases out; cases "fst out") auto

lemma quiet_attempt_pair:
  "\<lbrakk>quiet n (snd s); \<And>x. r = Ok x \<Longrightarrow> quiet n (snd (snd (k x)))\<rbrakk> \<Longrightarrow> quiet n (snd (snd (attempt r s k)))"
  by (cases r) auto

lemma quiet_attempt_op_pair:
  "\<lbrakk>quiet n (snd (snd out)); \<And>x s. quiet n (snd s) \<Longrightarrow> quiet n (snd (snd (k x s)))\<rbrakk> \<Longrightarrow> quiet n (snd (snd (attempt_op out k)))"
  by (cases out; cases "fst out") auto

lemma on_node_quiet: "(\<And>n. quiet n (snd (f n))) \<Longrightarrow> quiet n (snd w) \<Longrightarrow> quiet n (snd (snd (on_node f w)))"
  by (cases w) (auto simp: on_node_def intro: quiet_trans)

lemma node_add_payment_quiet:
  assumes "\<And>ns b. add (node_state n) = Ok (ns, b) \<Longrightarrow> dbid_high_water_mark ns = mark n"
  shows "quiet n (snd (node_add_payment ne add n))"
  unfolding node_add_payment_def Let_def split_beta
  by (intro quiet_attempt) (auto intro!: quiet_state intro: assms)

lemma adding_quiet:
  "quiet n (snd (node_add_payment ne (\<lambda>ns. add_invoice v ns now invoice) n))"
  "quiet n (snd (node_add_payment ne (\<lambda>ns. add_keysend v ns now key hash amount) n))"
  by (rule node_add_payment_quiet, erule added_keep_mark)+

lemma proposed_payments_quiet:
  "quiet n (snd (snd (handle_proposed_invoice ne ap now invoice (s, n))))"
  "quiet n (snd (snd (handle_proposed_keysend ne ap now key hash amount (s, n))))"
  unfolding handle_proposed_invoice_def handle_proposed_keysend_def Let_def split_beta
  by (auto intro!: quiet_attempt_pair on_node_quiet adding_quiet split: prod.splits)

lemma check_onchain_quiet: "quiet n (snd (check_onchain_tx ne sk now tx flags prevs ucks opaths n))"
  unfolding check_onchain_tx_def Let_def split_beta by (intro quiet_attempt) auto

lemma proposed_onchain_quiet: "quiet n (snd (snd (handle_proposed_onchain ne sk ap now tx flags prevs ucks opaths (s, n))))"
  using check_onchain_quiet [of n ne sk now tx flags prevs ucks opaths]
  by (auto simp: handle_proposed_onchain_def intro!: quiet_attempt_pair
      split: prod.splits result.splits ValidationErrorKind.splits)

lemma listener_watches_quiet:
  assumes "add_listener_watches key ws (node_tracker n) = Ok t"
  shows "quiet n (n\<lparr>node_tracker := t\<rparr>)"
proof -
  obtain l slot where l: "map_of (listeners (node_tracker n)) key = Some (l, slot)"
    "t = (node_tracker n)\<lparr>listeners := AList.update key (l, slot\<lparr>watches := watches slot \<union> ws\<rparr>) (listeners (node_tracker n))\<rparr>"
    using assms by (auto simp: add_listener_watches_def result_simps)
  have "l \<in> (\<lambda>x. fst (snd x)) ` set (listeners (node_tracker n))" using map_of_SomeD [OF l(1)] by force
  then have "monitors (n\<lparr>node_tracker := t\<rparr>) \<subseteq> monitors n"
    by (auto simp: l(2) monitors_def dest!: subsetD [OF set_update_subset] intro: rev_image_eqI)
  then show ?thesis by (intro quiet_subset [where L = "{}"]) simp_all
qed

lemma watch_inputs_quiet: "quiet n (snd (watch_inputs ne tx channels n))"
proof (induction ne tx channels n rule: watch_inputs.induct)
  case (3 ne tx a channels n)
  have step: "quiet n (modify_monitor a (add_funding_inputs tx) (n\<lparr>node_tracker := t\<rparr>))"
    if "add_listener_watches key ws (node_tracker n) = Ok t" for key ws t
    using listener_watches_quiet [OF that] modify_monitor_quiet [of "add_funding_inputs tx"]
    by (rule quiet_trans) (simp add: add_funding_inputs_def)
  show ?case
  proof (cases "slot_at n a")
    case (Some slot)
    then show ?thesis
      by (cases slot) (auto intro!: quiet_attempt intro: step quiet_trans [OF step 3] simp: Let_def)
  qed simp
qed simp_all

lemma sign_withdrawal_quiet:
  "quiet n (snd (snd (sign_withdrawal ne sk ol ap now tx flags ipaths prevs ucks opaths (s, n))))"
proof -
  have "quiet n (snd (unchecked_sign_onchain_tx ne sk ol tx ipaths prevs ucks n))" for n
    unfolding unchecked_sign_onchain_tx_def by (intro quiet_attempt quiet_attempt_op watch_inputs_quiet) auto
  then show ?thesis
    unfolding sign_withdrawal_def by (intro quiet_attempt_op_pair quiet_attempt_pair proposed_onchain_quiet on_node_quiet)
qed

lemma chain_quiet:
  "\<lbrakk>node_add_block ne header p n = (r, n'); r \<noteq> Panic\<rbrakk> \<Longrightarrow> quiet n n'"
  "\<lbrakk>node_remove_block ne p prev n = (r', n'); r' \<noteq> Panic\<rbrakk> \<Longrightarrow> quiet n n'"
  "\<lbrakk>node_block_chunk ne hash offset chunk n = (r', n'); r' \<noteq> Panic\<rbrakk> \<Longrightarrow> quiet n n'"
  by (auto simp: node_add_block_def node_remove_block_def node_block_chunk_def split: prod.splits
      intro!: related_quiet intro: keeping.handle_add_block_related keeping.handle_remove_block_related
      keeping.handle_block_chunk_related)

end
