(* ===== verification/NodeLife.thy ===== *)
theory NodeLife
  imports NodeRun
begin

text \<open>
  What the requests of a node do to one channel: every request moves it along the life cycle from creation
  over setup to pruning, and only a request on the channel itself changes its commitments. The identifier of
  a channel that was pruned is retired: the high-water mark keeps it from being used again.
\<close>

section \<open>Changes of the registry\<close>

lemma map_of_ordered_insert: "map_of (ordered_insert k v m) = (map_of m)(k \<mapsto> v)"
  by (induction k v m rule: ordered_insert.induct) auto

lemma fst_ordered_insert: "set (map fst (ordered_insert k v m)) = insert k (set (map fst m))"
  by (induction k v m rule: ordered_insert.induct) auto

lemma set_ordered_insert: "set (ordered_insert k v m) \<subseteq> insert (k, v) (set m)"
  by (induction k v m rule: ordered_insert.induct) auto

lemma sorted_ordered_insert:
  "sorted_wrt (<) (map fst m) \<Longrightarrow> sorted_wrt (<) (map fst (ordered_insert k v m))"
proof (induction k v m rule: ordered_insert.induct)
  case (2 k v k' v' m)
  then show ?case by (auto simp: fst_ordered_insert simp del: set_map)
qed simp

lemma distinct_ordered_insert:
  "\<lbrakk>distinct (map snd m); v \<notin> snd ` set m\<rbrakk> \<Longrightarrow> distinct (map snd (ordered_insert k v m))"
proof (induction k v m rule: ordered_insert.induct)
  case (2 k v k' v' m)
  then show ?case using set_ordered_insert [of k v m] by (auto simp: image_iff)
qed simp

definition enrol :: "ChannelId \<Rightarrow> ChannelSlot \<Rightarrow> 'd Node \<Rightarrow> 'd Node" where
  "enrol i slot n = set_slot (next_slot n) slot
     (n\<lparr>channel_ids := ordered_insert i (next_slot n) (channel_ids n), next_slot := next_slot n + 1\<rparr>)"

lemma registered_address: "\<lbrakk>registry_ok n; map_of (channel_ids n) i = Some a\<rbrakk> \<Longrightarrow> a < next_slot n"
  by (auto simp: registry_ok_def dest: map_of_SomeD)

lemma registered_unique:
  assumes "registry_ok n" "map_of (channel_ids n) i = Some a" "map_of (channel_ids n) j = Some a"
  shows "i = j"
proof -
  have "inj_on snd (set (channel_ids n))" using assms(1) by (simp add: registry_ok_def distinct_map)
  from inj_onD [OF this _ map_of_SomeD [OF assms(2)] map_of_SomeD [OF assms(3)]] show ?thesis by simp
qed

lemma registered_iff: "registry_ok n \<Longrightarrow> (i, a) \<in> set (channel_ids n) \<longleftrightarrow> map_of (channel_ids n) i = Some a"
  by (auto simp: registry_ok_def strict_sorted_iff dest: map_of_SomeD)

lemma forgotten_owner: "registry_ok n \<Longrightarrow> a \<in> forgotten n \<Longrightarrow> a < next_slot n"
  by (auto simp: registry_ok_def forgotten_def owners_def)

lemma enrol_life:
  assumes "registry_ok n"
  shows "life (enrol i slot n) j = (if j = i then slot_life (Some slot) else life n j)"
  using registered_address [OF assms]
  by (auto simp: life_def enrol_def set_slot_def slot_at_def map_of_ordered_insert update_conv' split: option.splits)

lemma enrol_registry:
  assumes "registry_ok n"
  shows "registry_ok (enrol i slot n)"
proof -
  have "next_slot n \<notin> snd ` set (channel_ids n)" using assms by (auto simp: registry_ok_def)
  moreover have "forgotten (enrol i slot n) = forgotten n" "owners (enrol i slot n) = owners n"
    by (simp_all add: enrol_def set_slot_def forgotten_def owners_def monitors_def)
  moreover have "retired (enrol i slot n) = retired n" by (rule retired_cong) (simp add: enrol_def set_slot_def)
  moreover have "next_slot n \<notin> forgotten n" using forgotten_owner [OF assms] by blast
  ultimately show ?thesis
    using assms unfolding registry_ok_def
    by (auto simp: enrol_def set_slot_def sorted_ordered_insert distinct_ordered_insert dest!: subsetD [OF set_ordered_insert])
qed

definition serve_at :: "nat \<Rightarrow> ChanWorld \<Rightarrow> 'd Node \<Rightarrow> 'd Node" where
  "serve_at a w n = set_slot a (Ready (fst w)) (n\<lparr>node_state := snd w\<rparr>)"

lemma serve_at_life:
  assumes "registry_ok n" "map_of (channel_ids n) i = Some a"
  shows "life (serve_at a w n) j = (if j = i then Live (fst w) else life n j)"
  using assms registered_unique [OF assms(1)]
  by (auto simp: life_def serve_at_def set_slot_def slot_at_def update_conv' split: option.splits)

lemma serve_at_registry:
  assumes "registry_ok n" "dbid_high_water_mark (snd w) = mark n"
  shows "registry_ok (serve_at a w n)"
proof -
  have "forgotten (serve_at a w n) = forgotten n" "owners (serve_at a w n) = owners n"
    by (simp_all add: serve_at_def set_slot_def forgotten_def owners_def monitors_def)
  moreover have "retired (serve_at a w n) = retired n"
    using assms(2) by (intro retired_cong) (simp add: serve_at_def set_slot_def)
  ultimately show ?thesis using assms(1) by (simp add: registry_ok_def serve_at_def set_slot_def)
qed

text \<open>Removing identifiers.\<close>

definition strike :: "ChannelId \<Rightarrow> 'd Node \<Rightarrow> 'd Node" where
  "strike i n = n\<lparr>channel_ids := AList.delete i (channel_ids n)\<rparr>"

lemma strike_life: "life (strike i n) j = (if j = i then Absent else life n j)"
  by (simp add: life_def strike_def slot_at_def delete_conv' split: option.splits)

lemma strike_registry:
  assumes "registry_ok n"
  shows "registry_ok (strike i n)"
proof -
  have "forgotten (strike i n) = forgotten n" "owners (strike i n) = owners n"
    by (simp_all add: strike_def forgotten_def owners_def monitors_def)
  moreover have "retired (strike i n) = retired n" by (rule retired_cong) (simp add: strike_def)
  moreover have "sorted_wrt (<) (map fst (AList.delete i xs))" if "sorted_wrt (<) (map fst xs)" for xs :: "(ChannelId \<times> nat) list"
    using that by (induction xs) (auto simp: AList.delete_eq)
  moreover have "distinct (map snd (AList.delete i xs))" if "distinct (map snd xs)" for xs :: "(ChannelId \<times> nat) list"
    using that by (induction xs) (auto simp: AList.delete_eq)
  ultimately show ?thesis using assms
    by (auto simp: registry_ok_def strike_def dest!: subsetD [OF set_delete_subset])
qed

section \<open>Identifiers\<close>

text \<open>The number an identifier was made from is read back from it.\<close>

lemma ucast_byte: "(ucast (ucast y :: u8) :: u64) = take_bit 8 y" for y :: u64
  by (rule bit_word_eqI) (auto simp: bit_simps)

lemma bytes_number:
  fixes x :: u64
  assumes "k \<le> 8"
  shows "foldr (\<lambda>b acc. acc * 256 + ucast b) (map (\<lambda>i. ucast (drop_bit (8 * i) x) :: u8) [k..<8]) 0 = drop_bit (8 * k) x"
  using assms
proof (induction k rule: inc_induct)
  case base
  have "drop_bit 64 x = 0" by (rule bit_word_eqI) (simp add: bit_simps)
  then show ?case by simp
next
  case (step k)
  let ?y = "drop_bit (8 * k) x"
  have "drop_bit (8 * Suc k) x * 256 + ucast (ucast ?y :: u8) = push_bit 8 (drop_bit 8 ?y) + take_bit 8 ?y"
    by (simp add: ucast_byte push_bit_eq_mult drop_bit_drop_bit add.commute)
  also have "\<dots> = ?y" by (rule bits_ident)
  finally show ?case using step by (simp add: upt_conv_Cons)
qed

lemma oid_roundtrip: "channel_oid (channel_id_from_peer_and_oid peer dbid) = Ok dbid"
  using bytes_number [of 0 dbid] by (simp add: channel_oid_def channel_id_from_peer_and_oid_def)

section \<open>Requests and lives\<close>

definition moves :: "Validator \<Rightarrow> Sha256 \<Rightarrow> 'd Node \<Rightarrow> NodeRequest \<Rightarrow> (NodeReply, Status) result \<Rightarrow> 'd Node \<Rightarrow> bool" where
  "moves v sha n req reply n' \<longleftrightarrow>
     registry_ok n' \<and> mark n \<le> mark n'
     \<and> (\<forall>i. life_step v sha n n' i (observe_on i req reply) (life n i) (life n' i))"

lemma quiet_moves:
  "\<lbrakk>registry_ok n; quiet n n'; \<And>i. observe_on i req reply = []\<rbrakk> \<Longrightarrow> moves v sha n req reply n'"
  by (auto simp: moves_def quiet_registry quiet_life quiet_def intro: life_step.stay)

subsection \<open>Creating and setting up\<close>

lemma new_channel_cases:
  assumes "new_channel ne dbid peer n = (r, n')" "r \<noteq> Panic"
  defines "i \<equiv> channel_id_from_peer_and_oid peer dbid"
  shows "n' = n \<or> (\<exists>stub. n' = enrol i (Stub stub) n) \<and> life n i = Absent \<and> \<not> retired n i"
proof (cases "mark n \<ge> dbid \<or> length (channel_ids n) \<ge> v_max_channels (ne_validator ne) \<or> map_of (channel_ids n) i \<noteq> None")
  case True
  with assms(1) show ?thesis
    unfolding i_def new_channel_def find_or_create_channel_def
    by (cases "mark n \<ge> dbid"; cases "length (channel_ids n) \<ge> v_max_channels (ne_validator ne)")
      (auto simp: err_if_def attempt_def split: result.splits option.splits)
next
  case False
  then have "\<not> retired n i" by (simp add: i_def retired_def oid_roundtrip)
  moreover from False assms(1,2) have "\<exists>stub. n' = enrol i (Stub stub) n"
    unfolding i_def new_channel_def find_or_create_channel_def enrol_def Let_def split_beta
    by (auto simp: err_if_def attempt_def split: result.splits option.splits)
  ultimately show ?thesis using False by (simp add: life_def)
qed

lemma new_channel_moves:
  assumes "registry_ok n" "new_channel ne dbid peer n = (r, n')" "r \<noteq> Panic"
  shows "moves v sha n (NewChannel dbid peer) reply n'"
  using new_channel_cases [OF assms(2,3)]
proof
  assume "n' = n"
  with assms(1) show ?thesis by (auto intro: quiet_moves)
next
  let ?i = "channel_id_from_peer_and_oid peer dbid"
  assume "(\<exists>stub. n' = enrol ?i (Stub stub) n) \<and> life n ?i = Absent \<and> \<not> retired n ?i"
  then obtain stub where n': "n' = enrol ?i (Stub stub) n" "life n ?i = Absent" "\<not> retired n ?i" by blast
  moreover have "mark n' = mark n" by (simp add: n'(1) enrol_def set_slot_def)
  ultimately show ?thesis
    using assms(1) by (auto simp: moves_def enrol_registry enrol_life intro: life_step.stay life_step.create)
qed

lemma setup_stub_cases:
  assumes "setup_stub ne stub i None setup path n = (r, n')"
  shows "n' = n \<or> (\<exists>ch m. n' = watch_funding ne (next_slot n) m (enrol i (Ready ch) n)
    \<and> channel_start (ch, node_state n) \<and> \<not> saw_forget_channel (mon_state m))"
proof -
  let ?out = "funding_outpoint setup" and ?v = "ne_validator ne"
  let ?made = "add_funding_outpoint ?out (monitor_new ?out (tracker_height (node_tracker n)))"
  let ?valid = "to_status (v_validate_setup_channel ?v (node_wallet ne (node_state n)) setup path)"
  have persisted: "snd (persist_setup ne ch n) = n" for ch and n :: "'a Node"
    by (auto simp: persist_setup_def persist_def err_if_def)
  show ?thesis
  proof (cases "\<exists>m held. ?made = Ok m \<and> to_holder_msat setup = Ok held \<and> ?valid = Ok ()")
    case True
    then obtain m held where ok: "?made = Ok m" "to_holder_msat setup = Ok held" "?valid = Ok ()" by blast
    let ?ch = "ready_channel stub i None setup (v_minimum_initial_balance ?v held)"
    have "n' = watch_funding ne (next_slot n) m (enrol i (Ready ?ch) n)"
      using assms ok persisted [of ?ch "watch_funding ne (next_slot n) m (enrol i (Ready ?ch) n)"]
      by (simp add: setup_stub_def Let_def enrol_def)
    moreover have "channel_start (?ch, node_state n)" by (auto simp: channel_start_def ready_channel_def)
    moreover have "\<not> saw_forget_channel (mon_state m)"
      using ok(1) by (auto simp: add_funding_outpoint_def monitor_new_def Let_def result_simps)
    ultimately show ?thesis by blast
  next
    case False
    then have "n' = n"
      using assms unfolding setup_stub_def Let_def
      by (cases ?made; cases "to_holder_msat setup"; cases ?valid) auto
    then show ?thesis ..
  qed
qed

lemma setup_channel_moves:
  assumes ok: "registry_ok n" and out: "setup_channel ne i None setup path n = (r, n')" and "r \<noteq> Panic"
    and allowed: "\<And>ch. life n i = Live ch \<Longrightarrow> chan_setup ch = setup"
  shows "moves v sha n (SetupChannel i setup path) reply n'"
proof (cases "map_of (channel_ids n) i")
  case None
  with out ok show ?thesis by (auto simp: setup_channel_def get_channel_def intro: quiet_moves)
next
  case (Some a)
  then obtain slot where slot: "slot_at n a = Some slot"
    using out assms(3) by (cases "slot_at n a") (auto simp: setup_channel_def get_channel_def)
  show ?thesis
  proof (cases slot)
    case (Ready ch)
    with allowed Some slot have "chan_setup ch = setup" by (simp add: life_def)
    with Ready Some slot out ok show ?thesis
      by (auto simp: setup_channel_def get_channel_def setup_splice_def intro: quiet_moves)
  next
    case (Stub stub)
    with Some slot out have "setup_stub ne stub i None setup path n = (r, n')"
      by (simp add: setup_channel_def get_channel_def)
    from setup_stub_cases [OF this] show ?thesis
    proof (elim disjE exE conjE)
      assume "n' = n"
      with ok show ?thesis by (auto intro: quiet_moves)
    next
      fix ch m
      assume n': "n' = watch_funding ne (next_slot n) m (enrol i (Ready ch) n)" and start: "channel_start (ch, node_state n)"
        and "\<not> saw_forget_channel (mon_state m)"
      then have quiet: "quiet (enrol i (Ready ch) n) n'" by (auto simp: enrol_def set_slot_def intro: watch_funding_quiet)
      have "mark n' = mark n" using quiet by (simp add: quiet_def enrol_def set_slot_def)
      moreover have "life n i = Opening" using Some slot Stub by (simp add: life_def)
      ultimately show ?thesis
        using quiet_registry [OF quiet enrol_registry [OF ok]] start
        by (auto simp: moves_def quiet_life [OF quiet] enrol_life [OF ok] intro: life_step.stay life_step.open_up)
    qed
  qed
qed

subsection \<open>Forgetting\<close>

lemma life_cong: "\<lbrakk>channel_ids n' = channel_ids n; slots n' = slots n\<rbrakk> \<Longrightarrow> life n' = life n"
  by (auto simp: fun_eq_iff life_def slot_at_def split: option.splits)

definition raise_to :: "u64 \<Rightarrow> 'd Node \<Rightarrow> 'd Node" where
  "raise_to oid n = (if oid > mark n then n\<lparr>node_state := (node_state n)\<lparr>dbid_high_water_mark := oid\<rparr>\<rparr> else n)"

lemma raise_to_mark: "mark n \<le> mark (raise_to oid n)" "oid \<le> mark (raise_to oid n)"
  by (auto simp: raise_to_def)

lemma raise_to_simps [simp]:
  "channel_ids (raise_to oid n) = channel_ids n" "slots (raise_to oid n) = slots n" "next_slot (raise_to oid n) = next_slot n"
  "owners (raise_to oid n) = owners n" "forgotten (raise_to oid n) = forgotten n"
  by (auto simp: raise_to_def owners_def forgotten_def monitors_def)

lemma raise_to_life [simp]: "life (raise_to oid n) = life n"
  by (rule life_cong) simp_all

lemma raise_to_registry: "registry_ok n \<Longrightarrow> registry_ok (raise_to oid n)"
  by (auto 0 3 simp: registry_ok_def intro: retired_mono [OF _ raise_to_mark(1)])

lemma forget_stub:
  assumes "forget_channel ne i n = (Ok (), n')" "map_of (channel_ids n) i = Some a" "slot_at n a = Some (Stub stub)"
  shows "\<exists>oid. n' = strike i (raise_to oid n)"
  using assms
  by (auto simp: forget_channel_def Let_def attempt_Ok_iff attempt_op_Ok_iff strike_def raise_to_def result_simps
      split: if_splits)

lemma forget_ready:
  assumes "forget_channel ne i n = (Ok (), n')" "map_of (channel_ids n) i = Some a" "slot_at n a = Some (Ready ch)"
  shows "\<exists>oid. channel_oid i = (Ok oid :: (u64, Status) result) \<and> n' = raise_to oid (modify_monitor a monitor_forget_channel n)"
  using assms
  by (auto simp: forget_channel_def Let_def attempt_Ok_iff attempt_op_Ok_iff raise_to_def result_simps split: if_splits)

lemma forget_registry:
  assumes ok: "registry_ok n" and a: "map_of (channel_ids n) i = Some a" and oid: "channel_oid i = (Ok oid :: (u64, Status) result)"
  shows "registry_ok (raise_to oid (modify_monitor a monitor_forget_channel n))" (is "registry_ok ?n")
proof -
  have same: "channel_ids ?n = channel_ids n" "next_slot ?n = next_slot n" by (simp_all add: modify_monitor_def)
  have mono: "mark n \<le> mark ?n" using raise_to_mark(1) [of "modify_monitor a monitor_forget_channel n" oid]
    by (simp add: modify_monitor_def)
  have "owners ?n = owners n" by (simp add: owners_def [of "modify_monitor _ _ _"] owners_def [of n] monitors_modify image_image split_beta)
  moreover have "forgotten ?n \<subseteq> insert a (forgotten n)"
    by (auto simp: forgotten_def [of "modify_monitor _ _ _"] forgotten_def [of n] monitors_modify split: if_splits
        intro: rev_image_eqI)
  moreover have "retired ?n j" if "(j, b) \<in> set (channel_ids n)" "b \<in> forgotten ?n" for j b
  proof (cases "b = a")
    case True
    then have "j = i" using that(1) registered_unique [OF ok a] by (simp add: registered_iff [OF ok])
    then show ?thesis using oid raise_to_mark(2) by (simp add: retired_def)
  next
    case False
    with \<open>forgotten ?n \<subseteq> insert a (forgotten n)\<close> that(2) have "b \<in> forgotten n" by blast
    with ok that(1) have "retired n j" by (auto simp: registry_ok_def)
    then show ?thesis using mono by (rule retired_mono)
  qed
  ultimately show ?thesis using ok unfolding registry_ok_def same by auto
qed

lemma forget_channel_moves:
  assumes ok: "registry_ok n" and out: "forget_channel ne i n = (Ok (), n')"
  shows "moves v sha n (ForgetChannel i) reply n'"
proof (cases "map_of (channel_ids n) i")
  case None
  with out ok show ?thesis by (auto simp: forget_channel_def intro: quiet_moves)
next
  case (Some a)
  then obtain slot where slot: "slot_at n a = Some slot"
    using out by (cases "slot_at n a") (auto simp: forget_channel_def)
  show ?thesis
  proof (cases slot)
    case (Stub stub)
    then obtain oid where n': "n' = strike i (raise_to oid n)" using forget_stub [OF out Some] slot by blast
    have "mark n \<le> mark n'" using raise_to_mark(1) [of n oid] by (simp add: n' strike_def)
    moreover have "life n i = Opening" using Some slot Stub by (simp add: life_def)
    ultimately show ?thesis
      using strike_registry [OF raise_to_registry [OF ok]]
      by (auto simp: moves_def n' strike_life intro: life_step.stay life_step.drop)
  next
    case (Ready ch)
    then obtain oid where oid: "channel_oid i = (Ok oid :: (u64, Status) result)"
      and n': "n' = raise_to oid (modify_monitor a monitor_forget_channel n)"
      using forget_ready [OF out Some] slot by blast
    have "mark n \<le> mark n'" using raise_to_mark(1) [of "modify_monitor a monitor_forget_channel n" oid]
      by (simp add: n' modify_monitor_def)
    moreover have "life n' = life n" by (rule life_cong) (simp_all add: n' modify_monitor_def)
    ultimately show ?thesis
      using forget_registry [OF ok Some oid] by (auto simp: moves_def n' intro: life_step.stay)
  qed
qed

subsection \<open>Using a channel\<close>

lemma with_channel_cases:
  assumes "with_channel ne i f n = (r, n')" "r \<noteq> Panic"
  shows "n' = n \<and> (\<exists>e. r = Err e) \<or> (\<exists>a ch m w. map_of (channel_ids n) i = Some a \<and> slot_at n a = Some (Ready ch)
    \<and> f (channel_env ne n m) (ch, node_state n) = (r, w) \<and> n' = serve_at a w n)"
proof (cases "map_of (channel_ids n) i")
  case None
  with assms show ?thesis by (auto simp: with_channel_def get_channel_def)
next
  case (Some a)
  then obtain slot where slot: "slot_at n a = Some slot"
    using assms by (cases "slot_at n a") (auto simp: with_channel_def get_channel_def)
  show ?thesis
  proof (cases slot)
    case (Stub stub)
    with assms Some slot show ?thesis by (auto simp: with_channel_def get_channel_def)
  next
    case (Ready ch)
    then obtain m where "monitor_of n a = Some m"
      using assms Some slot by (cases "monitor_of n a") (auto simp: with_channel_def get_channel_def)
    with assms Some slot Ready have "f (channel_env ne n m) (ch, node_state n) = (r, snd (f (channel_env ne n m) (ch, node_state n)))"
      "n' = serve_at a (snd (f (channel_env ne n m) (ch, node_state n))) n"
      by (auto simp: with_channel_def get_channel_def serve_at_def split_beta)
    with Some slot Ready show ?thesis by blast
  qed
qed

lemma on_channel_moves:
  assumes ok: "registry_ok n" and out: "with_channel ne i (\<lambda>env. serve env req) n = (r, n')" "r \<noteq> Panic"
    and env: "ne_validator ne = v" "ne_sha ne = sha" and req: "req \<noteq> RevokePrevious (- 1)"
    and seen: "\<And>j. observe_on j nreq reply = (if j = i then observe req r else [])"
  shows "moves v sha n nreq reply n'"
  using with_channel_cases [OF out]
proof (elim disjE exE conjE)
  fix e assume "n' = n" "r = Err e"
  with ok seen show ?thesis by (auto intro: quiet_moves)
next
  fix a ch m w
  assume a: "map_of (channel_ids n) i = Some a" "slot_at n a = Some (Ready ch)"
    and served: "serve (channel_env ne n m) req (ch, node_state n) = (r, w)" and n': "n' = serve_at a w n"
  have kept: "dbid_high_water_mark (snd w) = mark n"
    using serve_keeps_mark [of "(ch, node_state n)" "channel_env ne n m" req] served by (simp add: keeps_mark_def)
  have act: "channel_act v sha (channel_env ne n m, req, r) (ch, node_state n) (fst w, snd w)"
    using env served out(2) req by (simp add: channel_act_def channel_env_def)
  have "life n i = Live ch" using a by (simp add: life_def)
  with act have "life_step v sha n n' i (observe req r) (life n i) (Live (fst w))"
    by (simp only: life_step.work)
  moreover have "mark n' = mark n" using kept by (simp add: n' serve_at_def set_slot_def)
  ultimately show ?thesis
    using serve_at_registry [OF ok kept] by (auto simp: moves_def n' seen serve_at_life [OF ok a(1)] intro: life_step.stay)
qed

subsection \<open>Pruning\<close>

lemma prune_keys_life:
  assumes "prune_keys ne keys n = (r, n')" "r \<noteq> Panic" "registry_ok n"
  shows "registry_ok n' \<and> mark n' = mark n \<and> (\<forall>j. life n' j = (if j \<in> fst ` set keys then Absent else life n j))"
  using assms
proof (induction keys arbitrary: n)
  case (Cons entry keys)
  obtain key a where entry: "entry = (key, a)" by force
  let ?n = "case slot_at n a of Some (Ready ch) \<Rightarrow> detach (funding_outpoint (chan_setup ch)) (strike key n) | _ \<Rightarrow> strike key n"
  have quiet: "quiet (strike key n) ?n"
    by (auto intro: detach_quiet split: option.splits ChannelSlot.splits)
  have "prune_keys ne keys ?n = (r, n')"
    using Cons.prems(1,2) unfolding strike_def entry
    by (simp add: Let_def persist_or_panic_def assert_that_def split: if_splits)
  then have "registry_ok n' \<and> mark n' = mark ?n \<and> (\<forall>j. life n' j = (if j \<in> fst ` set keys then Absent else life ?n j))"
    using Cons.prems(2,3) by (intro Cons.IH quiet_registry [OF quiet strike_registry])
  moreover have "mark ?n = mark n" using quiet by (simp add: quiet_def strike_def)
  ultimately show ?case by (auto simp: entry quiet_life [OF quiet] strike_life)
qed simp

lemma done_forgotten: "is_done s \<Longrightarrow> saw_forget_channel s"
  by (auto simp: is_done_def deep_enough_and_saw_node_forget_def)

lemma monitor_of_monitors: "monitor_of n a = Some m \<Longrightarrow> (a, m) \<in> monitors n"
  by (auto simp: monitor_of_def listener_of_def monitors_def split: option.splits list.splits
      dest!: map_of_SomeD filter_eq_ConsD intro: rev_image_eqI)

lemma pruned_retired:
  assumes "registry_ok n" "(j, a) \<in> set (channel_ids n)" "prunable n a" "life n j = Live ch"
  shows "retired n j"
proof -
  have "slot_at n a = Some (Ready ch)"
    using assms(1,2,4) by (cases "slot_at n a" rule: slot_life.cases) (auto simp: life_def registered_iff)
  then obtain m where "monitor_of n a = Some m" "is_done (mon_state m)"
    using assms(3) by (auto simp: prunable_def split: option.splits)
  then have "a \<in> forgotten n"
    using monitor_of_monitors done_forgotten by (force simp: forgotten_def)
  with assms(1,2) show ?thesis by (auto simp: registry_ok_def)
qed

lemma prune_channels_moves:
  assumes ok: "registry_ok n" and out: "prune_channels ne n = (r, n')" "r \<noteq> Panic"
    and seen: "\<And>j. observe_on j req reply = []"
  shows "moves v sha n req reply n'"
proof -
  let ?keys = "filter (\<lambda>(_, a). prunable n a) (channel_ids n)"
  obtain r0 n0 where run: "prune_keys ne ?keys n = (r0, n0)" by force
  with out have "r0 \<noteq> Panic" and "n' = n0"
    by (auto simp: prune_channels_def Let_def attempt_op_def attempt_def split: result.splits if_splits)
  with prune_keys_life [OF run _ ok] have n': "registry_ok n'" "mark n' = mark n"
    "\<And>j. life n' j = (if j \<in> fst ` set ?keys then Absent else life n j)" by auto
  have "life_step v sha n n' j [] (life n j) (life n' j)" for j
  proof (cases "j \<in> fst ` set ?keys")
    case True
    then obtain a where a: "(j, a) \<in> set (channel_ids n)" "prunable n a" by auto
    then have "life n j \<noteq> Absent" using registered_iff [OF ok] by (cases "slot_at n a" rule: slot_life.cases) (auto simp: life_def)
    then show ?thesis
      using True pruned_retired [OF ok a] retired_cong [OF n'(2)]
      by (cases "life n j") (auto simp: n'(3) intro: life_step.drop life_step.prune)
  qed (simp add: n'(3) life_step.stay)
  with n'(1,2) show ?thesis by (simp add: moves_def seen)
qed

lemma moves_after_quiet:
  assumes quiet: "quiet n m" and "moves v sha m req reply n'"
  shows "moves v sha n req reply n'"
proof -
  have mark: "mark m = mark n" using quiet by (simp add: quiet_def)
  have "life_step v sha n n' i obs l l'" if "life_step v sha m n' i obs l l'" for i obs l l'
    using that retired_cong [OF mark] by (cases rule: life_step.cases) (auto intro: life_step.intros)
  with assms(2) show ?thesis by (auto simp: moves_def mark quiet_life [OF quiet])
qed

lemma heartbeat_moves:
  assumes ok: "registry_ok n" and out: "get_heartbeat ne now n = (r, n')" "r \<noteq> Panic"
  shows "moves v sha n (GetHeartbeat now) reply n'"
proof (cases "heartbeat_prune (node_state n) now :: (NodeState \<times> bool, Status) result")
  case (Ok x)
  obtain ns b where x: "x = (ns, b)" by force
  let ?n = "n\<lparr>node_state := ns\<rparr>"
  have quiet: "quiet n ?n" using payments_keep_mark(3) Ok x by blast
  consider "n' = ?n" | r0 where "prune_channels ne ?n = (r0, n')" "r0 \<noteq> Panic"
    using out Ok x unfolding get_heartbeat_def Let_def
    by (auto simp: attempt_def attempt_op_def split: result.splits if_splits prod.splits)
  then show ?thesis
  proof cases
    case 1
    with quiet ok show ?thesis by (auto intro: quiet_moves)
  next
    case 2
    have "moves v sha ?n (GetHeartbeat now) reply n'"
      by (rule prune_channels_moves [OF quiet_registry [OF quiet ok] 2]) simp
    with quiet show ?thesis by (rule moves_after_quiet)
  qed
qed (use ok out in \<open>auto simp: get_heartbeat_def intro: quiet_moves\<close>)

subsection \<open>Every request\<close>

lemma map_reply_Panic: "map_prod (map_reply f) g out = (reply, n') \<Longrightarrow> reply \<noteq> Panic \<Longrightarrow> \<exists>r s. out = (r, s) \<and> r \<noteq> Panic \<and> n' = g s \<and> reply = map_reply f r"
  by (cases out; cases "fst out") auto

fun off_channel :: "NodeRequest \<Rightarrow> bool" where
  "off_channel (PreapproveInvoice _ _ _) = True"
| "off_channel (PreapproveKeysend _ _ _ _ _) = True"
| "off_channel (SignWithdrawal _ _ _ _ _ _ _ _ _ _) = True"
| "off_channel (Chain _) = True"
| "off_channel _ = False"

lemma off_channel_quiet:
  assumes "node_serve ne req n = (reply, n')" "reply \<noteq> Panic" "off_channel req"
  shows "quiet n n'"
proof (cases req)
  case (PreapproveInvoice ap now invoice)
  then have "n' = snd (snd (handle_proposed_invoice ne ap now invoice ((), n)))" using assms(1) by (auto simp: map_prod_def split_beta)
  then show ?thesis by (simp add: proposed_payments_quiet)
next
  case (PreapproveKeysend ap now key hash amount)
  then have "n' = snd (snd (handle_proposed_keysend ne ap now key hash amount ((), n)))" using assms(1) by (auto simp: map_prod_def split_beta)
  then show ?thesis by (simp add: proposed_payments_quiet)
next
  case (SignWithdrawal sk ol ap now tx flags ipaths prevs ucks opaths)
  then have "n' = snd (snd (sign_withdrawal ne sk ol ap now tx flags ipaths prevs ucks opaths ((), n)))"
    using assms(1) by (auto simp: map_prod_def split_beta)
  then show ?thesis by (simp add: sign_withdrawal_quiet)
next
  case (Chain msg)
  then show ?thesis using assms(1,2) by (cases msg) (auto dest!: map_reply_Panic intro: chain_quiet)
qed (use assms(3) in auto)

text \<open>A lock is a request on the channel; for a stub it does nothing.\<close>

lemma with_channel_map:
  assumes "\<And>env w. g env w = map_prod (map_reply f) id (h env w)"
  shows "with_channel ne i g n = map_prod (map_reply f) id (with_channel ne i h n)"
  by (auto simp: with_channel_def attempt_def assms split_beta Let_def split: result.splits ChannelSlot.splits)

lemma lock_funding_moves:
  assumes ok: "registry_ok n" and out: "confirm_funding_lock ne i p n = (r, n')" "r \<noteq> Panic"
    and env: "ne_validator ne = v" "ne_sha ne = sha"
  shows "moves v sha n (LockFundingOf i p) reply n'"
proof -
  have "n' = n \<or> with_channel ne i (\<lambda>env. confirm_funding_locked env p) n = (r, n')"
    using out by (auto simp: confirm_funding_lock_def attempt_def split: result.splits ChannelSlot.splits)
  then show ?thesis
  proof
    assume "n' = n"
    with ok show ?thesis by (auto intro: quiet_moves)
  next
    assume "with_channel ne i (\<lambda>env. confirm_funding_locked env p) n = (r, n')"
    then have "with_channel ne i (\<lambda>env. serve env (LockFunding p)) n = (map_reply (\<lambda>_. Done) r, n')"
      by (simp add: with_channel_map [where f = "\<lambda>_. Done" and h = "\<lambda>env. confirm_funding_locked env p"])
    moreover have "map_reply (\<lambda>_. Done) r \<noteq> Panic" using out(2) by (cases r) auto
    ultimately show ?thesis
      by (rule on_channel_moves [OF ok _ _ env]) auto
  qed
qed

lemma node_act_moves:
  assumes ok: "registry_ok n" and act: "node_act v sha (ne, req, reply) n n'"
  shows "moves v sha n req reply n'"
proof -
  from act have env: "ne_validator ne = v" "ne_sha ne = sha" and out: "node_serve ne req n = (reply, n')" "reply \<noteq> Panic"
    and allowed: "node_allowed req reply n" by (auto simp: node_act_def)
  consider "off_channel req" | "\<not> off_channel req" by blast
  then show ?thesis
  proof cases
    case 1
    then show ?thesis using off_channel_quiet [OF out] ok by (cases req) (auto intro: quiet_moves)
  next
    case 2
    show ?thesis
    proof (cases req)
      case (SetupChannel i new_setup path)
      then have "chan_setup ch = new_setup" if "life n i = Live ch" for ch using allowed that by simp
      with out ok SetupChannel show ?thesis by (auto dest!: map_reply_Panic intro: setup_channel_moves)
    next
      case (ForgetChannel i)
      then obtain r where "forget_channel ne i n = (r, n')" "reply = map_reply (\<lambda>_. Acknowledged) r" "r \<noteq> Panic"
        using out by (auto dest!: map_reply_Panic)
      moreover from this have "r = Ok ()" using allowed ForgetChannel by (cases r) (auto simp: is_ok_def)
      ultimately show ?thesis using ok ForgetChannel by (auto intro: forget_channel_moves)
    next
      case (OnChannel i creq)
      then obtain r where "with_channel ne i (\<lambda>env. serve env creq) n = (r, n')" "reply = map_reply ChannelReply r" "r \<noteq> Panic"
        using out by (auto dest!: map_reply_Panic)
      moreover from this have "observe_on j req reply = (if j = i then observe creq r else [])" for j
        using OnChannel by (cases r) auto
      ultimately show ?thesis using ok env allowed OnChannel by (intro on_channel_moves) auto
    qed (use 2 out ok env in \<open>auto dest!: map_reply_Panic intro: new_channel_moves lock_funding_moves heartbeat_moves\<close>)
  qed
qed

end
