(* ===== verification/OnchainSafety.thy ===== *)
theory OnchainSafety
  imports ChannelSafety TrackerSafety Approver
begin

text \<open>
  What the signature of an on-chain transaction guarantees: every output has a known destination or was
  shown to the approver, the inputs of a funding transaction are under watch, and what an approval lets
  pass unchecked.
\<close>

section \<open>Destinations\<close>

text \<open>Every output is known or listed among the unknown ones.\<close>

lemma outputs_known_or_listed:
  assumes "validate_onchain_outputs lib p w i outs opaths views (bsum, us) = Ok (bsum', us')" "strict p"
  shows "set us \<subseteq> set us' \<and> (\<forall>k<length outs. known_output lib w (outs ! k) (opaths ! k) (views ! k) \<or> i + k \<in> set us')"
  using assms(1)
proof (induction outs arbitrary: i opaths views bsum us)
  case (Cons out outs)
  then obtain opath opaths' slot views' where ps: "opaths = opath # opaths'" "views = slot # views'"
    by (cases opaths; cases views) auto
  with Cons.prems obtain b u where
    out: "validate_onchain_output lib p w out opath slot bsum = Ok (b, u)" and
    rest: "validate_onchain_outputs lib p w (Suc i) outs opaths' views' (b, if u then us @ [i] else us) = Ok (bsum', us')"
    by (auto simp: result_simps)
  from Cons.IH [OF rest] have listed: "set (if u then us @ [i] else us) \<subseteq> set us'"
    and known: "\<forall>k<length outs. known_output lib w (outs ! k) (opaths' ! k) (views' ! k) \<or> Suc i + k \<in> set us'" by auto
  have "known_output lib w out opath slot \<or> i \<in> set us'"
    using listed validate_onchain_output_known [OF _ assms(2), of lib w out opath slot bsum b] out by (cases u) auto
  with listed known show ?case by (auto simp: ps less_Suc_eq_0_disj split: if_splits)
qed simp

text \<open>An error that does not name the given destinations.\<close>

definition spares :: "nat list \<Rightarrow> 'a checked \<Rightarrow> bool" where
  "spares us r \<longleftrightarrow> (\<forall>ve. r = Err ve \<longrightarrow> ve_kind ve \<noteq> UnknownDestinations us)"

lemma spares_basic [simp, intro]:
  "spares us (Ok x)" "spares us Panic" "spares us (Err (policy_error tag))"
  "spares us (Err (unknown_destinations_error vs)) \<longleftrightarrow> vs \<noteq> us"
  by (simp_all add: spares_def policy_error_def unknown_destinations_error_def)

lemma spares_and_then: "\<lbrakk>spares us r; \<And>x. r = Ok x \<Longrightarrow> spares us (f x)\<rbrakk> \<Longrightarrow> spares us (and_then r f)"
  by (cases r) (auto simp: spares_def)

lemma spares_ok_or [intro]: "spares us (ok_or v (policy_error tag))"
  by (cases v) auto

lemma spares_map_err [intro]: "spares us (map_err (\<lambda>_. policy_error tag) r)"
  by (cases r) auto

lemma spares_policy [intro]:
  "spares us (policy_error_with_filter tag f)" "spares us (policy_err_if f b tag)"
  "spares us (estimate_feerate_per_kw fee weight)" "spares us (assert_that b)"
  by (auto simp: policy_error_with_filter_def policy_err_if_def estimate_feerate_per_kw_def assert_that_def)

lemma spares_checks: "list_all (spares us) cs \<Longrightarrow> spares us (checks cs)"
  by (induction cs) (auto intro: spares_and_then)

lemma output_spares: "spares us (validate_onchain_output lib p w out opath slot bsum)"
  by (auto simp: validate_onchain_output_def wallet_can_spend_def add_beneficial_output_def validate_channel_output_def Let_def
      intro!: spares_and_then spares_checks split: option.splits SlotView.splits prod.splits)

lemma outputs_spares: "spares us (validate_onchain_outputs lib p w i outs opaths views acc)"
  by (induction lib p w i outs opaths views acc rule: validate_onchain_outputs.induct)
    (auto intro!: spares_and_then output_spares)

lemma fee_spares:
  "spares us (and_then (sum_inputs_checked vs start) (\<lambda>ins. validate_beneficial_value p ins bsum weight))"
proof -
  have "spares us (sum_inputs_checked vs start)"
    by (induction vs arbitrary: start) (auto intro!: spares_and_then)
  then show ?thesis
    by (auto simp: validate_beneficial_value_def Let_def intro!: spares_and_then)
qed

text \<open>Unknown destinations are reported with the list of the outputs that were found unknown.\<close>

lemma onchain_tx_names:
  assumes "validate_onchain_tx lib p w channels tx flags vs opaths weight = Err ve" "ve_kind ve = UnknownDestinations us"
  shows "\<exists>bsum. validate_onchain_outputs lib p w 0 (tx_output tx) opaths channels (0, []) = Ok (bsum, us)"
proof (rule ccontr)
  assume none: "\<not> ?thesis"
  have "spares us (validate_onchain_tx lib p w channels tx flags vs opaths weight)"
    unfolding validate_onchain_tx_def Let_def
    by (intro spares_and_then outputs_spares)
      (use none in \<open>auto simp: is_tx_non_malleable_def err_if_def intro!: spares_and_then fee_spares\<close>)
  with assms show False by (auto simp: spares_def)
qed

lemma onchain_tx_unknown:
  assumes "validate_onchain_tx lib p w channels tx flags vs opaths weight = Ok spent"
  shows "\<exists>bsum. validate_onchain_outputs lib p w 0 (tx_output tx) opaths channels (0, []) = Ok (bsum, [])"
  using assms by (auto simp: validate_onchain_tx_def Let_def result_simps policy_simps)

lemma simple_onchain [simp]: "v_validate_onchain_tx (simple_validator lib p) = validate_onchain_tx lib p"
  by (simp add: simple_validator_def)

lemma weight_of_inputs_not_Err: "weight_of_inputs sk prevs ucks \<noteq> Err e"
  by (induction sk prevs ucks rule: weight_of_inputs.induct) (auto simp: result_simps)

lemma velocity_insert_not_Err: "velocity_insert c now amount \<noteq> Err e"
  by (auto simp: velocity_insert_def Let_def split: list.splits)

text \<open>The outputs that a check found unknown: none when it passes, and those it reports otherwise.\<close>

lemma check_onchain_outputs:
  assumes "check_onchain_tx ne sk now tx flags prevs ucks opaths n = (r, n')" "ne_validator ne = simple_validator lib p"
    and "r = Ok () \<and> us = [] \<or> (\<exists>ve. r = Err ve \<and> ve_kind ve = UnknownDestinations us)"
  shows "\<exists>bsum. validate_onchain_outputs lib p (node_wallet ne (node_state n)) 0 (tx_output tx) opaths
    (map (map_option (slot_view n)) (funded_channels ne n tx)) (0, []) = Ok (bsum, us)"
proof -
  have refused: "policy_err_if f b tag = Err ve \<Longrightarrow> ve_kind ve \<noteq> UnknownDestinations us" for f b tag ve
    using spares_policy(2) [of us f b tag] by (auto simp: spares_def)
  from assms(3) show ?thesis
  proof (elim disjE exE conjE)
    assume "r = Ok ()" "us = []"
    with assms(1,2) show ?thesis
      by (auto simp: check_onchain_tx_def Let_def attempt_Ok_iff dest!: onchain_tx_unknown)
  next
    fix ve assume "r = Err ve" "ve_kind ve = UnknownDestinations us"
    with assms(1,2) show ?thesis
      by (auto simp: check_onchain_tx_def Let_def attempt_Err_iff weight_of_inputs_not_Err velocity_insert_not_Err
          dest: refused intro: onchain_tx_names)
  qed
qed

text \<open>
  C8: Every output of an on-chain transaction that was signed goes to the wallet, to an allowlisted script
  or to the verified funding of a channel, or the approver approved a list of outputs that has it.
\<close>

theorem signed_outputs_known_or_approved:
  assumes "sign_withdrawal ne sk ol ap now tx flags ipaths prevs ucks opaths (s, n) = (Ok witnesses, (s', n'))"
    and "ne_validator ne = simple_validator lib p" "strict p"
  shows "\<exists>shown. (shown = [] \<or> (\<exists>t. approve_onchain ap tx prevs shown s = Ok (True, t)))
    \<and> (\<forall>k<length (tx_output tx). known_output lib (node_wallet ne (node_state n)) (tx_output tx ! k) (opaths ! k)
          (map (map_option (slot_view n)) (funded_channels ne n tx) ! k) \<or> k \<in> set shown)"
proof -
  obtain w where proposed: "handle_proposed_onchain ne sk ap now tx flags prevs ucks opaths (s, n) = (Ok True, w)"
    using assms(1) by (auto simp: sign_withdrawal_def attempt_op_Ok_iff attempt_Ok_iff err_if_eq)
  obtain r m where check: "check_onchain_tx ne sk now tx flags prevs ucks opaths n = (r, m)" by force
  have "\<exists>shown. (shown = [] \<or> (\<exists>t. approve_onchain ap tx prevs shown s = Ok (True, t)))
      \<and> (r = Ok () \<and> shown = [] \<or> (\<exists>ve. r = Err ve \<and> ve_kind ve = UnknownDestinations shown))"
  proof (cases r)
    case (Ok x)
    then show ?thesis by (intro exI [of _ "[]"]) simp
  next
    case (Err ve)
    then obtain us t where "ve_kind ve = UnknownDestinations us" "approve_onchain ap tx prevs us s = Ok (True, t)"
      using proposed check by (auto simp: handle_proposed_onchain_def attempt_Ok_iff split: ValidationErrorKind.splits)
    with Err show ?thesis by (intro exI [of _ us]) simp
  next
    case Panic
    with proposed check show ?thesis by (simp add: handle_proposed_onchain_def)
  qed
  then obtain shown where shown: "shown = [] \<or> (\<exists>t. approve_onchain ap tx prevs shown s = Ok (True, t))"
    and "r = Ok () \<and> shown = [] \<or> (\<exists>ve. r = Err ve \<and> ve_kind ve = UnknownDestinations shown)" by blast
  from check_onchain_outputs [OF check assms(2) this(2)] obtain bsum where
    "validate_onchain_outputs lib p (node_wallet ne (node_state n)) 0 (tx_output tx) opaths
      (map (map_option (slot_view n)) (funded_channels ne n tx)) (0, []) = Ok (bsum, shown)" ..
  from outputs_known_or_listed [OF this assms(3)] shown show ?thesis by (intro exI [of _ shown]) simp
qed

text \<open>Unknown destinations are reported before the fees are looked at.\<close>

lemma check_reports_unknown:
  assumes "ne_validator ne = simple_validator lib p" "tx_version tx = 2" "tx_base_size lib tx \<le> MAX_ONCHAIN_TX_SIZE"
    and "list_all (\<lambda>c. c = None) (funded_channels ne n tx)"
    and "validate_onchain_outputs lib p (node_wallet ne (node_state n)) 0 (tx_output tx) opaths
      (map (map_option (slot_view n)) (funded_channels ne n tx)) (0, []) = Ok (bsum, us)" "us \<noteq> []"
    and "length ucks \<le> length prevs"
  shows "check_onchain_tx ne sk now tx flags prevs ucks opaths n = (Err (unknown_destinations_error us), n)"
proof -
  have "\<exists>w. weight_of_inputs sk prevs ucks = Ok w"
    using assms(7) by (induction sk prevs ucks rule: weight_of_inputs.induct) (auto simp: result_simps)
  moreover have "\<not> list_ex (\<lambda>c. c \<noteq> None) (map (map_option (slot_view n)) (funded_channels ne n tx))"
    using assms(4) by (auto simp: list_ex_iff list_all_iff)
  ultimately show ?thesis
    using assms(1-3,5,6) by (auto simp: check_onchain_tx_def Let_def validate_onchain_tx_def policy_err_if_def err_if_def)
qed

text \<open>
  C33: When the approver accepts the unknown destinations of a transaction, neither the limit on the fee rate
  nor the velocity of fees is consulted: the request passes for any values of the inputs, and the node stays as
  it was.
\<close>

theorem approved_destination_skips_fee_checks:
  assumes "ne_validator ne = simple_validator lib p" "tx_version tx = 2" "tx_base_size lib tx \<le> MAX_ONCHAIN_TX_SIZE"
    and "list_all (\<lambda>c. c = None) (funded_channels ne n tx)"
    and "validate_onchain_outputs lib p (node_wallet ne (node_state n)) 0 (tx_output tx) opaths
      (map (map_option (slot_view n)) (funded_channels ne n tx)) (0, []) = Ok (bsum, us)" "us \<noteq> []"
    and "approve_onchain ap tx prevs us s = Ok (True, t)" "length ucks \<le> length prevs"
  shows "handle_proposed_onchain ne sk ap now tx flags prevs ucks opaths (s, n) = (Ok True, (t, n))"
  using check_reports_unknown [OF assms(1-6,8)] assms(7)
  by (simp add: handle_proposed_onchain_def unknown_destinations_error_def)

section \<open>Funding inputs\<close>

definition watches_grow :: "'d Node \<Rightarrow> 'd Node \<Rightarrow> bool" where
  "watches_grow n n' \<longleftrightarrow> slots n' = slots n
     \<and> (\<forall>key a m slot. map_of (listeners (node_tracker n)) key = Some ((a, m), slot) \<longrightarrow>
          (\<exists>m' slot'. map_of (listeners (node_tracker n')) key = Some ((a, m'), slot')
             \<and> watches slot \<subseteq> watches slot' \<and> funding_inputs (mon_state m) \<subseteq> funding_inputs (mon_state m')))"

lemma watches_grow_refl [simp]: "watches_grow n n"
  by (simp add: watches_grow_def)

lemma watches_growD:
  assumes "watches_grow n n'" "map_of (listeners (node_tracker n)) key = Some ((a, m), slot)"
  obtains m' slot' where "map_of (listeners (node_tracker n')) key = Some ((a, m'), slot')"
    and "watches slot \<subseteq> watches slot'" "funding_inputs (mon_state m) \<subseteq> funding_inputs (mon_state m')"
  using assms unfolding watches_grow_def by blast

lemma watches_grow_trans:
  assumes "watches_grow n n'" "watches_grow n' n''"
  shows "watches_grow n n''"
  unfolding watches_grow_def
proof (intro conjI allI impI)
  show "slots n'' = slots n" using assms by (simp add: watches_grow_def)
  fix key a m slot assume "map_of (listeners (node_tracker n)) key = Some ((a, m), slot)"
  then obtain m1 slot1 where 1: "map_of (listeners (node_tracker n')) key = Some ((a, m1), slot1)"
    "watches slot \<subseteq> watches slot1" "funding_inputs (mon_state m) \<subseteq> funding_inputs (mon_state m1)"
    by (rule watches_growD [OF assms(1)])
  obtain m2 slot2 where "map_of (listeners (node_tracker n'')) key = Some ((a, m2), slot2)"
    "watches slot1 \<subseteq> watches slot2" "funding_inputs (mon_state m1) \<subseteq> funding_inputs (mon_state m2)"
    by (rule watches_growD [OF assms(2) 1(1)])
  with 1 show "\<exists>m' slot'. map_of (listeners (node_tracker n'')) key = Some ((a, m'), slot')
      \<and> watches slot \<subseteq> watches slot' \<and> funding_inputs (mon_state m) \<subseteq> funding_inputs (mon_state m')"
    by (intro exI [of _ m2] exI [of _ slot2]) auto
qed

lemma modified_listener:
  "map_of (listeners (node_tracker (modify_monitor a f n))) key =
     map_option (\<lambda>((a', m), slot). ((a', if a' = a then f m else m), slot)) (map_of (listeners (node_tracker n)) key)"
proof -
  have "map_of (map (\<lambda>(k, (a', m), slot). (k, (a', if a' = a then f m else m), slot)) ls) key =
      map_option (\<lambda>((a', m), slot). ((a', if a' = a then f m else m), slot)) (map_of ls key)"
    for ls :: "(OutPoint \<times> SlotListener \<times> ListenSlot) list"
    by (induction ls) auto
  then show ?thesis by (simp add: modify_monitor_def)
qed

lemma watch_one:
  assumes "add_listener_watches key ws (node_tracker n) = (Ok t :: (_, Status) result)"
    and "n' = modify_monitor a (add_funding_inputs tx) (n\<lparr>node_tracker := t\<rparr>)"
  shows "watches_grow n n'"
    and "map_of (listeners (node_tracker n)) key = Some ((a, m), slot) \<Longrightarrow> ws = set (map previous_output (tx_input tx)) \<Longrightarrow>
      \<exists>m' slot'. map_of (listeners (node_tracker n')) key = Some ((a, m'), slot')
        \<and> ws \<subseteq> watches slot' \<and> ws \<subseteq> funding_inputs (mon_state m')"
proof -
  obtain l slot0 where l: "map_of (listeners (node_tracker n)) key = Some (l, slot0)"
    and t: "listeners t = AList.update key (l, slot0\<lparr>watches := watches slot0 \<union> ws\<rparr>) (listeners (node_tracker n))"
    using assms(1) by (auto simp: add_listener_watches_def result_simps)
  have found: "map_of (listeners (node_tracker n')) k =
      map_option (\<lambda>((a', m), slot). ((a', if a' = a then add_funding_inputs tx m else m), slot)) (map_of (listeners t) k)" for k
    by (simp add: assms(2) modified_listener)
  show "watches_grow n n'"
    using l unfolding watches_grow_def found t
    by (auto simp: assms(2) modify_monitor_def update_conv' add_funding_inputs_def)
  show "\<exists>m' slot'. map_of (listeners (node_tracker n')) key = Some ((a, m'), slot')
      \<and> ws \<subseteq> watches slot' \<and> ws \<subseteq> funding_inputs (mon_state m')"
    if "map_of (listeners (node_tracker n)) key = Some ((a, m), slot)" "ws = set (map previous_output (tx_input tx))"
    using that l unfolding found t by (simp add: update_conv' add_funding_inputs_def)
qed

lemma watch_inputs_grow:
  "watch_inputs ne tx channels n = (Ok (), n') \<Longrightarrow> watches_grow n n'"
proof (induction ne tx channels n rule: watch_inputs.induct)
  case (3 ne tx a channels n)
  then obtain ch t where ch: "slot_at n a = Some (Ready ch)"
    and t: "add_listener_watches (funding_outpoint (chan_setup ch)) (set (map previous_output (tx_input tx))) (node_tracker n) = (Ok t :: (_, Status) result)"
    and rest: "watch_inputs ne tx channels (modify_monitor a (add_funding_inputs tx) (n\<lparr>node_tracker := t\<rparr>)) = (Ok (), n')"
    by (auto simp: attempt_Ok_iff Let_def split: option.splits ChannelSlot.splits)
  from watch_one(1) [OF t refl] 3(1) [OF ch refl refl rest] show ?case by (rule watches_grow_trans)
qed simp_all

lemma watch_inputs_watched:
  "\<lbrakk>watch_inputs ne tx channels n = (Ok (), n'); Some a \<in> set channels; slot_at n a = Some (Ready ch);
    map_of (listeners (node_tracker n)) (funding_outpoint (chan_setup ch)) = Some ((a, m), slot)\<rbrakk> \<Longrightarrow>
   \<exists>m' slot'. map_of (listeners (node_tracker n')) (funding_outpoint (chan_setup ch)) = Some ((a, m'), slot')
     \<and> set (map previous_output (tx_input tx)) \<subseteq> watches slot' \<inter> funding_inputs (mon_state m')"
proof (induction ne tx channels n arbitrary: m slot rule: watch_inputs.induct)
  case (3 ne tx b channels n)
  let ?ws = "set (map previous_output (tx_input tx))" and ?key = "funding_outpoint (chan_setup ch)"
  obtain ch' t where ch': "slot_at n b = Some (Ready ch')"
    and t: "add_listener_watches (funding_outpoint (chan_setup ch')) ?ws (node_tracker n) = (Ok t :: (_, Status) result)"
    and rest: "watch_inputs ne tx channels (modify_monitor b (add_funding_inputs tx) (n\<lparr>node_tracker := t\<rparr>)) = (Ok (), n')"
    using 3(2) by (auto simp: attempt_Ok_iff Let_def split: option.splits ChannelSlot.splits)
  let ?n = "modify_monitor b (add_funding_inputs tx) (n\<lparr>node_tracker := t\<rparr>)"
  show ?case
  proof (cases "b = a")
    case True
    with 3(4) ch' have "ch' = ch" by simp
    with watch_one(2) [OF t refl, where m = m and slot = slot] 3(5) True obtain m1 slot1 where
      1: "map_of (listeners (node_tracker ?n)) ?key = Some ((a, m1), slot1)"
        "?ws \<subseteq> watches slot1" "?ws \<subseteq> funding_inputs (mon_state m1)" by blast
    from watch_inputs_grow [OF rest] 1(1) obtain m2 slot2 where
      "map_of (listeners (node_tracker n')) ?key = Some ((a, m2), slot2)"
      "watches slot1 \<subseteq> watches slot2" "funding_inputs (mon_state m1) \<subseteq> funding_inputs (mon_state m2)"
      by (rule watches_growD)
    with 1 show ?thesis by (intro exI [of _ m2] exI [of _ slot2]) auto
  next
    case False
    from watch_one(1) [OF t refl] 3(5) obtain m1 slot1 where "map_of (listeners (node_tracker ?n)) ?key = Some ((a, m1), slot1)"
      by (rule watches_growD)
    moreover have "slot_at ?n a = Some (Ready ch)" using 3(4) by (simp add: slot_at_def modify_monitor_def)
    ultimately show ?thesis using 3(1) [OF ch' refl refl rest] 3(3) False by auto
  qed
qed simp_all

text \<open>
  C25: When a transaction that funds a channel was signed, the tracker watches all of its inputs for the
  channel's monitor, and the monitor takes them for the inputs of the funding, so that a double spend is seen.
\<close>

theorem signed_funding_inputs_watched:
  assumes "unchecked_sign_onchain_tx ne sk ol tx ipaths prevs ucks n = (Ok witnesses, n')"
    and "Some a \<in> set (funded_channels ne n tx)" "slot_at n a = Some (Ready ch)"
    and "map_of (listeners (node_tracker n)) (funding_outpoint (chan_setup ch)) = Some ((a, m), slot)"
  shows "\<exists>m' slot'. map_of (listeners (node_tracker n')) (funding_outpoint (chan_setup ch)) = Some ((a, m'), slot')
    \<and> set (map previous_output (tx_input tx)) \<subseteq> watches slot' \<inter> funding_inputs (mon_state m')"
  using assms by (auto simp: unchecked_sign_onchain_tx_def attempt_Ok_iff attempt_op_Ok_iff dest!: watch_inputs_watched)

section \<open>Examples\<close>

lemma is_ok_outcome:
  assumes "is_ok (fst r)"
  obtains x t where "r = (Ok x, t)"
  using assms by (cases r; cases "fst r") (auto simp: is_ok_def)

definition example_wallet_lib :: WalletLib where
  "example_wallet_lib = \<lparr>get_wallet_pubkey = (\<lambda>path. Ok (of_nat (length path))), p2wpkh_script = (\<lambda>k. [0, ucast k]),
     p2shwpkh_script = (\<lambda>k. [1, ucast k]), p2tr_script = (\<lambda>k. [2, ucast k]), p2pkh_script = (\<lambda>k. [3, ucast k]),
     derive_pub = (\<lambda>xp path. Some (of_nat (length path)))\<rparr>"

definition example_kinds :: ScriptKinds where
  "example_kinds = \<lparr>is_p2pkh = (\<lambda>s. take 1 s = [3]), is_p2sh = (\<lambda>s. take 1 s = [1]), is_p2wpkh = (\<lambda>s. take 1 s = [0]),
     is_p2wsh = (\<lambda>s. take 1 s = [4]), is_p2tr = (\<lambda>s. take 1 s = [2])\<rparr>"

definition example_onchain_lib :: OnchainLib where
  "example_onchain_lib = \<lparr>wallet_privkey = (\<lambda>path. Ok (replicate (length path) 1)), pubkey_bytes = (\<lambda>k. [ucast k]),
     legacy_signature_hash = (\<lambda>tx i s. Some 1), p2wpkh_signature_hash = (\<lambda>tx i s v. Some 2),
     taproot_signature_hash = (\<lambda>tx i prevs. Some 3), ecdsa_bytes = (\<lambda>h k. [ucast h]), schnorr_bytes = (\<lambda>h k. [ucast h]),
     has_address = (\<lambda>_. True)\<rparr>"

definition example_node_env :: "unit NodeEnv" where
  "example_node_env = \<lparr>ne_crypto = example_crypto_lib, ne_ldk = example_ldk, ne_validator = env_validator example_env,
     ne_wallet = example_wallet_lib,
     ne_channel_keys = (\<lambda>i. (channel_signer_new example_crypto_lib [1] [2] [3] [4] [5] [6] [7], [3])),
     ne_persist = (\<lambda>_. True), ne_aux = env_aux example_env, ne_sha = env_sha example_env,
     ne_payment_hash = env_payment_hash example_env, ne_chain = example_lib\<rparr>"

definition example_funding_node :: "unit Node" where
  "example_funding_node = \<lparr>node_network = Bitcoin,
     node_state = example_node\<lparr>node_fee_velocity_control := \<lparr>start_sec = 0, bucket_interval = 300, buckets = replicate 12 0, limit = 2000000\<rparr>\<rparr>,
     channel_ids = [([1], 0)],
     slots = [(0, Ready (example_channel\<lparr>enforcement_state := (enforcement_new 0)\<lparr>next_holder_commit_num := 1\<rparr>\<rparr>))], next_slot = 1,
     node_tracker = restore_tracker [] (example_header 1 0, 1) 100 Bitcoin
       [(outpoint 2 0, (0, monitor_new (outpoint 2 0) 100), \<lparr>txid_watches = {2}, watches = {}, seen = {}\<rparr>)] filter_default [],
     detached = []\<rparr>"

text \<open>A transaction that funds the channel and returns change, and one that pays to an unknown script.\<close>

definition example_fund :: Transaction where
  "example_fund = \<lparr>tx_version = 2, lock_time = 2, tx_input = [\<lparr>previous_output = outpoint 9 1, tx_sequence = 0\<rparr>],
     tx_output = [\<lparr>txout_value = 3000000,
        script_pubkey = funding_script example_crypto_lib (funding_pubkey (sk_holder_pubkeys (chan_keys example_channel)))
          (funding_pubkey (counterparty_points example_setup))\<rparr>,
       \<lparr>txout_value = 70000, script_pubkey = [0, 1]\<rparr>]\<rparr>"

definition example_payout :: Transaction where
  "example_payout = example_fund\<lparr>lock_time := 3, tx_output := [\<lparr>txout_value = 1, script_pubkey = [9]\<rparr>]\<rparr>"

abbreviation example_prev :: "u64 \<Rightarrow> TxOut list" where
  "example_prev amount \<equiv> [\<lparr>txout_value = amount, script_pubkey = [0, 1]\<rparr>]"

lemma example_payout_parts:
  "ne_validator example_node_env = simple_validator example_crypto_lib (make_default_simple_policy Bitcoin)"
  "tx_version example_payout = 2" "tx_base_size example_crypto_lib example_payout \<le> MAX_ONCHAIN_TX_SIZE"
  "funded_channels example_node_env example_funding_node example_payout = [None]"
  "validate_onchain_outputs example_crypto_lib (make_default_simple_policy Bitcoin)
     (node_wallet example_node_env (node_state example_funding_node)) 0 (tx_output example_payout) [[]]
     (map (map_option (slot_view example_funding_node)) (funded_channels example_node_env example_funding_node example_payout)) (0, [])
   = Ok (0, [0])"
proof -
  show "ne_validator example_node_env = simple_validator example_crypto_lib (make_default_simple_policy Bitcoin)"
    by (simp add: example_node_env_def example_env_def)
  show "tx_version example_payout = 2" "tx_base_size example_crypto_lib example_payout \<le> MAX_ONCHAIN_TX_SIZE"
    by (simp_all add: example_payout_def example_fund_def MAX_ONCHAIN_TX_SIZE_def example_crypto_lib_def example_tx_lib_def TxLib.defs)
qed code_simp+

theorem approved_destination_skips_fee_checks_witness:
  "handle_proposed_onchain example_node_env example_kinds PositiveApprover 0 example_payout [True] (example_prev (2 ^ 50)) [None] [[]]
     ((), example_funding_node) = (Ok True, ((), example_funding_node))"
  by (rule approved_destination_skips_fee_checks [OF example_payout_parts(1-3) _ example_payout_parts(5)])
    (simp_all add: example_payout_parts(4) PositiveApprover_def constant_approver_def)

theorem signed_outputs_known_or_approved_witness:
  "\<exists>witnesses w shown. sign_withdrawal example_node_env example_kinds example_onchain_lib PositiveApprover 0 example_payout [True] [[5]]
      (example_prev (2 ^ 50)) [None] [[]] ((), example_funding_node) = (Ok witnesses, w)
    \<and> (known_output example_crypto_lib (node_wallet example_node_env (node_state example_funding_node)) (tx_output example_payout ! 0) [] None
       \<or> (0 :: nat) \<in> set shown)"
proof -
  have "check_onchain_tx example_node_env example_kinds 0 example_payout [True] (example_prev (2 ^ 50)) [None] [[]] example_funding_node
      = (Err (unknown_destinations_error [0]), example_funding_node)"
    by (rule check_reports_unknown [OF example_payout_parts(1-3) _ example_payout_parts(5)]) (simp_all add: example_payout_parts(4))
  moreover have "is_ok (fst (unchecked_sign_onchain_tx example_node_env example_kinds example_onchain_lib example_payout [[5]]
      (example_prev (2 ^ 50)) [None] example_funding_node))" (is "is_ok (fst ?signed)")
    by code_simp
  then obtain ws n where "?signed = (Ok ws, n)" by (rule is_ok_outcome)
  ultimately have signed: "sign_withdrawal example_node_env example_kinds example_onchain_lib PositiveApprover 0
      example_payout [True] [[5]] (example_prev (2 ^ 50)) [None] [[]] ((), example_funding_node) = (Ok ws, ((), n))"
    by (auto simp: sign_withdrawal_def handle_proposed_onchain_def unknown_destinations_error_def PositiveApprover_def
        constant_approver_def err_if_def on_node_def)
  from signed_outputs_known_or_approved [OF signed example_payout_parts(1) strict_default] obtain shown where
    "\<forall>k<length (tx_output example_payout). known_output example_crypto_lib (node_wallet example_node_env (node_state example_funding_node))
       (tx_output example_payout ! k) ([[]] ! k)
       (map (map_option (slot_view example_funding_node)) (funded_channels example_node_env example_funding_node example_payout) ! k)
     \<or> k \<in> set shown" by blast
  moreover have "0 < length (tx_output example_payout)" by (simp add: example_payout_def)
  ultimately have "known_output example_crypto_lib (node_wallet example_node_env (node_state example_funding_node))
      (tx_output example_payout ! 0) [] None \<or> 0 \<in> set shown"
    by (auto simp: example_payout_parts(4))
  with signed show ?thesis by blast
qed

abbreviation example_funded :: "(unit Node, u8 list list list, Status) outcome" where
  "example_funded \<equiv> unchecked_sign_onchain_tx example_node_env example_kinds example_onchain_lib example_fund [[5]]
     (example_prev 3071000) [None] example_funding_node"

theorem signed_funding_inputs_watched_witness:
  "is_ok (fst example_funded)
   \<and> (\<exists>m slot. map_of (listeners (node_tracker (snd example_funded))) (outpoint 2 0) = Some ((0, m), slot) \<and> outpoint 9 1 \<in> watches slot)"
proof -
  have ok: "is_ok (fst example_funded)" by code_simp
  then obtain ws n' where signed: "example_funded = (Ok ws, n')" by (rule is_ok_outcome)
  have funds: "Some 0 \<in> set (funded_channels example_node_env example_funding_node example_fund)" by code_simp
  have "slot_at example_funding_node 0 =
      Some (Ready (example_channel\<lparr>enforcement_state := (enforcement_new 0)\<lparr>next_holder_commit_num := 1\<rparr>\<rparr>))" (is "_ = Some (Ready ?ch)")
    by (simp add: example_funding_node_def slot_at_def)
  moreover have out: "funding_outpoint (chan_setup ?ch) = outpoint 2 0" by (simp add: example_channel_def example_setup_def outpoint_def)
  moreover have "map_of (listeners (node_tracker example_funding_node)) (outpoint 2 0) =
      Some ((0, monitor_new (outpoint 2 0) 100), \<lparr>txid_watches = {2}, watches = {}, seen = {}\<rparr>)"
    by (simp add: example_funding_node_def restore_tracker_def)
  ultimately have "\<exists>m' slot'. map_of (listeners (node_tracker n')) (outpoint 2 0) = Some ((0, m'), slot')
      \<and> set (map previous_output (tx_input example_fund)) \<subseteq> watches slot' \<inter> funding_inputs (mon_state m')"
    using signed_funding_inputs_watched [OF signed funds, of ?ch] by auto
  then show ?thesis unfolding signed by (auto simp: is_ok_def example_fund_def)
qed

end
