(* ===== verification/NodeSafety.thy ===== *)
theory NodeSafety
  imports NodeLife OnchainSafety
begin

text \<open>
  The guarantees of a whole node over its runs, with channels created, set up, used, forgotten and pruned in
  any order and interleaved with blocks, payments and on-chain transactions. Every channel follows the
  protocol machine of \<open>Protocol\<close>, from its creation to its pruning and beyond: its identifier, from which its
  keys are derived, is never used for another channel.
\<close>

section \<open>Runs of a node\<close>

text \<open>Where the machine of a channel stands, for each stage of its life.\<close>

definition keeps_pace :: "Sha256 \<Rightarrow> 'd Node \<Rightarrow> ChannelId \<Rightarrow> Observation list \<Rightarrow> Proto \<Rightarrow> bool" where
  "keeps_pace sha n i es p =
     (case life n i of
        Live ch \<Rightarrow> (\<forall>ns. represents sha (ch, ns) p)
      | Opening \<Rightarrow> es = [] \<and> p = proto_initial
      | Absent \<Rightarrow> es = [] \<and> p = proto_initial \<or> retired n i)"

lemma start_registry: "node_start n \<Longrightarrow> registry_ok n"
  by (simp add: node_start_def registry_ok_def owners_def monitors_def)

lemma start_pace: "node_start n \<Longrightarrow> keeps_pace sha n i [] proto_initial"
  by (simp add: node_start_def keeps_pace_def life_def)

context commitment_guard
begin

lemma life_step_follows:
  assumes step: "life_step v sha n n' i obs (life n i) (life n' i)" and mono: "mark n \<le> mark n'"
    and pace: "keeps_pace sha n i es p" "proto.trace point_of proto_initial es p"
    and bounds: "p_holder p < 2 ^ 48" "p_cp p < 2 ^ 48"
  shows "\<exists>es' p'. proto.trace point_of p es' p' \<and> filter (\<lambda>e. e \<noteq> Tau) es' = obs \<and> keeps_pace sha n' i (es @ es') p'
    \<and> p_holder p' \<le> p_holder p + 1 \<and> p_cp p' \<le> p_cp p + 1"
proof -
  have ok: "proto_ok point_of p" by (rule proto_ok_trace [OF pace(2) proto_ok_start [OF proto_initial]])
  have idle: ?thesis if "obs = []" "keeps_pace sha n' i es p"
    using that by (intro exI [of _ "[]"] exI [of _ p]) (simp add: proto.trace_nil)
  from step show ?thesis
  proof (cases rule: life_step.cases)
    case stay
    then show ?thesis
      using pace(1) retired_mono [OF _ mono] by (intro idle) (auto simp: keeps_pace_def split: Life.splits)
  next
    case (open_up ch ns)
    then have "\<forall>ns. represents sha (ch, ns) proto_initial"
      using represents_start [OF open_up(4) proto_initial] represents_ns by blast
    with open_up pace(1) show ?thesis by (intro idle) (auto simp: keeps_pace_def)
  next
    case (work env req reply ch ns ch' ns')
    then have "represents sha (ch, ns) p" using pace(1) by (simp add: keeps_pace_def)
    from serve_follows [OF this ok bounds(2,1) work(4)] obtain es' p' where
      p': "proto.trace point_of p es' p'" "filter (\<lambda>e. e \<noteq> Tau) es' = obs" "p_holder p' \<le> p_holder p + 1" "p_cp p' \<le> p_cp p + 1"
      and rep: "represents sha (ch', ns') p'"
      unfolding follows_def work(1) by blast
    from rep have "\<forall>ns. represents sha (ch', ns) p'" using represents_ns by blast
    with p' work(3) show ?thesis by (intro exI [of _ es'] exI [of _ p']) (simp add: keeps_pace_def)
  qed (rule idle; use pace(1) in \<open>auto simp: keeps_pace_def\<close>)+
qed

lemma node_run:
  assumes "noderun.trace v sha n0 ls n" "node_start n0" "length ls < 2 ^ 48"
  shows "registry_ok n \<and> (\<exists>es p. proto.trace point_of proto_initial es p \<and> filter (\<lambda>e. e \<noteq> Tau) es = observations_on i ls
    \<and> keeps_pace sha n i es p \<and> p_holder p \<le> length ls \<and> p_cp p \<le> length ls)"
  using assms
proof (induction rule: noderun.trace.induct)
  case trace_nil
  then show ?case
    by (auto intro!: start_registry exI [of _ "[]"] exI [of _ proto_initial] proto.trace_nil start_pace
        simp: observations_on_def proto_initial_def)
next
  case (trace_snoc ls n l n')
  obtain ne req reply where l: "l = (ne, req, reply)" by (cases l)
  from trace_snoc obtain es p where ok: "registry_ok n" and p: "proto.trace point_of proto_initial es p"
    "filter (\<lambda>e. e \<noteq> Tau) es = observations_on i ls" "keeps_pace sha n i es p" "p_holder p \<le> length ls" "p_cp p \<le> length ls"
    by auto
  have moves: "moves v sha n req reply n'" using node_act_moves [OF ok] trace_snoc.hyps(2) l by blast
  then have "life_step v sha n n' i (observe_on i req reply) (life n i) (life n' i)" "mark n \<le> mark n'"
    by (simp_all add: moves_def)
  from life_step_follows [OF this p(3,1)] obtain es' p' where
    p': "proto.trace point_of p es' p'" "filter (\<lambda>e. e \<noteq> Tau) es' = observe_on i req reply" "keeps_pace sha n' i (es @ es') p'"
    "p_holder p' \<le> p_holder p + 1" "p_cp p' \<le> p_cp p + 1"
    using p(4,5) trace_snoc.prems(2) by auto
  from proto.trace_append [OF p(1) p'(1)] p p' moves show ?case
    by (auto simp: moves_def l observations_on_def intro!: exI [of _ "es @ es'"] exI [of _ p'])
qed

end

lemmas strict_node_run = commitment_guard.node_run [OF strict_validator_guard]

text \<open>The mark does not fall.\<close>

lemma run_keeps_mark:
  assumes "noderun.trace v sha n ls n'" "registry_ok n"
  shows "registry_ok n' \<and> mark n \<le> mark n'"
  using assms
proof (induction rule: noderun.trace.induct)
  case (trace_snoc ls m l m')
  obtain ne req reply where l: "l = (ne, req, reply)" by (cases l)
  have "moves v sha m req reply m'" using trace_snoc l by (intro node_act_moves [where ne = ne]) simp_all
  with trace_snoc show ?case by (auto simp: moves_def)
qed simp

section \<open>A concrete run\<close>

fun node_serve_all :: "'d NodeEnv \<Rightarrow> NodeRequest list \<Rightarrow> 'd Node \<Rightarrow> 'd NodeLabel list \<times> 'd Node" where
  "node_serve_all ne [] n = ([], n)"
| "node_serve_all ne (req # reqs) n =
     (let (reply, n') = node_serve ne req n; (ls, n'') = node_serve_all ne reqs n' in ((ne, req, reply) # ls, n''))"

fun all_allowed :: "'d NodeEnv \<Rightarrow> NodeRequest list \<Rightarrow> 'd Node \<Rightarrow> bool" where
  "all_allowed ne [] n = True"
| "all_allowed ne (req # reqs) n =
     (let (reply, n') = node_serve ne req n in reply \<noteq> Panic \<and> node_allowed req reply n \<and> all_allowed ne reqs n')"

lemma node_serve_all_trace:
  assumes "ne_validator ne = v" "ne_sha ne = sha" "all_allowed ne reqs n"
  shows "noderun.trace v sha n (fst (node_serve_all ne reqs n)) (snd (node_serve_all ne reqs n))"
  using assms(3)
proof (induction reqs arbitrary: n)
  case Nil
  show ?case by (simp add: noderun.trace_nil)
next
  case (Cons req reqs)
  obtain reply n' where step: "node_serve ne req n = (reply, n')" by force
  with Cons.prems assms(1,2) have "node_act v sha (ne, req, reply) n n'" by (simp add: node_act_def)
  moreover have "noderun.trace v sha n' (fst (node_serve_all ne reqs n')) (snd (node_serve_all ne reqs n'))"
    using Cons.prems step by (intro Cons.IH) simp
  ultimately show ?case using step by (auto simp: split_beta Let_def intro: noderun.trace_Cons)
qed

lemma node_serve_all_labels:
  "fst (node_serve_all ne reqs n) = map (Pair ne) (zip reqs (map (snd \<circ> snd) (fst (node_serve_all ne reqs n))))"
  by (induction reqs arbitrary: n) (auto simp: split_beta Let_def)

definition example_start_node :: "unit Node" where
  "example_start_node = \<lparr>node_network = Bitcoin, node_state = example_node, channel_ids = [], slots = [], next_slot = 0,
     node_tracker = restore_tracker [] (example_header 1 0, 1) 100 Bitcoin [] filter_default [], detached = []\<rparr>"

definition example_peer :: "u8 list" where "example_peer = replicate 33 2"

definition example_id :: ChannelId where "example_id = channel_id_from_peer_and_oid example_peer 5"

definition example_node_setup :: ChannelSetup where
  "example_node_setup = example_setup\<lparr>holder_selected_contest_delay := 200, counterparty_selected_contest_delay := 200\<rparr>"

definition example_requests :: "NodeRequest list" where
  "example_requests = [NewChannel 5 example_peer, SetupChannel example_id example_node_setup []]
     @ map (OnChannel example_id) (example_early @ example_late @ [RevokePrevious 1, SignHolder 1])"

fun outcomes :: "'d NodeEnv \<Rightarrow> NodeRequest list \<Rightarrow> 'd Node \<Rightarrow> ((NodeReply, Status) result \<times> bool) list" where
  "outcomes ne [] n = []"
| "outcomes ne (req # reqs) n =
     (let (reply, n') = node_serve ne req n in (reply, node_allowed req reply n) # outcomes ne reqs n')"

lemma outcomes_run:
  "map fst (outcomes ne reqs n) = map (snd \<circ> snd) (fst (node_serve_all ne reqs n))"
  "all_allowed ne reqs n = list_all (\<lambda>(reply, ok). reply \<noteq> Panic \<and> ok) (outcomes ne reqs n)"
  by (induction reqs arbitrary: n) (auto simp: split_beta Let_def)

text \<open>The run is evaluated once.\<close>

lemma example_outcomes:
  "outcomes example_node_env example_requests example_start_node =
     map (\<lambda>r. (Ok r, True)) ([Acknowledged, Acknowledged] @ map ChannelReply
       [Signatures 4297967296 [], Done, Point 2, Signatures 4297967295 [], Done, Done, Released 2 (Some [255, 6]),
        Signatures 4297967294 []])"
  by code_simp

abbreviation example_node_run :: "unit NodeLabel list" where
  "example_node_run \<equiv> fst (node_serve_all example_node_env example_requests example_start_node)"

lemmas example_node_labels =
  node_serve_all_labels [of example_node_env example_requests example_start_node,
    folded outcomes_run(1), unfolded example_outcomes]

lemma example_node_trace:
  "noderun.trace (ne_validator example_node_env) (ne_sha example_node_env) example_start_node example_node_run
     (snd (node_serve_all example_node_env example_requests example_start_node))"
  by (rule node_serve_all_trace) (simp_all add: outcomes_run(2) example_outcomes)

lemma example_node_start: "node_start example_start_node"
  by (simp add: node_start_def example_start_node_def restore_tracker_def)

lemma example_node_strict: "strict_validator example_crypto_lib (ne_validator example_node_env)"
  using example_strict by (simp add: example_node_env_def)

section \<open>Properties\<close>

text \<open>
  C1: Over a run of a node in which channels are created, set up, used, forgotten and pruned in any order, in
  between blocks, payments and on-chain transactions, and in which no channel is spliced, what the signer
  shows under one channel identifier is what one run of the protocol machine shows; the state of a channel
  that is there represents the state of the machine.
\<close>

theorem node_refines_protocol:
  assumes "strict_validator lib v" "node_start n0" "noderun.trace v sha n0 ls n" "length ls < 2 ^ 48"
  shows "\<exists>es p. proto.trace (public_key_of lib) proto_initial es p
    \<and> filter (\<lambda>e. e \<noteq> Tau) es = observations_on i ls
    \<and> (case life n i of Live ch \<Rightarrow> represents sha (ch, node_state n) p | _ \<Rightarrow> True)"
proof -
  obtain es p where "proto.trace (public_key_of lib) proto_initial es p"
    "filter (\<lambda>e. e \<noteq> Tau) es = observations_on i ls" "keeps_pace sha n i es p"
    using strict_node_run [OF assms(1,3,2,4)] by blast
  then show ?thesis
    by (intro exI [of _ es] exI [of _ p]) (auto simp: keeps_pace_def split: Life.splits)
qed

lemma example_node_length: "length example_node_run < 2 ^ 48"
  by (subst example_node_labels) simp

lemma example_node_observed:
  "observations_on example_id example_node_run = [ESignCp 0 32, ESignCp 1 33, ERelease 0, ESignHolder 1]"
  by (subst example_node_labels)
    (simp add: example_requests_def observations_on_def example_early_def example_late_def Let_def)

theorem node_refines_protocol_witness:
  "\<exists>es p. proto.trace (public_key_of example_crypto_lib) proto_initial es p
    \<and> filter (\<lambda>e. e \<noteq> Tau) es = [ESignCp 0 32, ESignCp 1 33, ERelease 0, ESignHolder 1]"
  using node_refines_protocol [OF example_node_strict example_node_start example_node_trace example_node_length, of example_id]
  unfolding example_node_observed by blast

text \<open>
  C2: Whatever else the node does in between, splices apart, once it released the secret of a holder
  commitment of a channel it never again signs that commitment or an older one for broadcast under the
  identifier of the channel, even if the channel is forgotten, pruned and asked for again.
\<close>

theorem node_released_never_signed_again:
  assumes "strict_validator lib v" "node_start n0"
    and "noderun.trace v sha n0 (ls @ (ne, OnChannel i (RevokePrevious k), Ok (ChannelReply (Released point (Some secret)))) # ls') n"
    and "(ne', OnChannel i (SignHolder m), Ok (ChannelReply reply)) \<in> set ls'" "length ls + length ls' < 2 ^ 48 - 1"
  shows "k \<le> m"
proof -
  let ?l = "(ne, OnChannel i (RevokePrevious k), Ok (ChannelReply (Released point (Some secret))))"
  have len: "length (ls @ ?l # ls') < 2 ^ 48" using assms(5) by simp
  obtain es p where es: "proto.trace (public_key_of lib) proto_initial es p"
    "filter (\<lambda>e. e \<noteq> Tau) es = observations_on i (ls @ ?l # ls')"
    using strict_node_run [OF assms(1,3,2) len] by blast
  moreover have "observations_on i (ls @ ?l # ls') = observations_on i ls @ ERelease (unat k - 1) # observations_on i ls'"
    by (simp add: observations_on_def)
  ultimately obtain es1 es2 where "es = es1 @ ERelease (unat k - 1) # es2"
    and obs: "filter (\<lambda>e. e \<noteq> Tau) es2 = observations_on i ls'"
    using observed_in_order by metis
  moreover have "ESignHolder (unat m) \<in> set (observations_on i ls')" using assms(4) by (force simp: observations_on_def)
  then have "ESignHolder (unat m) \<in> set es2" unfolding obs [symmetric] by simp
  ultimately have "unat k - 1 < unat m" using released_before_signed es(1) by blast
  then show ?thesis by (simp add: word_le_nat_alt)
qed

theorem node_released_never_signed_again_witness:
  "\<exists>ls ls' reply. example_node_run
      = ls @ (example_node_env, OnChannel example_id (RevokePrevious 1), Ok (ChannelReply (Released 2 (Some [255, 6])))) # ls'
    \<and> (example_node_env, OnChannel example_id (SignHolder 1), Ok (ChannelReply reply)) \<in> set ls' \<and> (1 :: u64) \<le> 1"
proof -
  let ?sign = "(example_node_env, OnChannel example_id (SignHolder 1), Ok (ChannelReply (Signatures 4297967294 [])))"
  let ?revoke = "(example_node_env, OnChannel example_id (RevokePrevious 1), Ok (ChannelReply (Released 2 (Some [255, 6]))))"
  have "example_node_run = take 8 example_node_run @ ?revoke # [?sign]"
    by (subst (1 2) example_node_labels) (simp add: example_requests_def example_early_def example_late_def Let_def)
  then obtain ls where run: "example_node_run = ls @ ?revoke # [?sign]" and "length ls \<le> 8" by (metis length_take min.cobounded2)
  then have "length ls + length [?sign] < 2 ^ 48 - 1" by simp
  from node_released_never_signed_again [OF example_node_strict example_node_start example_node_trace [unfolded run] _ this]
  have le: "(1 :: u64) \<le> 1" by (meson list.set_intros(1))
  have "?sign \<in> set [?sign]" by simp
  then show ?thesis using run le by blast
qed

text \<open>
  C9: Once a channel was forgotten, no later request creates a channel with its database identifier or a
  smaller one, for any peer: the channel keys that derive from it are not used again.
\<close>

theorem forgotten_ids_never_reused:
  assumes "node_start n0" "noderun.trace v sha n0 ls n" "life n (channel_id_from_peer_and_oid peer oid) \<noteq> Absent"
    and "node_act v sha (ne, ForgetChannel (channel_id_from_peer_and_oid peer oid), Ok reply) n n1" "noderun.trace v sha n1 ls' n2"
    and "(ne', NewChannel dbid peer', reply') \<in> set ls'" "dbid \<le> oid"
  shows "reply' = Err FailedPrecondition"
proof -
  let ?i = "channel_id_from_peer_and_oid peer oid"
  have ok: "registry_ok n" using run_keeps_mark [OF assms(2)] start_registry [OF assms(1)] by blast
  have ok1: "registry_ok n1" using node_act_moves [OF ok assms(4)] by (simp add: moves_def)
  from assms(3) obtain a where a: "map_of (channel_ids n) ?i = Some a" by (auto simp: life_def split: option.splits)
  have "oid \<le> mark n1"
    using assms(4) a
    by (auto simp: node_act_def forget_channel_def oid_roundtrip attempt_Ok_iff attempt_op_Ok_iff Let_def map_reply_Ok
        modify_monitor_def split: ChannelSlot.splits if_splits)
  moreover obtain xs ys where "ls' = xs @ (ne', NewChannel dbid peer', reply') # ys" using assms(6) by (auto dest: split_list)
  with assms(5) obtain u u' where "noderun.trace v sha n1 xs u" and new: "node_act v sha (ne', NewChannel dbid peer', reply') u u'"
    using noderun.trace_split by blast
  moreover from this have "mark n1 \<le> mark u" using run_keeps_mark ok1 by blast
  ultimately have "dbid \<le> mark u" using assms(7) by simp
  with new show ?thesis by (auto simp: node_act_def new_channel_def err_if_def)
qed

abbreviation example_created :: "unit Node" where
  "example_created \<equiv> snd (node_serve example_node_env (NewChannel 5 example_peer) example_start_node)"

abbreviation example_forgot :: "unit Node" where
  "example_forgot \<equiv> snd (node_serve example_node_env (ForgetChannel example_id) example_created)"

lemma example_forgetting:
  "fst (node_serve example_node_env (NewChannel 5 example_peer) example_start_node) = Ok Acknowledged"
  "fst (node_serve example_node_env (ForgetChannel example_id) example_created) = Ok Acknowledged"
  "fst (node_serve example_node_env (NewChannel 4 [9]) example_forgot) = Err FailedPrecondition"
  "life example_created example_id = Opening"
  by code_simp+

lemma example_act:
  assumes "fst (node_serve ne req n) = reply" "reply \<noteq> Panic" "node_allowed req reply n"
  shows "node_act (ne_validator ne) (ne_sha ne) (ne, req, reply) n (snd (node_serve ne req n))"
  using assms by (auto simp: node_act_def prod_eq_iff)

theorem forgotten_ids_never_reused_witness:
  "life example_created example_id = Opening
   \<and> fst (node_serve example_node_env (NewChannel 4 [9]) example_forgot) = Err FailedPrecondition"
proof -
  let ?trace = "noderun.trace (ne_validator example_node_env) (ne_sha example_node_env)"
    and ?again = "node_serve example_node_env (NewChannel 4 [9]) example_forgot"
  have created: "?trace example_start_node [(example_node_env, NewChannel 5 example_peer, Ok Acknowledged)] example_created"
    by (rule noderun.trace_Cons [OF example_act [OF example_forgetting(1)] noderun.trace_nil]) simp_all
  have again: "?trace example_forgot [(example_node_env, NewChannel 4 [9], fst ?again)] (snd ?again)"
    by (rule noderun.trace_Cons [OF example_act [OF refl] noderun.trace_nil]) (simp_all add: example_forgetting(3) del: node_serve.simps)
  have forgot: "node_act (ne_validator example_node_env) (ne_sha example_node_env)
      (example_node_env, ForgetChannel example_id, Ok Acknowledged) example_created example_forgot"
    by (rule example_act [OF example_forgetting(2)]) (simp_all add: is_ok_def)
  have "life example_created example_id \<noteq> Absent" by (simp only: example_forgetting(4) Life.simps not_False_eq_True)
  note reuse = forgotten_ids_never_reused [OF example_node_start created this [unfolded example_id_def]
      forgot [unfolded example_id_def] again [unfolded example_id_def]]
  have "fst ?again = Err FailedPrecondition"
    unfolding example_id_def by (rule reuse, rule list.set_intros(1)) simp
  with example_forgetting(4) show ?thesis by blast
qed

end
