(* ===== verification/SpliceSafety.thy ===== *)
theory SpliceSafety
  imports OnchainSafety
begin

text \<open>
  What setting up a ready channel again, a splice, leaves in the node: the watches of the tracker when it is
  accepted and the setup of the channel when it is refused.
\<close>

lemma detached_key [simp]: "map_of (listeners (node_tracker (detach key n))) key = None"
  by (auto simp: detach_def remove_listener_def delete_conv' split: option.splits)

lemma detach_other [simp]:
  "key' \<noteq> key \<Longrightarrow> map_of (listeners (node_tracker (detach key n))) key' = map_of (listeners (node_tracker n)) key'"
  by (auto simp: detach_def remove_listener_def delete_conv' split: option.splits)

lemma node_listener_key [simp]: "listener_key (node_listener ne n) l = mon_funding_outpoint (snd l)"
  by (simp add: node_listener_def Let_def)

lemma watch_funding_listener:
  "map_of (listeners (node_tracker (watch_funding ne a m n))) key =
     (if key = mon_funding_outpoint m
      then Some ((a, m), \<lparr>txid_watches = {op_txid key}, watches = {}, seen = {}\<rparr>)
      else map_of (listeners (node_tracker n)) key)"
  by (simp add: watch_funding_def Let_def add_listener_def update_conv')

lemma persist_setup_Ok: "persist_setup ne ch n = (Ok ch', n') \<Longrightarrow> ch' = ch \<and> n' = n"
  by (auto simp: persist_setup_def attempt_Ok_iff)

lemma splice_changes_funding: "is_splice_compatible ch s \<Longrightarrow> funding_outpoint s \<noteq> funding_outpoint (chan_setup ch)"
  by (auto simp: is_splice_compatible_def Let_def split: if_splits)

lemma listener_of_Some: "listener_of n a = Some m \<Longrightarrow> \<exists>key slot. (key, (a, m), slot) \<in> set (listeners (node_tracker n))"
proof -
  assume "listener_of n a = Some m"
  then obtain key b slot rest where found: "filter (\<lambda>(_, (a', _), _). a' = a) (listeners (node_tracker n)) = (key, (b, m), slot) # rest"
    by (auto simp: listener_of_def split: list.splits)
  then have "(key, (b, m), slot) \<in> set (filter (\<lambda>(_, (a', _), _). a' = a) (listeners (node_tracker n)))" by simp
  then show ?thesis by auto
qed

lemma modified_monitor: "monitor_of (modify_monitor a f n) a = Some m \<Longrightarrow> \<exists>m0. m = f m0"
  unfolding monitor_of_def modify_monitor_def
  by (auto dest!: listener_of_Some map_of_SomeD split: option.splits if_splits) blast+

lemma monitor_of_set_slot [simp]: "monitor_of (set_slot b s n) a = monitor_of n a"
  by (simp add: monitor_of_def listener_of_def set_slot_def cong: option.case_cong)

lemma setup_of_ready:
  assumes "map_of (channel_ids n) i = Some a" "slot_at n a = Some (Ready ch)"
  shows "setup_channel ne i opt s path n = setup_splice ne a ch s path n"
  using assms by (simp add: setup_channel_def get_channel_def)

text \<open>
  C31: After an accepted splice the monitor of the channel listens under the new funding outpoint with an
  empty set of watched outpoints, and nothing listens for the old funding outpoint: a spend of the old
  funding, or of an output that was under watch, is no longer reported.
\<close>

theorem splice_drops_watches:
  assumes "setup_channel ne i opt new_setup path n = (Ok ch', n')"
    and "map_of (channel_ids n) i = Some a" "slot_at n a = Some (Ready ch)" "chan_setup ch \<noteq> new_setup"
  shows "\<exists>m. map_of (listeners (node_tracker n')) (funding_outpoint new_setup)
      = Some ((a, m), \<lparr>txid_watches = {op_txid (funding_outpoint new_setup)}, watches = {}, seen = {}\<rparr>)
    \<and> map_of (listeners (node_tracker n')) (funding_outpoint (chan_setup ch)) = None"
proof -
  let ?n = "set_slot a (Ready (splice_channel ch new_setup)) (modify_monitor a (replace_funding_outpoint (funding_outpoint new_setup)) n)"
  obtain m where compatible: "is_splice_compatible ch new_setup" and m: "monitor_of ?n a = Some m"
    and n': "n' = watch_funding ne a (m\<lparr>mon_decode_state := None\<rparr>) (detach (funding_outpoint (chan_setup ch)) ?n)"
    using assms by (auto simp: setup_of_ready setup_splice_def Let_def attempt_Ok_iff result_simps
        dest!: persist_setup_Ok split: if_splits)
  from m obtain m0 where "m = replace_funding_outpoint (funding_outpoint new_setup) m0"
    by (auto dest: modified_monitor)
  then show ?thesis
    using splice_changes_funding [OF compatible]
    by (auto simp: n' watch_funding_listener replace_funding_outpoint_def)
qed

text \<open>
  C32: A splice whose setup the validator refuses has replaced the setup of the channel all the same: the
  request fails and the channel goes on with the refused setup.
\<close>

theorem refused_splice_keeps_new_setup:
  assumes "map_of (channel_ids n) i = Some a" "slot_at n a = Some (Ready ch)"
    and "is_splice_compatible ch new_setup" "push_value_msat new_setup \<le> channel_value_sat new_setup * 1000"
    and "v_validate_setup_channel (ne_validator ne) (node_wallet ne (node_state n)) new_setup path = Err ve"
  shows "fst (setup_channel ne i opt new_setup path n) = Err (status_of_validation_error ve)
    \<and> slot_at (snd (setup_channel ne i opt new_setup path n)) a = Some (Ready (splice_channel ch new_setup))"
proof -
  have "chan_setup ch \<noteq> new_setup" using splice_changes_funding [OF assms(3)] by auto
  moreover have "\<not> push_value_msat new_setup > channel_value_sat new_setup * 1000" using assms(4) by simp
  ultimately show ?thesis
    using assms(1-3,5)
    by (auto simp: setup_of_ready setup_splice_def Let_def set_slot_def slot_at_def update_conv' modify_monitor_def to_status_def)
qed

section \<open>Examples\<close>

definition example_spliced_setup :: "u16 \<Rightarrow> ChannelSetup" where
  "example_spliced_setup delay = example_setup\<lparr>funding_outpoint := outpoint 7 1, channel_value_sat := 4000000,
     holder_selected_contest_delay := delay, counterparty_selected_contest_delay := delay\<rparr>"

definition example_waiting :: "u16 \<Rightarrow> Channel" where
  "example_waiting delay = example_channel\<lparr>chan_setup := example_setup\<lparr>holder_selected_contest_delay := delay,
     counterparty_selected_contest_delay := delay\<rparr>\<rparr>"

definition example_splice_node :: "u16 \<Rightarrow> unit Node" where
  "example_splice_node delay = example_funding_node\<lparr>slots :=
     [(0, Ready (example_waiting delay))]\<rparr>"

abbreviation example_splice :: "u16 \<Rightarrow> (unit Node, Channel, Status) outcome" where
  "example_splice delay \<equiv> setup_channel example_node_env [1] None (example_spliced_setup delay) [] (example_splice_node delay)"

lemma example_splice_parts:
  "map_of (channel_ids (example_splice_node d)) [1] = Some 0"
  "slot_at (example_splice_node d) 0 = Some (Ready (example_waiting d))"
  "is_splice_compatible (example_waiting d) (example_spliced_setup d)"
  by (simp_all add: example_splice_node_def example_funding_node_def slot_at_def is_splice_compatible_def example_spliced_setup_def example_waiting_def
      example_setup_def outpoint_def)

theorem splice_drops_watches_witness:
  "is_ok (fst (example_splice 200))
   \<and> map_of (listeners (node_tracker (snd (example_splice 200)))) (outpoint 2 0) = None"
proof -
  have ok: "is_ok (fst (example_splice 200))" by code_simp
  then obtain ch' n' where spliced: "example_splice 200 = (Ok ch', n')" by (rule is_ok_outcome)
  from splice_drops_watches [OF this example_splice_parts(1,2)] show ?thesis
    unfolding spliced by (simp add: is_ok_def outpoint_def example_setup_def example_spliced_setup_def example_waiting_def)
qed

theorem refused_splice_keeps_new_setup_witness:
  "fst (example_splice 1) = Err FailedPrecondition
   \<and> slot_at (snd (example_splice 1)) 0 = Some (Ready (splice_channel (example_waiting 1) (example_spliced_setup 1)))"
proof -
  have "v_validate_setup_channel (ne_validator example_node_env)
      (node_wallet example_node_env (node_state (example_splice_node 1))) (example_spliced_setup 1) []
      = Err (policy_error ''policy-channel-contest-delay-range-holder'')" by code_simp
  moreover have "push_value_msat (example_spliced_setup 1) \<le> channel_value_sat (example_spliced_setup 1) * 1000" by code_simp
  ultimately show ?thesis
    using refused_splice_keeps_new_setup [OF example_splice_parts] by (simp add: status_of_validation_error_def policy_error_def)
qed

end
