(* ===== verification/Spec2Isabelle.thy ===== *)
theory Spec2Isabelle
  imports ChannelSafety WatchSafety NodeSafety OnchainSafety SpliceSafety
begin

text \<open>
  A verification of the validating lightning signer. The signer holds the keys of a lightning node and
  signs what the node asks for only after it has checked the request against its own policy and state, so that
  a node under foreign control cannot make it lose funds.

  \<^bold>\<open>The parts and their theories.\<close> Paths are below \<^verbatim>\<open>src/vls-core/src\<close> unless they name another crate.

  \<^item> \<open>Prelude\<close>: machine integers as words, the type of results (a value, an error or a panic), the state
    passed along as \<open>outcome\<close>, checked and saturating arithmetic, ordered maps as association lists, and the
    locales of transition systems with and without labels, on which every statement about runs rests.
  \<^item> \<open>Velocity\<close> (\<^verbatim>\<open>util/velocity.rs\<close>): the bucketed rate limiter, an instance of the locale \<open>rate_limiter\<close>; over any
    sequence of insertions the amounts accepted within the window stay within the limit.
  \<^item> \<open>Policy\<close> (\<^verbatim>\<open>policy/error.rs\<close>, \<^verbatim>\<open>filter.rs\<close> and the policies of the two validators): errors, filter rules and limits.
  \<^item> \<open>TxInfo\<close> (\<^verbatim>\<open>tx/tx.rs\<close>, \<^verbatim>\<open>util/transaction_utils.rs\<close>): the contents of a commitment, claimable balances, fee rates
    and the obscured commitment number.
  \<^item> \<open>Secrets\<close> and \<open>Enforcement\<close> (\<^verbatim>\<open>policy/validator.rs\<close>): the compact store of revealed secrets and the state
    that a channel enforces, with its counters and balances.
  \<^item> \<open>Scripts\<close> (\<^verbatim>\<open>tx/script.rs\<close>, \<^verbatim>\<open>tx/tx.rs\<close>): the parsers of the output scripts of a commitment transaction; the
    HTLC parser accepts exactly its template.
  \<^item> \<open>SimpleValidator\<close>, \<open>ValidatorSafety\<close> and \<open>Validators\<close> (\<^verbatim>\<open>policy/simple_validator.rs\<close>, \<^verbatim>\<open>onchain_validator.rs\<close>,
    \<^verbatim>\<open>validator.rs\<close>): the checks in the order of the code, what acceptance means for each kind of transaction, and
    the trait as a record of functions. What a channel needs of a validator is the locale \<open>commitment_guard\<close>,
    extended by \<open>buried_guard\<close>; both validators are interpretations.
  \<^item> \<open>Payments\<close> and \<open>PaymentSafety\<close> (\<^verbatim>\<open>node.rs\<close>): invoices, keysends, routed payments and their balance over all
    channels, the heartbeat's pruning and a restart.
  \<^item> \<open>Signer\<close> (\<^verbatim>\<open>signer/vls_channel_signer.rs\<close>, \<^verbatim>\<open>util/crypto_utils.rs\<close>): keys, points, secrets and signatures.
  \<^item> \<open>Channel\<close> (\<^verbatim>\<open>channel.rs\<close>): one definition per request of a ready channel, with every guard, write and
    error of the code in its place.
  \<^item> \<open>Protocol\<close>, \<open>ChannelRefinement\<close> and \<open>ChannelSafety\<close>: an abstract machine of the commitment protocol, the proof that
    every run of a channel follows it, and the safety properties drawn from it.
  \<^item> \<open>Monitor\<close> and \<open>MonitorSafety\<close> (\<^verbatim>\<open>monitor.rs\<close>): what a channel learns of the chain, how a block changes it and how a
    removed block is undone.
  \<^item> \<open>Tracker\<close>, \<open>TrackerSafety\<close> and \<open>WatchSafety\<close> (\<^verbatim>\<open>chain/tracker.rs\<close>, chain messages of
    \<^verbatim>\<open>vls-protocol-signer/src/handler.rs\<close>): the chain of headers, the proofs of blocks, the listeners and what they
    watch. The contract of a listener is the locale \<open>chain_listener\<close>, extended by \<open>reversible_listener\<close>, with
    the monitor as interpretation.
  \<^item> \<open>Node\<close> (\<^verbatim>\<open>node.rs\<close>): channels by identifier in shared slots, from stub over setup and splice to forgetting and pruning,
    the wallet and the allowlist, the heartbeat and blocks.
  \<^item> \<open>Onchain\<close>, \<open>Approver\<close> and \<open>OnchainSafety\<close> (\<^verbatim>\<open>node.rs\<close>, \<^verbatim>\<open>vls-protocol-signer/src/approver.rs\<close>): the check and the
    signature of wallet transactions, the approvers, and what a signature guarantees.
  \<^item> \<open>NodeRun\<close>, \<open>NodeLife\<close>, \<open>NodeSafety\<close> and \<open>SpliceSafety\<close>: the requests of \<^verbatim>\<open>vls-protocol-signer/src/handler.rs\<close> as
    the steps of a whole node; every request moves a channel along its life cycle, so that every channel
    follows the protocol machine although channels are created, forgotten and pruned in between. What a splice
    leaves behind is shown apart.

  \<^bold>\<open>How the code is read.\<close> A struct is a record, an enum a datatype, a fallible function returns a
  \<open>result\<close> whose third alternative is a panic. A function that changes state takes it as its last argument and returns
  an \<open>outcome\<close>: an error keeps the changes made before it, as in the code. Plain arithmetic on machine integers wraps, as in
  a release build. Locks are not modelled: every request of the handler holds what it needs and requests are served one after
  the other. Code outside the repository (secp256k1, hashes, the transaction builders and script types of the
  bitcoin and lightning crates, proofs of transaction output sets) and the persister are functions in records
  that the definitions take as arguments; a persister may fail at any write.

  \<^bold>\<open>Bounds.\<close> The statements about runs of channels and nodes are for fewer than \<open>2 ^ 48\<close> requests, since a channel has
  \<open>2 ^ 48\<close> commitment numbers. The runs of a node contain no splices, no refused request to forget a
  channel and no request to revoke the commitment of the largest number; \<open>SpliceSafety\<close> and the bounds
  property on the guard of secrets show why these are left out. The search for a low-R signature is the only loop
  without a bound; it is a partial function, and it ends exactly when a draw succeeds. All other recursions are total.

  \<^bold>\<open>Not modelled.\<close> The cryptography itself and the derivation of keys from the seed; the parts of the channel that recover
  a force-closed channel, sign phase 1 HTLC transactions and announcements; the validator's rebuilding of an
  HTLC transaction from its parts; signatures with the node key on messages and invoices; the construction
  of a node from a seed; the encodings of messages and of stored state; the transports, daemons, persisters, command
  line tools, embedded targets and test crates, which are I/O around the modelled core.
\<close>

end
